(* ===== verification/Quik_Prelude.thy ===== *)
theory Quik_Prelude imports Main "HOL-Library.Word" "HOL-Library.Sublist" begin

unbundle bit_operations_syntax

text \<open>
  What the components of the transport library share: the result types that stand for
  \<open>Result\<close> and the question-mark operator, the parts of Rust's string library the source
  calls (\<open>contains\<close>, \<open>starts_with\<close>, \<open>join\<close>, decimal formatting, lower-casing), and
  big-endian byte strings. A Rust string is its UTF-8 byte sequence: a \<open>string\<close>, one
  \<open>char\<close> per byte; raw buffers are lists of \<open>8 word\<close>.
\<close>

section \<open>Collections of rewrite rules\<close>

named_theorems result_simps \<open>equations of the result operators\<close>
named_theorems text_simps \<open>equations of the string operations\<close>
named_theorems wire_simps \<open>equations of the byte encoders and decoders\<close>

section \<open>Machine integers and bytes\<close>

type_synonym byte = "8 word"
type_synonym u8 = "8 word"
type_synonym u16 = "16 word"
type_synonym u32 = "32 word"
type_synonym u64 = "64 word"

section \<open>Fallible computations\<close>

text \<open>
  \<open>'e + 'a\<close> is \<open>Result<'a, 'e>\<close> with \<open>Inl\<close> for \<open>Err\<close>. \<open>and_then\<close> is the
  question-mark operator of a pure computation; \<open>try_st\<close> is the same operator when a state
  (the world outside the program, or the client's shared tables) is threaded through: an
  error ends the computation and keeps the effects made so far.
\<close>

definition and_then :: "'e + 'a \<Rightarrow> ('a \<Rightarrow> 'e + 'b) \<Rightarrow> 'e + 'b" where
  "and_then r k = (case r of Inl e \<Rightarrow> Inl e | Inr x \<Rightarrow> k x)"

definition map_err :: "('e \<Rightarrow> 'f) \<Rightarrow> 'e + 'a \<Rightarrow> 'f + 'a" where
  "map_err f r = (case r of Inl e \<Rightarrow> Inl (f e) | Inr x \<Rightarrow> Inr x)"

definition try_st :: "('e + 'a) \<times> 's \<Rightarrow> ('a \<Rightarrow> 's \<Rightarrow> ('e + 'b) \<times> 's) \<Rightarrow> ('e + 'b) \<times> 's" where
  "try_st r k = (case r of (Inl e, s) \<Rightarrow> (Inl e, s) | (Inr x, s) \<Rightarrow> k x s)"

definition map_err_st :: "('e \<Rightarrow> 'f) \<Rightarrow> ('e + 'a) \<times> 's \<Rightarrow> ('f + 'a) \<times> 's" where
  "map_err_st f r = (map_err f (fst r), snd r)"

lemma and_then_simps [simp, result_simps]:
  "and_then (Inl e) k = Inl e"
  "and_then (Inr x) k = k x"
  by (simp_all add: and_then_def)

lemma map_err_simps [simp, result_simps]:
  "map_err f (Inl e) = Inl (f e)"
  "map_err f (Inr x) = Inr x"
  by (simp_all add: map_err_def)

lemma try_st_simps [simp, result_simps]:
  "try_st (Inl e, s) k = (Inl e, s)"
  "try_st (Inr x, s) k = k x s"
  by (simp_all add: try_st_def)

lemma map_err_st_simps [simp, result_simps]:
  "map_err_st f (r, s) = (map_err f r, s)"
  by (simp add: map_err_st_def)

lemma and_then_Inr_iff:
  "and_then r k = Inr y \<longleftrightarrow> (\<exists>x. r = Inr x \<and> k x = Inr y)"
  by (cases r) simp_all

lemma try_st_Inr_iff:
  "try_st r k = (Inr y, s') \<longleftrightarrow> (\<exists>x s. r = (Inr x, s) \<and> k x s = (Inr y, s'))"
  by (cases r; cases "fst r") (auto simp: try_st_def)

lemma try_st_Inl_iff:
  "try_st r k = (Inl e, s') \<longleftrightarrow>
     r = (Inl e, s') \<or> (\<exists>x s. r = (Inr x, s) \<and> k x s = (Inl e, s'))"
  by (cases r; cases "fst r") (auto simp: try_st_def)

lemma and_then_assoc: "and_then (and_then r f) g = and_then r (\<lambda>x. and_then (f x) g)"
  by (cases r) simp_all

lemma and_then_Inr_right [simp]: "and_then r Inr = r"
  by (cases r) simp_all

lemma and_then_cong:
  "r = r' \<Longrightarrow> (\<And>x. r' = Inr x \<Longrightarrow> k x = k' x) \<Longrightarrow> and_then r k = and_then r' k'"
  by (cases r') auto

lemma map_err_Inr_iff [simp]: "map_err f r = Inr x \<longleftrightarrow> r = Inr x"
  by (cases r) simp_all

lemma map_err_st_Inr_iff [simp]: "map_err_st f r = (Inr x, s) \<longleftrightarrow> r = (Inr x, s)"
  by (cases r) simp

lemma try_st_cong:
  "r = r' \<Longrightarrow> (\<And>x s. r' = (Inr x, s) \<Longrightarrow> k x s = k' x s) \<Longrightarrow> try_st r k = try_st r' k'"
  by (auto simp: try_st_def split: prod.splits sum.splits)

lemma try_st_assoc: "try_st (try_st r f) g = try_st r (\<lambda>x s. try_st (f x s) g)"
  by (cases r; cases "fst r") (auto simp: try_st_def)

text \<open>The same when a computation may not end: \<open>None\<close> is divergence.\<close>

definition try_opt ::
  "(('e + 'a) \<times> 's) option \<Rightarrow> ('a \<Rightarrow> 's \<Rightarrow> (('e + 'b) \<times> 's) option) \<Rightarrow> (('e + 'b) \<times> 's) option" where
  "try_opt r k = (case r of None \<Rightarrow> None | Some rs \<Rightarrow>
     (case rs of (Inl e, s) \<Rightarrow> Some (Inl e, s) | (Inr x, s) \<Rightarrow> k x s))"

lemma try_opt_simps [simp, result_simps]:
  "try_opt None k = None"
  "try_opt (Some (Inl e, s)) k = Some (Inl e, s)"
  "try_opt (Some (Inr x, s)) k = k x s"
  by (simp_all add: try_opt_def)

lemma try_opt_Inr_iff:
  "try_opt r k = Some (Inr y, s') \<longleftrightarrow> (\<exists>x s. r = Some (Inr x, s) \<and> k x s = Some (Inr y, s'))"
  by (auto simp: try_opt_def split: option.splits prod.splits sum.splits)

lemma try_opt_Some_cases:
  assumes "try_opt r k = Some (y, s')"
  obtains (stop) e where "r = Some (Inl e, s')" "y = Inl e"
    | (go) x s where "r = Some (Inr x, s)" "k x s = Some (y, s')"
  using assms by (auto simp: try_opt_def split: option.splits prod.splits sum.splits)

section \<open>Strings\<close>

fun str_contains :: "'a list \<Rightarrow> 'a list \<Rightarrow> bool" where
  "str_contains [] pat = (pat = [])"
| "str_contains (x # xs) pat = (prefix pat (x # xs) \<or> str_contains xs pat)"

lemma str_contains_sublist: "str_contains s pat \<longleftrightarrow> sublist pat s"
  by (induction s) (auto simp: sublist_Cons_right)

lemma str_contains_append [intro]:
  "str_contains (us @ pat @ vs) pat"
  by (auto simp: str_contains_sublist sublist_def)

lemma str_contains_extend: "str_contains xs p \<Longrightarrow> str_contains (xs @ ys) p"
  unfolding str_contains_sublist sublist_def by (metis append_assoc)

lemma prefix_map_inj: "inj f \<Longrightarrow> prefix (map f p) (map f s) \<longleftrightarrow> prefix p s"
proof (induction p arbitrary: s)
  case (Cons x p)
  then show ?case by (cases s) (auto simp: inj_eq)
qed simp

lemma str_contains_map_inj: "inj f \<Longrightarrow> str_contains (map f s) (map f p) \<longleftrightarrow> str_contains s p"
proof (induction s)
  case (Cons c s)
  then show ?case using prefix_map_inj[of f p "c # s"] by simp
qed simp

lemma takeWhile_stop: "\<forall>c \<in> set xs. P c \<Longrightarrow> \<not> P y \<Longrightarrow> takeWhile P (xs @ y # ys) = xs"
  by (induction xs) auto

definition starts_with :: "'a list \<Rightarrow> 'a list \<Rightarrow> bool" where
  "starts_with s pat = prefix pat s"

lemma starts_with_iff [text_simps]: "starts_with s pat \<longleftrightarrow> (\<exists>r. s = pat @ r)"
  by (simp add: starts_with_def prefix_def)

fun str_join :: "string \<Rightarrow> string list \<Rightarrow> string" where
  "str_join sep [] = []"
| "str_join sep [x] = x"
| "str_join sep (x # y # ys) = x @ sep @ str_join sep (y # ys)"

fun strip_prefix :: "string \<Rightarrow> string \<Rightarrow> string option" where
  "strip_prefix [] s = Some s"
| "strip_prefix (p # ps) [] = None"
| "strip_prefix (p # ps) (c # cs) = (if p = c then strip_prefix ps cs else None)"

lemma strip_prefix_append [simp]: "strip_prefix p (p @ s) = Some s"
  by (induction p) auto

definition quoted :: "string \<Rightarrow> string" where
  "quoted s = CHR 0x22 # s @ [CHR 0x22]"

definition ascii_lower :: "char \<Rightarrow> char" where
  "ascii_lower c = (let n = (of_char c :: nat) in
     if 65 \<le> n \<and> n \<le> 90 then char_of (n + 32) else c)"

definition to_lowercase :: "string \<Rightarrow> string" where
  "to_lowercase s = map ascii_lower s"

definition digit_char :: "nat \<Rightarrow> char" where
  "digit_char n = char_of (48 + n)"

fun show_nat :: "nat \<Rightarrow> string" where
  "show_nat n = (if n < 10 then [digit_char n] else show_nat (n div 10) @ [digit_char (n mod 10)])"

declare show_nat.simps [simp del]

definition show_word :: "'a::len word \<Rightarrow> string" where
  "show_word w = show_nat (unat w)"

definition is_digit :: "char \<Rightarrow> bool" where
  "is_digit c = (let n = (of_char c :: nat) in 48 \<le> n \<and> n \<le> 57)"

fun parse_digits :: "nat \<Rightarrow> string \<Rightarrow> nat" where
  "parse_digits acc [] = acc"
| "parse_digits acc (c # cs) = parse_digits (10 * acc + (of_char c - 48)) cs"

lemma of_digit_char [text_simps]: "n < 10 \<Longrightarrow> (of_char (digit_char n) :: nat) = 48 + n"
  by (simp add: digit_char_def of_char_of)

lemma digit_char_eval [simp]:
  "digit_char 0 = CHR ''0''" "digit_char 1 = CHR ''1''" "digit_char (Suc 0) = CHR ''1''"
  "digit_char 2 = CHR ''2''" "digit_char 3 = CHR ''3''" "digit_char 4 = CHR ''4''"
  "digit_char 5 = CHR ''5''" "digit_char 6 = CHR ''6''" "digit_char 7 = CHR ''7''"
  "digit_char 8 = CHR ''8''" "digit_char 9 = CHR ''9''"
  by code_simp+

lemma is_digit_digit_char [simp]: "n < 10 \<Longrightarrow> is_digit (digit_char n)"
  by (simp add: is_digit_def of_digit_char)

lemma show_nat_digits: "\<forall>c \<in> set (show_nat n). is_digit c"
proof (induction n rule: show_nat.induct)
  case (1 n)
  then show ?case by (subst show_nat.simps) auto
qed

lemma show_nat_nonempty [simp]: "show_nat n \<noteq> []"
  by (subst show_nat.simps) simp

lemma parse_digits_append: "parse_digits a (xs @ ys) = parse_digits (parse_digits a xs) ys"
  by (induction xs arbitrary: a) auto

lemma parse_show_nat [text_simps]: "parse_digits 0 (show_nat n) = n"
proof (induction n rule: show_nat.induct)
  case (1 n)
  show ?case
    using 1 by (subst show_nat.simps) (auto simp: parse_digits_append of_digit_char)
qed

lemma show_nat_inject [simp]: "show_nat m = show_nat n \<longleftrightarrow> m = n"
  by (metis parse_show_nat)

lemma show_word_inject [simp]: "show_word v = show_word w \<longleftrightarrow> v = w"
  by (simp add: show_word_def word_unat_eq_iff)

section \<open>Bytes of a string, big-endian words\<close>

definition as_bytes :: "string \<Rightarrow> byte list" where
  "as_bytes s = map of_char s"

definition of_bytes :: "byte list \<Rightarrow> string" where
  "of_bytes bs = map (\<lambda>b. char_of (unat b)) bs"

lemma length_as_bytes [simp]: "length (as_bytes s) = length s"
  by (simp add: as_bytes_def)

lemma unat_of_char_byte [simp]: "unat (of_char c :: byte) = of_char c"
proof -
  have "(of_char c :: nat) < 256" by simp
  then have "unat (of_nat (of_char c) :: byte) = of_char c" by (simp add: unat_of_nat)
  then show ?thesis by (simp only: of_nat_of_char)
qed

lemma of_bytes_as_bytes [simp, wire_simps]: "of_bytes (as_bytes s) = s"
  by (simp add: as_bytes_def of_bytes_def comp_def)

lemma inj_byte_char: "inj (\<lambda>b :: byte. char_of (unat b))"
proof (rule injI)
  fix a b :: byte
  assume "(char_of (unat a) :: char) = char_of (unat b)"
  then have "(of_char (char_of (unat a)) :: nat) = of_char (char_of (unat b))" by simp
  then have "unat a mod 256 = unat b mod 256" by (simp only: of_char_of)
  moreover have "unat a < 256" "unat b < 256" using unsigned_less[of a] unsigned_less[of b] by simp_all
  ultimately show "a = b" by (simp add: word_unat_eq_iff)
qed

lemma contains_of_bytes: "str_contains (of_bytes bs) s \<longleftrightarrow> str_contains bs (as_bytes s)"
  using str_contains_map_inj[OF inj_byte_char, of bs "as_bytes s"]
  by (simp only: of_bytes_def[symmetric] of_bytes_as_bytes)

lemma prefix_of_bytes: "prefix s (of_bytes bs) \<longleftrightarrow> prefix (as_bytes s) bs"
  using prefix_map_inj[OF inj_byte_char, of "as_bytes s" bs]
  by (simp only: of_bytes_def[symmetric] of_bytes_as_bytes)

lemma as_bytes_inject [simp]: "as_bytes s = as_bytes t \<longleftrightarrow> s = t"
  by (metis of_bytes_as_bytes)

lemma of_char_byte [simp]: "(of_char (char_of (unat (b :: byte)) :: char) :: byte) = b"
proof -
  have "unat b < 256" using unsigned_less[of b] by simp
  then show ?thesis by (simp only: word_unat_eq_iff unat_of_char_byte of_char_of) simp
qed

lemma as_bytes_of_bytes [simp, wire_simps]: "as_bytes (of_bytes bs) = bs"
  by (simp add: as_bytes_def of_bytes_def comp_def)

lemma as_bytes_append [simp]: "as_bytes (s @ t) = as_bytes s @ as_bytes t"
  by (simp add: as_bytes_def)

definition u16_be :: "u16 \<Rightarrow> byte list" where
  "u16_be w = [ucast (drop_bit 8 w), ucast w]"

definition u32_be :: "u32 \<Rightarrow> byte list" where
  "u32_be w = [ucast (drop_bit 24 w), ucast (drop_bit 16 w), ucast (drop_bit 8 w), ucast w]"

definition be_u16 :: "byte \<Rightarrow> byte \<Rightarrow> u16" where
  "be_u16 a b = push_bit 8 (ucast a) OR ucast b"

definition be_u32 :: "byte \<Rightarrow> byte \<Rightarrow> byte \<Rightarrow> byte \<Rightarrow> u32" where
  "be_u32 a b c d =
     push_bit 24 (ucast a) OR push_bit 16 (ucast b) OR push_bit 8 (ucast c) OR ucast d"

lemma length_be [simp, wire_simps]: "length (u16_be v) = 2" "length (u32_be w) = 4"
  by (simp_all add: u16_be_def u32_be_def)

lemma be_u16_u16_be [wire_simps]: "be_u16 (ucast (drop_bit 8 w)) (ucast w) = w"
  unfolding be_u16_def by (rule bit_word_eqI) (auto simp: bit_simps)

lemma be_u32_u32_be [wire_simps]:
  "be_u32 (ucast (drop_bit 24 w)) (ucast (drop_bit 16 w)) (ucast (drop_bit 8 w)) (ucast w) = w"
  for w :: u32
proof (unfold be_u32_def, rule bit_word_eqI)
  fix n
  assume "n < LENGTH(32)"
  then consider "n < 8" | "8 \<le> n" "n < 16" | "16 \<le> n" "n < 24" | "24 \<le> n" "n < 32"
    by (simp, arith)
  then show "bit (push_bit 24 (ucast (ucast (drop_bit 24 w) :: byte) :: u32) OR
      push_bit 16 (ucast (ucast (drop_bit 16 w) :: byte)) OR
      push_bit 8 (ucast (ucast (drop_bit 8 w) :: byte)) OR ucast (ucast w :: byte)) n = bit w n"
    by cases (auto simp: bit_simps)
qed

lemma bit_byte_high [simp]: "\<not> bit (b :: byte) (8 + n)"
  by (auto dest: bit_imp_le_length)

lemma u16_be_be_u16 [wire_simps]: "u16_be (be_u16 a b) = [a, b]"
  unfolding u16_be_def be_u16_def by (auto intro!: bit_word_eqI simp: bit_simps)

section \<open>Lists read by index\<close>

text \<open>A slice read: Rust panics out of range, so the model's read is partial.\<close>

fun nth_opt :: "'a list \<Rightarrow> nat \<Rightarrow> 'a option" where
  "nth_opt [] i = None"
| "nth_opt (x # xs) 0 = Some x"
| "nth_opt (x # xs) (Suc i) = nth_opt xs i"

lemma nth_opt_eq: "nth_opt xs i = (if i < length xs then Some (xs ! i) else None)"
  by (induction xs i rule: nth_opt.induct) auto

lemma nth_opt_Some_iff: "nth_opt xs i = Some x \<longleftrightarrow> i < length xs \<and> xs ! i = x"
  by (auto simp: nth_opt_eq)

end
