(* ===== verification/Quik_Error.thy ===== *)
theory Quik_Error imports Quik_Prelude begin

text \<open>
  The error surface (\<open>src/error.rs\<close>): the six classes every layer reports through. A payload
  of a foreign type (BoringSSL's error stack, the TLS handshake error, the HTTP/2 error) is
  kept as the text its \<open>Display\<close> gives, the only thing the source does with it.
\<close>

datatype io_kind = NotFound | ConnectionAborted | UnexpectedEof | OtherKind | OsKind nat

record io_error =
  io_kind :: io_kind
  io_msg :: string

definition io_other :: "string \<Rightarrow> io_error" where
  "io_other m = \<lparr>io_kind = OtherKind, io_msg = m\<rparr>"

datatype quik_error =
    TlsBuild string
  | TlsHandshake string
  | Http2Error string
  | Connect io_error
  | Verify string
  | InvalidUrl string

fun error_display :: "quik_error \<Rightarrow> string" where
  "error_display (TlsBuild e) = ''failed to build TLS connector: '' @ e"
| "error_display (TlsHandshake e) = ''TLS handshake failed: '' @ e"
| "error_display (Http2Error e) = ''http/2 handshake failed: '' @ e"
| "error_display (Connect e) = ''connection failed: '' @ io_msg e"
| "error_display (Verify m) = ''fingerprint verification failed: '' @ m"
| "error_display (InvalidUrl m) = ''invalid url: '' @ m"

text \<open>
  \<open>std::io::Error::other(msg)\<close> wrapped in \<open>Error::Connect\<close>, the form most call sites use.
\<close>

definition connect_other :: "string \<Rightarrow> quik_error" where
  "connect_other m = Connect (io_other m)"

text \<open>
  A panic (an \<open>unwrap\<close> on a poisoned lock) is not an error value: it unwinds the task.
  Functions that can panic return an \<open>abort\<close>.
\<close>

datatype abort = Panic string | Fail quik_error

end
