(* ===== verification/Quik_Profile.thy ===== *)
theory Quik_Profile imports Quik_Prelude "HOL-Library.Monad_Syntax" begin

text \<open>
  The identity schemas of \<open>src/profile/mod.rs\<close>: one record per struct, one datatype per enum,
  fields in the source's order. Field names carry a prefix of their struct (\<open>tls_\<close>, \<open>sf_\<close>,
  \<open>h2p_\<close>, \<open>hpr_\<close>, \<open>hdr_\<close>, \<open>cp_\<close>). Also what the three constructor modules share: the
  host's operating system as \<open>cfg!(target_os)\<close> sees it, the random source, and the
  notation of a brand list.
\<close>

section \<open>The schemas\<close>

datatype tls_version = TLS1_2 | TLS1_3

datatype platform = MacOsArm | MacOsX86 | WindowsX64 | LinuxX64

record tls_profile =
  tls_min_version :: tls_version
  tls_max_version :: tls_version
  tls_cipher_list :: string
  tls_curves :: "u16 list"
  tls_grease_enabled :: bool
  tls_permute_extensions :: bool
  tls_enable_ech_grease :: bool
  tls_alps_enabled :: bool
  tls_alps_use_new_codepoint :: bool
  tls_alps_extra_settings :: "(u16 \<times> u32) list"
  tls_compress_certificate :: bool
  tls_session_ticket_enabled :: bool
  tls_alpn_protocols :: "string list"
  tls_sigalgs :: "u16 list"
  tls_verify_peer :: bool

record settings_frame =
  sf_header_table_size :: u32
  sf_enable_push :: bool
  sf_initial_window_size :: u32
  sf_max_header_list_size :: u32

record headers_priority =
  hpr_dep :: u32
  hpr_weight :: u8
  hpr_exclusive :: bool

datatype pseudo_order = Method | Authority | Scheme | Path

text \<open>\<open>pseudo_order\<close> is an array of length four in the source; here a list.\<close>

record http2_profile =
  h2p_settings :: settings_frame
  h2p_initial_connection_window_size :: u32
  h2p_pseudo_order :: "pseudo_order list"
  h2p_headers_priority :: headers_priority

record header_profile =
  hdr_user_agent :: string
  hdr_sec_ch_ua :: string
  hdr_sec_ch_ua_platform :: string
  hdr_sec_ch_ua_platform_version :: string
  hdr_include_priority_header :: bool
  hdr_zstd_encoding :: bool
  hdr_accept_language :: string

record chrome_profile =
  cp_version :: u32
  cp_platform :: platform
  cp_tls :: tls_profile
  cp_h2 :: http2_profile
  cp_headers :: header_profile

text \<open>Platforms are finitely many, so a statement about all of them is decided by evaluation.\<close>

instantiation platform :: enum
begin

definition enum_platform :: "platform list" where
  "enum_platform = [MacOsArm, MacOsX86, WindowsX64, LinuxX64]"

definition enum_all_platform :: "(platform \<Rightarrow> bool) \<Rightarrow> bool" where
  "enum_all_platform P \<longleftrightarrow> P MacOsArm \<and> P MacOsX86 \<and> P WindowsX64 \<and> P LinuxX64"

definition enum_ex_platform :: "(platform \<Rightarrow> bool) \<Rightarrow> bool" where
  "enum_ex_platform P \<longleftrightarrow> P MacOsArm \<or> P MacOsX86 \<or> P WindowsX64 \<or> P LinuxX64"

instance
proof
  show "(UNIV :: platform set) = set enum_class.enum"
    using platform.exhaust by (auto simp: enum_platform_def)
  show "distinct (enum_class.enum :: platform list)"
    by (simp add: enum_platform_def)
  show "enum_class.enum_all P \<longleftrightarrow> Ball (UNIV :: platform set) P" for P
    by (simp add: enum_all_platform_def) (metis platform.exhaust)
  show "enum_class.enum_ex P \<longleftrightarrow> Bex (UNIV :: platform set) P" for P
    by (simp add: enum_ex_platform_def) (metis platform.exhaust)
qed

end

section \<open>The host and the random source\<close>

text \<open>
  \<open>cfg!(target_os = "macos")\<close> and \<open>cfg!(target_os = "windows")\<close> are decided when the crate is
  compiled; the model takes the target as an argument.
\<close>

datatype target_os = TargetMacos | TargetWindows | TargetOther

text \<open>
  \<open>rand::random_range(0..n)\<close> belongs to the \<open>rand\<close> crate: it is an argument \<open>r\<close>, with a
  generator state threaded through, and \<open>rng_ok\<close> is its documented range. A call on an empty
  range panics in the crate; the source never makes one.
\<close>

type_synonym 'g rng = "nat \<Rightarrow> 'g \<Rightarrow> nat \<times> 'g"

definition rng_ok :: "'g rng \<Rightarrow> bool" where
  "rng_ok r \<longleftrightarrow> (\<forall>n g. 0 < n \<longrightarrow> fst (r n g) < n)"

lemma rng_okD: "rng_ok r \<Longrightarrow> r n g = (i, g') \<Longrightarrow> 0 < n \<Longrightarrow> i < n"
  unfolding rng_ok_def by (metis fst_conv)

text \<open>A source that replays a fixed list of choices, for evaluation.\<close>

definition replay_rng :: "nat list rng" where
  "replay_rng n g = (case g of [] \<Rightarrow> (0, []) | x # xs \<Rightarrow> ((if x < n then x else 0), xs))"

lemma replay_rng_ok: "rng_ok replay_rng"
  by (auto simp: rng_ok_def replay_rng_def split: list.splits)

text \<open>Indexing an array with a random index: an index out of range would panic (\<open>None\<close>).\<close>

definition pick :: "'g rng \<Rightarrow> 'a list \<Rightarrow> 'g \<Rightarrow> ('a \<times> 'g) option" where
  "pick r xs g = (let (i, g') = r (length xs) g in map_option (\<lambda>x. (x, g')) (nth_opt xs i))"

lemma pick_Some:
  assumes "rng_ok r" "xs \<noteq> []"
  obtains x g' where "pick r xs g = Some (x, g')" "x \<in> set xs"
  using assms rng_okD[of r "length xs" g]
  by (cases "r (length xs) g") (auto simp: pick_def nth_opt_eq)

lemma pick_mem: "pick r xs g = Some (x, g') \<Longrightarrow> x \<in> set xs"
  by (auto simp: pick_def nth_opt_eq split: prod.splits if_splits)

section \<open>Brand lists\<close>

text \<open>
  One entry of a \<open>sec-ch-ua\<close> list as the format strings write it, and the three layouts the
  generators choose from: the GREASE entry first, second or last.
\<close>

definition brand_entry :: "string \<Rightarrow> string \<Rightarrow> string" where
  "brand_entry b v = quoted b @ '';v='' @ quoted v"

definition comma_sep :: string where
  "comma_sep = '', ''"

definition brand_layout :: "nat \<Rightarrow> string \<Rightarrow> string \<Rightarrow> string \<Rightarrow> string" where
  "brand_layout pos major brand v =
    (if pos = 0 then
       brand_entry brand v @ comma_sep @ brand_entry ''Chromium'' major @ comma_sep @
       brand_entry ''Google Chrome'' major
     else if pos = 1 then
       brand_entry ''Chromium'' major @ comma_sep @ brand_entry brand v @ comma_sep @
       brand_entry ''Google Chrome'' major
     else
       brand_entry ''Chromium'' major @ comma_sep @ brand_entry ''Google Chrome'' major @
       comma_sep @ brand_entry brand v)"

text \<open>
  What a server reads: a list of quoted strings with a quoted \<open>v\<close> parameter, in the syntax of
  HTTP structured fields (RFC 8941, section 3.3.3): inside the quotes a backslash may stand only
  before a quote or another backslash.
\<close>

fun sf_string_body :: "string \<Rightarrow> (string \<times> string) option" where
  "sf_string_body [] = None"
| "sf_string_body (c # cs) =
    (if c = CHR 0x22 then Some ([], cs)
     else if c = CHR 0x5C then
       (case cs of
          [] \<Rightarrow> None
        | d # ds \<Rightarrow>
            (if d = CHR 0x22 \<or> d = CHR 0x5C
             then map_option (\<lambda>(s, r). (d # s, r)) (sf_string_body ds) else None))
     else map_option (\<lambda>(s, r). (c # s, r)) (sf_string_body cs))"

definition sf_string :: "string \<Rightarrow> (string \<times> string) option" where
  "sf_string s = (case s of [] \<Rightarrow> None | c # cs \<Rightarrow> if c = CHR 0x22 then sf_string_body cs else None)"

definition sf_brand :: "string \<Rightarrow> ((string \<times> string) \<times> string) option" where
  "sf_brand s = do {
     (b, r1) \<leftarrow> sf_string s;
     r2 \<leftarrow> strip_prefix '';v='' r1;
     (v, r3) \<leftarrow> sf_string r2;
     Some ((b, v), r3) }"

fun sf_brand_list :: "nat \<Rightarrow> string \<Rightarrow> (string \<times> string) list option" where
  "sf_brand_list 0 s = None"
| "sf_brand_list (Suc n) s =
    (case sf_brand s of
       None \<Rightarrow> None
     | Some (b, r) \<Rightarrow>
         (if r = [] then Some [b]
          else case strip_prefix comma_sep r of
                 None \<Rightarrow> None
               | Some r' \<Rightarrow> map_option (\<lambda>bs. b # bs) (sf_brand_list n r')))"

definition clean_text :: "string \<Rightarrow> bool" where
  "clean_text s \<longleftrightarrow> CHR 0x22 \<notin> set s \<and> CHR 0x5C \<notin> set s"

lemma sf_string_body_clean: "clean_text s \<Longrightarrow> sf_string_body (s @ CHR 0x22 # r) = Some (s, r)"
  by (induction s) (auto simp: clean_text_def)

lemma sf_string_quoted: "clean_text s \<Longrightarrow> sf_string (quoted s @ r) = Some (s, r)"
  by (simp add: sf_string_def quoted_def sf_string_body_clean)

lemma sf_brand_entry:
  "clean_text b \<Longrightarrow> clean_text v \<Longrightarrow> sf_brand (brand_entry b v @ r) = Some ((b, v), r)"
  by (simp add: sf_brand_def brand_entry_def sf_string_quoted del: append_Cons)

lemma sf_brand_list_last:
  "clean_text b \<Longrightarrow> clean_text v \<Longrightarrow> sf_brand_list (Suc n) (brand_entry b v) = Some [(b, v)]"
  using sf_brand_entry[of b v "[]"] by simp

lemma sf_brand_list_more:
  "clean_text b \<Longrightarrow> clean_text v \<Longrightarrow>
   sf_brand_list (Suc n) (brand_entry b v @ comma_sep @ r) =
     map_option (\<lambda>bs. (b, v) # bs) (sf_brand_list n r)"
  by (simp add: sf_brand_entry comma_sep_def)

text \<open>The brands a server reads off a layout, for names and versions without quote or backslash.\<close>

definition brands_at :: "nat \<Rightarrow> string \<Rightarrow> string \<Rightarrow> string \<Rightarrow> (string \<times> string) list" where
  "brands_at pos major brand v =
    (if pos = 0 then [(brand, v), (''Chromium'', major), (''Google Chrome'', major)]
     else if pos = 1 then [(''Chromium'', major), (brand, v), (''Google Chrome'', major)]
     else [(''Chromium'', major), (''Google Chrome'', major), (brand, v)])"

lemma brand_layout_parses:
  assumes "clean_text brand" "clean_text v" "clean_text major"
  shows "sf_brand_list 3 (brand_layout pos major brand v) = Some (brands_at pos major brand v)"
proof -
  have "clean_text ''Chromium''" "clean_text ''Google Chrome''"
    by (simp_all add: clean_text_def)
  with assms show ?thesis
    by (simp add: brand_layout_def brands_at_def sf_brand_list_more sf_brand_list_last
        numeral_3_eq_3 del: sf_brand_list.simps)
qed

section \<open>Visible text\<close>

text \<open>
  The characters a header value may hold when it is built from text: printable ASCII and the tab.
\<close>

definition visible_char :: "char \<Rightarrow> bool" where
  "visible_char c = (let n = (of_char c :: nat) in (32 \<le> n \<and> n < 127) \<or> n = 9)"

definition visible_text :: "string \<Rightarrow> bool" where
  "visible_text s = list_all visible_char s"

lemma visible_text_append [simp]: "visible_text (s @ t) \<longleftrightarrow> visible_text s \<and> visible_text t"
  by (simp add: visible_text_def)

lemma visible_text_quoted [simp]: "visible_text (quoted s) \<longleftrightarrow> visible_text s"
  by (simp add: visible_text_def quoted_def visible_char_def)

lemma visible_brand_layout:
  "visible_text (brand_layout pos major brand v) \<longleftrightarrow>
     visible_text major \<and> visible_text brand \<and> visible_text v"
  by (auto simp: brand_layout_def brand_entry_def comma_sep_def visible_text_def quoted_def
      visible_char_def)

end
