(* ===== verification/Chrome_134.thy ===== *)
theory Chrome_134 imports Quik_Profile begin

text \<open>
  \<open>src/profile/chrome_134.rs\<close>: the Chrome 134 constants, the shared TLS and HTTP/2 parts and
  one constructor per platform. The random brand string draws three indices (brand, version, position);
  an index outside its table would panic, so the constructors are option-valued.
\<close>

section \<open>Constants\<close>

definition JA3_HASH_134 :: string where
  "JA3_HASH_134 = ''845db3b4e398789bdeb5b15594360a29''"

definition JA3N_HASH_134 :: string where
  "JA3N_HASH_134 = ''8e19337e7524d2573be54efb2b0784c9''"

definition JA4_134 :: string where
  "JA4_134 = ''t13d1516h2_8daaf6152771_d8a2da3f94cd''"

definition AKAMAI_FINGERPRINT_134 :: string where
  "AKAMAI_FINGERPRINT_134 = ''1:65536;2:0;4:6291456;6:262144|15663105|0|m,a,s,p''"

definition ALPS_EXTRA_SETTINGS_WIN_LINUX_134 :: "(u16 \<times> u32) list" where
  "ALPS_EXTRA_SETTINGS_WIN_LINUX_134 = [(0x7A9A, 0xE3590A45)]"

definition ALPS_EXTRA_SETTINGS_MACOS_134 :: "(u16 \<times> u32) list" where
  "ALPS_EXTRA_SETTINGS_MACOS_134 = []"

definition CIPHER_LIST_134 :: string where
  "CIPHER_LIST_134 =
     ''TLS_AES_128_GCM_SHA256:'' @
     ''TLS_AES_256_GCM_SHA384:'' @
     ''TLS_CHACHA20_POLY1305_SHA256:'' @
     ''ECDHE-ECDSA-AES128-GCM-SHA256:'' @
     ''ECDHE-RSA-AES128-GCM-SHA256:'' @
     ''ECDHE-ECDSA-AES256-GCM-SHA384:'' @
     ''ECDHE-RSA-AES256-GCM-SHA384:'' @
     ''ECDHE-ECDSA-CHACHA20-POLY1305:'' @
     ''ECDHE-RSA-CHACHA20-POLY1305:'' @
     ''ECDHE-RSA-AES128-SHA:'' @
     ''ECDHE-RSA-AES256-SHA:'' @
     ''AES128-GCM-SHA256:'' @
     ''AES256-GCM-SHA384:'' @
     ''AES128-SHA:'' @
     ''AES256-SHA''"

definition CURVES_134 :: "u16 list" where
  "CURVES_134 = [4588, 29, 23, 24]"

definition ALPN_PROTOCOLS_134 :: "string list" where
  "ALPN_PROTOCOLS_134 = [''h2'', ''http/1.1'']"

definition SIGALGS_134 :: "u16 list" where
  "SIGALGS_134 = [0x0403, 0x0804, 0x0401, 0x0503, 0x0805, 0x0501, 0x0806, 0x0601]"

definition PSEUDO_ORDER_134 :: "pseudo_order list" where
  "PSEUDO_ORDER_134 = [Method, Authority, Scheme, Path]"

section \<open>Shared layers\<close>

definition base_tls_134 :: "(u16 \<times> u32) list \<Rightarrow> tls_profile" where
  "base_tls_134 alps_extra = \<lparr>
     tls_min_version = TLS1_2,
     tls_max_version = TLS1_3,
     tls_cipher_list = CIPHER_LIST_134,
     tls_curves = CURVES_134,
     tls_grease_enabled = True,
     tls_permute_extensions = True,
     tls_enable_ech_grease = True,
     tls_alps_enabled = True,
     tls_alps_use_new_codepoint = True,
     tls_alps_extra_settings = alps_extra,
     tls_compress_certificate = True,
     tls_session_ticket_enabled = True,
     tls_alpn_protocols = ALPN_PROTOCOLS_134,
     tls_sigalgs = SIGALGS_134,
     tls_verify_peer = True \<rparr>"

definition base_h2_134 :: http2_profile where
  "base_h2_134 = \<lparr>
     h2p_settings = \<lparr>
       sf_header_table_size = 65536,
       sf_enable_push = False,
       sf_initial_window_size = 6291456,
       sf_max_header_list_size = 262144 \<rparr>,
     h2p_initial_connection_window_size = 15728640,
     h2p_pseudo_order = PSEUDO_ORDER_134,
     h2p_headers_priority = \<lparr> hpr_dep = 0, hpr_weight = 255, hpr_exclusive = True \<rparr> \<rparr>"

section \<open>The random brand string\<close>

definition grease_brands_134 :: "string list" where
  "grease_brands_134 =
     [''Not:A-Brand'', ''Not(A:Brand'', ''Not/A)Brand'', ''Not A;Brand'', ''Not;A=Brand'']"

definition grease_versions_134 :: "string list" where
  "grease_versions_134 = [''8'', ''24'', ''99'']"

definition generate_sec_ch_ua_134 :: "'g rng \<Rightarrow> 'g \<Rightarrow> (string \<times> 'g) option" where
  "generate_sec_ch_ua_134 r g = do {
     (brand, g1) \<leftarrow> pick r grease_brands_134 g;
     (v, g2) \<leftarrow> pick r grease_versions_134 g1;
     (pos, g3) \<leftarrow> Some (r 3 g2);
     Some (brand_layout pos ''134'' brand v, g3) }"

section \<open>Platform constructors\<close>

definition chrome_134_macos_arm :: "'g rng \<Rightarrow> 'g \<Rightarrow> (chrome_profile \<times> 'g) option" where
  "chrome_134_macos_arm r g = do {
     (ua, g') \<leftarrow> generate_sec_ch_ua_134 r g;
     Some (\<lparr>
       cp_version = 134,
       cp_platform = MacOsArm,
       cp_tls = base_tls_134 ALPS_EXTRA_SETTINGS_MACOS_134,
       cp_h2 = base_h2_134,
       cp_headers = \<lparr>
         hdr_user_agent = ''Mozilla/5.0 (Macintosh; Intel Mac OS X 10_15_7) AppleWebKit/537.36 (KHTML, like Gecko) '' @
           ''Chrome/134.0.6998.35 Safari/537.36'',
         hdr_sec_ch_ua = ua,
         hdr_sec_ch_ua_platform = quoted ''macOS'',
         hdr_sec_ch_ua_platform_version = quoted ''15.0.0'',
         hdr_include_priority_header = True,
         hdr_zstd_encoding = True,
         hdr_accept_language = ''en-US,en;q=0.9'' \<rparr> \<rparr>, g') }"

definition chrome_134_windows_x64 :: "'g rng \<Rightarrow> 'g \<Rightarrow> (chrome_profile \<times> 'g) option" where
  "chrome_134_windows_x64 r g = do {
     (ua, g') \<leftarrow> generate_sec_ch_ua_134 r g;
     Some (\<lparr>
       cp_version = 134,
       cp_platform = WindowsX64,
       cp_tls = base_tls_134 ALPS_EXTRA_SETTINGS_WIN_LINUX_134,
       cp_h2 = base_h2_134,
       cp_headers = \<lparr>
         hdr_user_agent = ''Mozilla/5.0 (Windows NT 10.0; Win64; x64) AppleWebKit/537.36 (KHTML, like Gecko) '' @
           ''Chrome/134.0.6998.35 Safari/537.36'',
         hdr_sec_ch_ua = ua,
         hdr_sec_ch_ua_platform = quoted ''Windows'',
         hdr_sec_ch_ua_platform_version = quoted ''15.0.0'',
         hdr_include_priority_header = True,
         hdr_zstd_encoding = True,
         hdr_accept_language = ''en-US,en;q=0.9'' \<rparr> \<rparr>, g') }"

definition chrome_134_linux_x64 :: "'g rng \<Rightarrow> 'g \<Rightarrow> (chrome_profile \<times> 'g) option" where
  "chrome_134_linux_x64 r g = do {
     (ua, g') \<leftarrow> generate_sec_ch_ua_134 r g;
     Some (\<lparr>
       cp_version = 134,
       cp_platform = LinuxX64,
       cp_tls = base_tls_134 ALPS_EXTRA_SETTINGS_WIN_LINUX_134,
       cp_h2 = base_h2_134,
       cp_headers = \<lparr>
         hdr_user_agent = ''Mozilla/5.0 (X11; Linux x86_64) AppleWebKit/537.36 (KHTML, like Gecko) '' @
           ''Chrome/134.0.6998.35 Safari/537.36'',
         hdr_sec_ch_ua = ua,
         hdr_sec_ch_ua_platform = quoted ''Linux'',
         hdr_sec_ch_ua_platform_version = quoted ''0.0.0'',
         hdr_include_priority_header = True,
         hdr_zstd_encoding = True,
         hdr_accept_language = ''en-US,en;q=0.9'' \<rparr> \<rparr>, g') }"

fun profile_134 :: "platform \<Rightarrow> 'g rng \<Rightarrow> 'g \<Rightarrow> (chrome_profile \<times> 'g) option" where
  "profile_134 MacOsArm r g = chrome_134_macos_arm r g"
| "profile_134 MacOsX86 r g = chrome_134_macos_arm r g"
| "profile_134 WindowsX64 r g = chrome_134_windows_x64 r g"
| "profile_134 LinuxX64 r g = chrome_134_linux_x64 r g"

definition profile_auto_134 :: "target_os \<Rightarrow> 'g rng \<Rightarrow> 'g \<Rightarrow> (chrome_profile \<times> 'g) option" where
  "profile_auto_134 os r g =
    (if os = TargetMacos then chrome_134_macos_arm r g
     else if os = TargetWindows then chrome_134_windows_x64 r g
     else chrome_134_linux_x64 r g)"

section \<open>Facts of this module\<close>

lemmas chrome_134_defs =
  chrome_134_macos_arm_def chrome_134_windows_x64_def chrome_134_linux_x64_def

lemma generate_sec_ch_ua_134_Some:
  assumes "rng_ok r"
  obtains brand v pos g' where
    "generate_sec_ch_ua_134 r g = Some (brand_layout pos ''134'' brand v, g')"
    "brand \<in> set grease_brands_134" "v \<in> set grease_versions_134" "pos < 3"

proof -
  obtain brand g1 where 1: "pick r grease_brands_134 g = Some (brand, g1)" "brand \<in> set grease_brands_134"
    using assms by (rule pick_Some[of r grease_brands_134 g]) (simp add: grease_brands_134_def)
  obtain v g2 where 2: "pick r grease_versions_134 g1 = Some (v, g2)" "v \<in> set grease_versions_134"
    using assms by (rule pick_Some[of r grease_versions_134 g1]) (simp add: grease_versions_134_def)
  obtain pos g3 where 3: "r 3 g2 = (pos, g3)" by fastforce
  have "pos < 3" using rng_okD[OF assms 3] by simp
  with 1 2 3 show ?thesis
    by (intro that[of pos brand v g3]) (simp_all add: generate_sec_ch_ua_134_def)
qed

end
