(* ===== verification/Chrome_148.thy ===== *)
theory Chrome_148 imports Quik_Profile begin

text \<open>
  \<open>src/profile/chrome_148.rs\<close>: the Chrome 148 constants, the shared TLS and HTTP/2 parts and
  one constructor per platform. The random brand string draws two indices (brand, position);
  an index outside its table would panic, so the constructors are option-valued.
\<close>

section \<open>Constants\<close>

definition JA3_HASH_148 :: string where
  "JA3_HASH_148 = ''51c8a5ff78d815668581664c5789d09c''"

definition JA4_148 :: string where
  "JA4_148 = ''t13d1516h2_8daaf6152771_d8a2da3f94cd''"

definition AKAMAI_FINGERPRINT_148 :: string where
  "AKAMAI_FINGERPRINT_148 = ''1:65536;2:0;4:6291456;6:262144|15663105|0|m,a,s,p''"

definition ALPS_EXTRA_SETTINGS_148 :: "(u16 \<times> u32) list" where
  "ALPS_EXTRA_SETTINGS_148 = []"

definition CIPHER_LIST_148 :: string where
  "CIPHER_LIST_148 =
     ''TLS_AES_128_GCM_SHA256:'' @
     ''TLS_AES_256_GCM_SHA384:'' @
     ''TLS_CHACHA20_POLY1305_SHA256:'' @
     ''ECDHE-ECDSA-AES128-GCM-SHA256:'' @
     ''ECDHE-RSA-AES128-GCM-SHA256:'' @
     ''ECDHE-ECDSA-AES256-GCM-SHA384:'' @
     ''ECDHE-RSA-AES256-GCM-SHA384:'' @
     ''ECDHE-ECDSA-CHACHA20-POLY1305:'' @
     ''ECDHE-RSA-CHACHA20-POLY1305:'' @
     ''ECDHE-RSA-AES128-SHA:'' @
     ''ECDHE-RSA-AES256-SHA:'' @
     ''AES128-GCM-SHA256:'' @
     ''AES256-GCM-SHA384:'' @
     ''AES128-SHA:'' @
     ''AES256-SHA''"

definition CURVES_148 :: "u16 list" where
  "CURVES_148 = [4588, 29, 23, 24]"

definition ALPN_PROTOCOLS_148 :: "string list" where
  "ALPN_PROTOCOLS_148 = [''h2'', ''http/1.1'']"

definition SIGALGS_148 :: "u16 list" where
  "SIGALGS_148 = [0x0403, 0x0804, 0x0401, 0x0503, 0x0805, 0x0501, 0x0806, 0x0601, 0x0201]"

definition PSEUDO_ORDER_148 :: "pseudo_order list" where
  "PSEUDO_ORDER_148 = [Method, Authority, Scheme, Path]"

section \<open>Shared layers\<close>

definition base_tls_148 :: tls_profile where
  "base_tls_148 = \<lparr>
     tls_min_version = TLS1_2,
     tls_max_version = TLS1_3,
     tls_cipher_list = CIPHER_LIST_148,
     tls_curves = CURVES_148,
     tls_grease_enabled = True,
     tls_permute_extensions = True,
     tls_enable_ech_grease = True,
     tls_alps_enabled = True,
     tls_alps_use_new_codepoint = True,
     tls_alps_extra_settings = ALPS_EXTRA_SETTINGS_148,
     tls_compress_certificate = True,
     tls_session_ticket_enabled = True,
     tls_alpn_protocols = ALPN_PROTOCOLS_148,
     tls_sigalgs = SIGALGS_148,
     tls_verify_peer = True \<rparr>"

definition base_h2_148 :: http2_profile where
  "base_h2_148 = \<lparr>
     h2p_settings = \<lparr>
       sf_header_table_size = 65536,
       sf_enable_push = False,
       sf_initial_window_size = 6291456,
       sf_max_header_list_size = 262144 \<rparr>,
     h2p_initial_connection_window_size = 15728640,
     h2p_pseudo_order = PSEUDO_ORDER_148,
     h2p_headers_priority = \<lparr> hpr_dep = 0, hpr_weight = 255, hpr_exclusive = True \<rparr> \<rparr>"

section \<open>The random brand string\<close>

definition grease_brands_148 :: "string list" where
  "grease_brands_148 =
     [''Not.A/Brand'', ''Not.A'' @ [CHR 0x5C] @ ''Brand'', ''Not.A)Brand'', ''Not.A;Brand'', ''Not.A=Brand'']"

definition grease_versions_148 :: "string list" where
  "grease_versions_148 = [''8'']"

definition generate_sec_ch_ua_148 :: "'g rng \<Rightarrow> 'g \<Rightarrow> (string \<times> 'g) option" where
  "generate_sec_ch_ua_148 r g = do {
     (brand, g1) \<leftarrow> pick r grease_brands_148 g;
     let v = ''8'';
     (pos, g2) \<leftarrow> Some (r 3 g1);
     Some (brand_layout pos ''148'' brand v, g2) }"

section \<open>Platform constructors\<close>

definition chrome_148_macos_arm :: "'g rng \<Rightarrow> 'g \<Rightarrow> (chrome_profile \<times> 'g) option" where
  "chrome_148_macos_arm r g = do {
     (ua, g') \<leftarrow> generate_sec_ch_ua_148 r g;
     Some (\<lparr>
       cp_version = 148,
       cp_platform = MacOsArm,
       cp_tls = base_tls_148,
       cp_h2 = base_h2_148,
       cp_headers = \<lparr>
         hdr_user_agent = ''Mozilla/5.0 (Macintosh; Intel Mac OS X 10_15_7) AppleWebKit/537.36 (KHTML, like Gecko) '' @
           ''Chrome/148.0.0.0 Safari/537.36'',
         hdr_sec_ch_ua = ua,
         hdr_sec_ch_ua_platform = quoted ''macOS'',
         hdr_sec_ch_ua_platform_version = quoted ''14.0.0'',
         hdr_include_priority_header = True,
         hdr_zstd_encoding = True,
         hdr_accept_language = ''en-US,en;q=0.9'' \<rparr> \<rparr>, g') }"

definition chrome_148_windows_x64 :: "'g rng \<Rightarrow> 'g \<Rightarrow> (chrome_profile \<times> 'g) option" where
  "chrome_148_windows_x64 r g = do {
     (ua, g') \<leftarrow> generate_sec_ch_ua_148 r g;
     Some (\<lparr>
       cp_version = 148,
       cp_platform = WindowsX64,
       cp_tls = base_tls_148,
       cp_h2 = base_h2_148,
       cp_headers = \<lparr>
         hdr_user_agent = ''Mozilla/5.0 (Windows NT 10.0; Win64; x64) AppleWebKit/537.36 (KHTML, like Gecko) '' @
           ''Chrome/148.0.0.0 Safari/537.36'',
         hdr_sec_ch_ua = ua,
         hdr_sec_ch_ua_platform = quoted ''Windows'',
         hdr_sec_ch_ua_platform_version = quoted ''13.0.0'',
         hdr_include_priority_header = True,
         hdr_zstd_encoding = True,
         hdr_accept_language = ''en-US,en;q=0.9'' \<rparr> \<rparr>, g') }"

definition chrome_148_linux_x64 :: "'g rng \<Rightarrow> 'g \<Rightarrow> (chrome_profile \<times> 'g) option" where
  "chrome_148_linux_x64 r g = do {
     (ua, g') \<leftarrow> generate_sec_ch_ua_148 r g;
     Some (\<lparr>
       cp_version = 148,
       cp_platform = LinuxX64,
       cp_tls = base_tls_148,
       cp_h2 = base_h2_148,
       cp_headers = \<lparr>
         hdr_user_agent = ''Mozilla/5.0 (X11; Linux x86_64) AppleWebKit/537.36 (KHTML, like Gecko) '' @
           ''Chrome/148.0.0.0 Safari/537.36'',
         hdr_sec_ch_ua = ua,
         hdr_sec_ch_ua_platform = quoted ''Linux'',
         hdr_sec_ch_ua_platform_version = quoted '''',
         hdr_include_priority_header = True,
         hdr_zstd_encoding = True,
         hdr_accept_language = ''en-US,en;q=0.9'' \<rparr> \<rparr>, g') }"

fun profile_148 :: "platform \<Rightarrow> 'g rng \<Rightarrow> 'g \<Rightarrow> (chrome_profile \<times> 'g) option" where
  "profile_148 MacOsArm r g = chrome_148_macos_arm r g"
| "profile_148 MacOsX86 r g = chrome_148_macos_arm r g"
| "profile_148 WindowsX64 r g = chrome_148_windows_x64 r g"
| "profile_148 LinuxX64 r g = chrome_148_linux_x64 r g"

definition profile_auto_148 :: "target_os \<Rightarrow> 'g rng \<Rightarrow> 'g \<Rightarrow> (chrome_profile \<times> 'g) option" where
  "profile_auto_148 os r g =
    (if os = TargetMacos then chrome_148_macos_arm r g
     else if os = TargetWindows then chrome_148_windows_x64 r g
     else chrome_148_linux_x64 r g)"

section \<open>Facts of this module\<close>

lemmas chrome_148_defs =
  chrome_148_macos_arm_def chrome_148_windows_x64_def chrome_148_linux_x64_def

lemma generate_sec_ch_ua_148_Some:
  assumes "rng_ok r"
  obtains brand v pos g' where
    "generate_sec_ch_ua_148 r g = Some (brand_layout pos ''148'' brand v, g')"
    "brand \<in> set grease_brands_148" "v \<in> set grease_versions_148" "pos < 3"

proof -
  obtain brand g1 where 1: "pick r grease_brands_148 g = Some (brand, g1)" "brand \<in> set grease_brands_148"
    using assms by (rule pick_Some[of r grease_brands_148 g]) (simp add: grease_brands_148_def)
  obtain pos g2 where 2: "r 3 g1 = (pos, g2)" by fastforce
  have "pos < 3" using rng_okD[OF assms 2] by simp
  with 1 2 show ?thesis
    by (intro that[of pos brand "''8''" g2])
      (simp_all add: generate_sec_ch_ua_148_def grease_versions_148_def)
qed

end
