(* ===== verification/Http2_Handshake.thy ===== *)
theory Http2_Handshake imports Quik_Profile begin

text \<open>
  \<open>src/http2/handshake.rs\<close>: what \<open>configure_builder\<close> tells the HTTP/2 crate's client builder.
  The builder itself is foreign, so the function is modelled by the calls it makes on it, in
  order and with their arguments. The second half states what an observer of the resulting
  handshake computes: the fingerprint string the profile modules publish as a constant.
\<close>

section \<open>The calls\<close>

datatype setting_id = HeaderTableSizeId | EnablePushId | InitialWindowSizeId | MaxHeaderListSizeId

datatype pseudo_id = PseudoMethod | PseudoAuthority | PseudoScheme | PseudoPath

datatype h2_builder_call =
    SettingsOrder "setting_id list"
  | HeaderTableSize u32
  | EnablePush bool
  | InitialWindowSize u32
  | MaxHeaderListSize u32
  | InitialConnectionWindowSize u32
  | HeadersPseudoOrder "pseudo_id list"
  | HeadersStreamDependency u32 u8 bool

fun pseudo_push :: "pseudo_order \<Rightarrow> pseudo_id list \<Rightarrow> pseudo_id list" where
  "pseudo_push Method ids = ids @ [PseudoMethod]"
| "pseudo_push Authority ids = ids @ [PseudoAuthority]"
| "pseudo_push Scheme ids = ids @ [PseudoScheme]"
| "pseudo_push Path ids = ids @ [PseudoPath]"

definition configure_builder :: "http2_profile \<Rightarrow> h2_builder_call list" where
  "configure_builder profile =
    (let s = h2p_settings profile;
         settings_order =
           [HeaderTableSizeId, EnablePushId, InitialWindowSizeId, MaxHeaderListSizeId];
         pseudo = fold pseudo_push (h2p_pseudo_order profile) [];
         prio = h2p_headers_priority profile
     in [SettingsOrder settings_order,
         HeaderTableSize (sf_header_table_size s),
         EnablePush (sf_enable_push s),
         InitialWindowSize (sf_initial_window_size s),
         MaxHeaderListSize (sf_max_header_list_size s),
         InitialConnectionWindowSize (h2p_initial_connection_window_size profile),
         HeadersPseudoOrder pseudo,
         HeadersStreamDependency 0 (hpr_weight prio) (hpr_exclusive prio)])"

section \<open>The fingerprint of a handshake\<close>

text \<open>
  An observer sees a SETTINGS frame (identifiers in the configured order, each with its value),
  a WINDOW_UPDATE of the connection window above the protocol's initial 65535 bytes, no PRIORITY
  frame (the field \<open>0\<close>), and the pseudo-headers of the first HEADERS frame by their initials.
\<close>

fun setting_number :: "setting_id \<Rightarrow> nat" where
  "setting_number HeaderTableSizeId = 1"
| "setting_number EnablePushId = 2"
| "setting_number InitialWindowSizeId = 4"
| "setting_number MaxHeaderListSizeId = 6"

fun setting_of_call :: "h2_builder_call \<Rightarrow> (setting_id \<times> nat) option" where
  "setting_of_call (HeaderTableSize v) = Some (HeaderTableSizeId, unat v)"
| "setting_of_call (EnablePush b) = Some (EnablePushId, if b then 1 else 0)"
| "setting_of_call (InitialWindowSize v) = Some (InitialWindowSizeId, unat v)"
| "setting_of_call (MaxHeaderListSize v) = Some (MaxHeaderListSizeId, unat v)"
| "setting_of_call _ = None"

definition setting_values :: "h2_builder_call list \<Rightarrow> (setting_id \<times> nat) list" where
  "setting_values cs = List.map_filter setting_of_call cs"

fun pseudo_initial :: "pseudo_id \<Rightarrow> string" where
  "pseudo_initial PseudoMethod = ''m''"
| "pseudo_initial PseudoAuthority = ''a''"
| "pseudo_initial PseudoScheme = ''s''"
| "pseudo_initial PseudoPath = ''p''"

definition settings_text :: "(setting_id \<times> nat) list \<Rightarrow> setting_id list \<Rightarrow> string" where
  "settings_text vals ids = str_join '';''
     (map (\<lambda>i. show_nat (setting_number i) @ '':'' @
        (case map_of vals i of None \<Rightarrow> [] | Some v \<Rightarrow> show_nat v)) ids)"

fun settings_order_of :: "h2_builder_call list \<Rightarrow> setting_id list" where
  "settings_order_of [] = []"
| "settings_order_of (SettingsOrder ids # cs) = ids"
| "settings_order_of (c # cs) = settings_order_of cs"

fun connection_window_of :: "h2_builder_call list \<Rightarrow> u32" where
  "connection_window_of [] = 65535"
| "connection_window_of (InitialConnectionWindowSize w # cs) = w"
| "connection_window_of (c # cs) = connection_window_of cs"

fun pseudo_order_of :: "h2_builder_call list \<Rightarrow> pseudo_id list" where
  "pseudo_order_of [] = []"
| "pseudo_order_of (HeadersPseudoOrder ids # cs) = ids"
| "pseudo_order_of (c # cs) = pseudo_order_of cs"

definition akamai_fingerprint :: "h2_builder_call list \<Rightarrow> string" where
  "akamai_fingerprint cs =
     settings_text (setting_values cs) (settings_order_of cs) @ ''|'' @
     show_word (connection_window_of cs - 65535) @ ''|0|'' @
     str_join '','' (map pseudo_initial (pseudo_order_of cs))"

section \<open>What the builder is told\<close>

lemma fold_pseudo_push:
  "fold pseudo_push ps ids = ids @ concat (map (\<lambda>p. pseudo_push p []) ps)"
proof (induction ps arbitrary: ids)
  case (Cons p ps)
  then show ?case by (cases p) simp_all
qed simp

lemma configure_builder_settings:
  "settings_order_of (configure_builder p) =
     [HeaderTableSizeId, EnablePushId, InitialWindowSizeId, MaxHeaderListSizeId]"
  "connection_window_of (configure_builder p) = h2p_initial_connection_window_size p"
  "pseudo_order_of (configure_builder p) =
     concat (map (\<lambda>q. pseudo_push q []) (h2p_pseudo_order p))"
  "setting_values (configure_builder p) =
     [(HeaderTableSizeId, unat (sf_header_table_size (h2p_settings p))),
      (EnablePushId, if sf_enable_push (h2p_settings p) then 1 else 0),
      (InitialWindowSizeId, unat (sf_initial_window_size (h2p_settings p))),
      (MaxHeaderListSizeId, unat (sf_max_header_list_size (h2p_settings p)))]"
  by (simp_all add: configure_builder_def Let_def fold_pseudo_push setting_values_def)

text \<open>The fingerprint text, spelled out over the profile's fields.\<close>

lemma akamai_fingerprint_configure:
  "akamai_fingerprint (configure_builder p) =
     ''1:'' @ show_word (sf_header_table_size (h2p_settings p)) @
     '';2:'' @ (if sf_enable_push (h2p_settings p) then ''1'' else ''0'') @
     '';4:'' @ show_word (sf_initial_window_size (h2p_settings p)) @
     '';6:'' @ show_word (sf_max_header_list_size (h2p_settings p)) @
     ''|'' @ show_word (h2p_initial_connection_window_size p - 65535) @ ''|0|'' @
     str_join '','' (map pseudo_initial (concat (map (\<lambda>q. pseudo_push q []) (h2p_pseudo_order p))))"
  by (simp add: akamai_fingerprint_def configure_builder_settings settings_text_def
      show_word_def show_nat.simps)

end
