(* ===== verification/Profile_Family.thy ===== *)
theory Profile_Family imports Chrome_134 Chrome_147 Chrome_148 Http2_Handshake begin

text \<open>
  The three constructor modules of \<open>src/profile\<close> offer one interface: a profile for a platform
  and the profile of the host. The locale states the contract the rest of the crate relies on;
  each module is an interpretation of it.
\<close>

section \<open>The contract of a constructor module\<close>

definition sec_ch_ua_form ::
  "u32 \<Rightarrow> string list \<Rightarrow> string list \<Rightarrow> string \<Rightarrow> bool" where
  "sec_ch_ua_form major brands versions s \<longleftrightarrow>
     (\<exists>b \<in> set brands. \<exists>v \<in> set versions. \<exists>pos < 3. s = brand_layout pos (show_word major) b v)"

fun host_platform :: "target_os \<Rightarrow> platform" where
  "host_platform TargetMacos = MacOsArm"
| "host_platform TargetWindows = WindowsX64"
| "host_platform TargetOther = LinuxX64"

fun persona_of :: "platform \<Rightarrow> platform" where
  "persona_of MacOsX86 = MacOsArm"
| "persona_of p = p"

locale chrome_family =
  fixes make :: "platform \<Rightarrow> 'g rng \<Rightarrow> 'g \<Rightarrow> (chrome_profile \<times> 'g) option"
    and auto_profile :: "target_os \<Rightarrow> 'g rng \<Rightarrow> 'g \<Rightarrow> (chrome_profile \<times> 'g) option"
    and major :: u32
    and brands :: "string list"
    and versions :: "string list"
    and base :: http2_profile
    and akamai :: string
  assumes make_some: "rng_ok r \<Longrightarrow> \<exists>p g'. make pf r g = Some (p, g')"
    and make_shape: "rng_ok r \<Longrightarrow> make pf r g = Some (p, g') \<Longrightarrow>
      cp_version p = major \<and> cp_platform p = persona_of pf \<and> cp_h2 p = base \<and>
      tls_verify_peer (cp_tls p) \<and> visible_text (hdr_user_agent (cp_headers p)) \<and>
      sec_ch_ua_form major brands versions (hdr_sec_ch_ua (cp_headers p))"
    and auto_make: "auto_profile os r g = make (host_platform os) r g"
    and base_akamai: "akamai_fingerprint (configure_builder base) = akamai"
    and texts: "list_all visible_text brands" "list_all visible_text versions"
      "list_all clean_text versions" "visible_text (show_word major)" "clean_text (show_word major)"
begin

lemma profile_total: "rng_ok r \<Longrightarrow> \<exists>p g'. make pf r g = Some (p, g') \<and> cp_version p = major"
  using make_some make_shape by blast

lemma profile_akamai:
  assumes "rng_ok r" "make pf r g = Some (p, g')"
  shows "akamai_fingerprint (configure_builder (cp_h2 p)) = akamai"
  using make_shape[OF assms] base_akamai by simp

lemma profile_brands_visible:
  assumes "rng_ok r" "make pf r g = Some (p, g')"
  shows "visible_text (hdr_sec_ch_ua (cp_headers p))"
  using make_shape[OF assms] texts
  by (auto simp: sec_ch_ua_form_def visible_brand_layout list_all_iff)

text \<open>The list a server reads is well formed when the GREASE brand needs no escape.\<close>

lemma profile_brands_parse:
  assumes "rng_ok r" "make pf r g = Some (p, g')"
    and "list_all clean_text brands"
  shows "\<exists>b \<in> set brands. \<exists>v \<in> set versions. \<exists>pos < 3.
    sf_brand_list 3 (hdr_sec_ch_ua (cp_headers p)) = Some (brands_at pos (show_word major) b v)"
proof -
  obtain b v pos where "b \<in> set brands" "v \<in> set versions" "pos < (3 :: nat)"
    "hdr_sec_ch_ua (cp_headers p) = brand_layout pos (show_word major) b v"
    using make_shape[OF assms(1,2)] by (auto simp: sec_ch_ua_form_def)
  moreover from this assms(3) texts have "clean_text b" "clean_text v"
    by (auto simp: list_all_iff)
  ultimately show ?thesis
    using brand_layout_parses texts(5) by metis
qed

end

section \<open>The three modules\<close>

lemma sec_ch_ua_formI:
  "b \<in> set bs \<Longrightarrow> v \<in> set vs \<Longrightarrow> pos < 3 \<Longrightarrow> m = show_word major \<Longrightarrow>
   sec_ch_ua_form major bs vs (brand_layout pos m b v)"
  by (auto simp: sec_ch_ua_form_def)

lemma show_majors:
  "show_word (134 :: u32) = ''134''" "show_word (147 :: u32) = ''147''"
  "show_word (148 :: u32) = ''148''"
  by (simp_all add: show_word_def show_nat.simps)

lemma base_h2_same: "base_h2_147 = base_h2_134" "base_h2_148 = base_h2_134"
  by (simp_all add: base_h2_134_def base_h2_147_def base_h2_148_def
      PSEUDO_ORDER_134_def PSEUDO_ORDER_147_def PSEUDO_ORDER_148_def)

lemma akamai_base_h2_134: "akamai_fingerprint (configure_builder base_h2_134) = AKAMAI_FINGERPRINT_134"
  by (simp add: akamai_fingerprint_configure base_h2_134_def PSEUDO_ORDER_134_def
      AKAMAI_FINGERPRINT_134_def show_word_def show_nat.simps)

lemma akamai_base_h2_later:
  "akamai_fingerprint (configure_builder base_h2_147) = AKAMAI_FINGERPRINT_147"
  "akamai_fingerprint (configure_builder base_h2_148) = AKAMAI_FINGERPRINT_148"
  by (simp_all add: base_h2_same akamai_base_h2_134 AKAMAI_FINGERPRINT_134_def
      AKAMAI_FINGERPRINT_147_def AKAMAI_FINGERPRINT_148_def)

interpretation c134: chrome_family profile_134 profile_auto_134 134 grease_brands_134
  grease_versions_134 base_h2_134 AKAMAI_FINGERPRINT_134
proof unfold_locales
  fix r :: "'a rng" and g pf
  assume r: "rng_ok r"
  obtain b v pos g' where gen: "generate_sec_ch_ua_134 r g = Some (brand_layout pos ''134'' b v, g')"
    "b \<in> set grease_brands_134" "v \<in> set grease_versions_134" "pos < 3"
    using r by (rule generate_sec_ch_ua_134_Some)
  show "\<exists>p g'. profile_134 pf r g = Some (p, g')"
    by (cases pf) (simp_all add: chrome_134_defs gen(1))
  fix p g1
  assume "profile_134 pf r g = Some (p, g1)"
  then show "cp_version p = 134 \<and> cp_platform p = persona_of pf \<and> cp_h2 p = base_h2_134 \<and>
      tls_verify_peer (cp_tls p) \<and> visible_text (hdr_user_agent (cp_headers p)) \<and>
      sec_ch_ua_form 134 grease_brands_134 grease_versions_134 (hdr_sec_ch_ua (cp_headers p))"
    using gen by (cases pf) (auto simp: chrome_134_defs base_tls_134_def show_majors
        visible_text_def visible_char_def intro!: sec_ch_ua_formI)
next
  fix os and r :: "'a rng" and g
  show "profile_auto_134 os r g = profile_134 (host_platform os) r g"
    by (cases os) (simp_all add: profile_auto_134_def)
qed (simp_all add: akamai_base_h2_134 grease_brands_134_def grease_versions_134_def show_majors
    visible_text_def visible_char_def clean_text_def)

interpretation c147: chrome_family profile_147 profile_auto_147 147 grease_brands_147
  grease_versions_147 base_h2_147 AKAMAI_FINGERPRINT_147
proof unfold_locales
  fix r :: "'a rng" and g pf
  assume r: "rng_ok r"
  obtain b v pos g' where gen: "generate_sec_ch_ua_147 r g = Some (brand_layout pos ''147'' b v, g')"
    "b \<in> set grease_brands_147" "v \<in> set grease_versions_147" "pos < 3"
    using r by (rule generate_sec_ch_ua_147_Some)
  show "\<exists>p g'. profile_147 pf r g = Some (p, g')"
    by (cases pf) (simp_all add: chrome_147_defs gen(1))
  fix p g1
  assume "profile_147 pf r g = Some (p, g1)"
  then show "cp_version p = 147 \<and> cp_platform p = persona_of pf \<and> cp_h2 p = base_h2_147 \<and>
      tls_verify_peer (cp_tls p) \<and> visible_text (hdr_user_agent (cp_headers p)) \<and>
      sec_ch_ua_form 147 grease_brands_147 grease_versions_147 (hdr_sec_ch_ua (cp_headers p))"
    using gen by (cases pf) (auto simp: chrome_147_defs base_tls_147_def show_majors
        visible_text_def visible_char_def intro!: sec_ch_ua_formI)
next
  fix os and r :: "'a rng" and g
  show "profile_auto_147 os r g = profile_147 (host_platform os) r g"
    by (cases os) (simp_all add: profile_auto_147_def)
qed (simp_all add: akamai_base_h2_later grease_brands_147_def grease_versions_147_def show_majors
    visible_text_def visible_char_def clean_text_def)

interpretation c148: chrome_family profile_148 profile_auto_148 148 grease_brands_148
  grease_versions_148 base_h2_148 AKAMAI_FINGERPRINT_148
proof unfold_locales
  fix r :: "'a rng" and g pf
  assume r: "rng_ok r"
  obtain b v pos g' where gen: "generate_sec_ch_ua_148 r g = Some (brand_layout pos ''148'' b v, g')"
    "b \<in> set grease_brands_148" "v \<in> set grease_versions_148" "pos < 3"
    using r by (rule generate_sec_ch_ua_148_Some)
  show "\<exists>p g'. profile_148 pf r g = Some (p, g')"
    by (cases pf) (simp_all add: chrome_148_defs gen(1))
  fix p g1
  assume "profile_148 pf r g = Some (p, g1)"
  then show "cp_version p = 148 \<and> cp_platform p = persona_of pf \<and> cp_h2 p = base_h2_148 \<and>
      tls_verify_peer (cp_tls p) \<and> visible_text (hdr_user_agent (cp_headers p)) \<and>
      sec_ch_ua_form 148 grease_brands_148 grease_versions_148 (hdr_sec_ch_ua (cp_headers p))"
    using gen by (cases pf) (auto simp: chrome_148_defs base_tls_148_def show_majors
        visible_text_def visible_char_def intro!: sec_ch_ua_formI)
next
  fix os and r :: "'a rng" and g
  show "profile_auto_148 os r g = profile_148 (host_platform os) r g"
    by (cases os) (simp_all add: profile_auto_148_def)
qed (simp_all add: akamai_base_h2_later grease_brands_148_def grease_versions_148_def show_majors
    visible_text_def visible_char_def clean_text_def)

section \<open>Properties of the profiles\<close>

text \<open>
  Building a profile never panics: whatever indices the random source draws from
  the ranges it is asked for, every module returns a profile for every platform and every host,
  with certificate verification switched on and the version of the module. The macOS x86 platform
  is served by the ARM persona.
\<close>

theorem profiles_total:
  assumes "rng_ok r"
  shows "(\<exists>p g'. profile_134 pf r g = Some (p, g') \<and> cp_version p = 134 \<and>
           cp_platform p = persona_of pf \<and> tls_verify_peer (cp_tls p)) \<and>
         (\<exists>p g'. profile_147 pf r g = Some (p, g') \<and> cp_version p = 147 \<and>
           cp_platform p = persona_of pf \<and> tls_verify_peer (cp_tls p)) \<and>
         (\<exists>p g'. profile_auto_148 os r g = Some (p, g') \<and> cp_version p = 148 \<and>
           cp_platform p = host_platform os \<and> tls_verify_peer (cp_tls p))"
proof (intro conjI)
  show "\<exists>p g'. profile_134 pf r g = Some (p, g') \<and> cp_version p = 134 \<and>
           cp_platform p = persona_of pf \<and> tls_verify_peer (cp_tls p)"
    using c134.make_some[OF assms] c134.make_shape[OF assms] by metis
  show "\<exists>p g'. profile_147 pf r g = Some (p, g') \<and> cp_version p = 147 \<and>
           cp_platform p = persona_of pf \<and> tls_verify_peer (cp_tls p)"
    using c147.make_some[OF assms] c147.make_shape[OF assms] by metis
  have "persona_of (host_platform os) = host_platform os" by (cases os) simp_all
  then show "\<exists>p g'. profile_auto_148 os r g = Some (p, g') \<and> cp_version p = 148 \<and>
           cp_platform p = host_platform os \<and> tls_verify_peer (cp_tls p)"
    using c148.make_some[OF assms] c148.make_shape[OF assms] c148.auto_make by metis
qed

theorem profiles_total_witness:
  "rng_ok replay_rng \<and>
   (\<exists>p g'. profile_134 LinuxX64 replay_rng [1, 2, 0] = Some (p, g') \<and> cp_version p = 134)"
  using profiles_total[OF replay_rng_ok, of LinuxX64 "[1, 2, 0]" TargetMacos]
  by (auto simp: replay_rng_ok)

text \<open>
  C36 (equivalence). The handshake each profile configures is the one its module publishes: the
  fingerprint an observer computes from the calls of \<open>configure_builder\<close> is the module's
  \<open>AKAMAI_FINGERPRINT\<close> constant.
\<close>

theorem profile_handshake_matches_constant:
  assumes "rng_ok r"
  shows "(profile_134 pf r g = Some (p, g') \<longrightarrow>
            akamai_fingerprint (configure_builder (cp_h2 p)) = AKAMAI_FINGERPRINT_134) \<and>
         (profile_147 pf r g = Some (p, g') \<longrightarrow>
            akamai_fingerprint (configure_builder (cp_h2 p)) = AKAMAI_FINGERPRINT_147) \<and>
         (profile_148 pf r g = Some (p, g') \<longrightarrow>
            akamai_fingerprint (configure_builder (cp_h2 p)) = AKAMAI_FINGERPRINT_148)"
  using c134.profile_akamai[OF assms] c147.profile_akamai[OF assms] c148.profile_akamai[OF assms]
  by blast

theorem profile_handshake_matches_constant_witness:
  "\<exists>p g'. profile_148 WindowsX64 replay_rng [0, 1] = Some (p, g') \<and>
     akamai_fingerprint (configure_builder (cp_h2 p)) = AKAMAI_FINGERPRINT_148"
  using profile_handshake_matches_constant[OF replay_rng_ok, of WindowsX64 "[0, 1]"]
    c148.make_some[OF replay_rng_ok] by blast

text \<open>
  The brands of the Chrome 134 module need no escaping; the second brand of the later modules
  holds a backslash, which the format string copies into the quotes unescaped.
\<close>

lemma grease_brands_134_clean: "list_all clean_text grease_brands_134"
  by (simp add: grease_brands_134_def clean_text_def)

lemma grease_brands_later:
  "grease_brands_148 = grease_brands_147"
  "i < 5 \<Longrightarrow> clean_text (grease_brands_148 ! i) \<longleftrightarrow> i \<noteq> 1"
  "length grease_brands_148 = 5"
  "grease_brands_148 ! 1 = ''Not.A'' @ [CHR 0x5C] @ ''Brand''"
  by (auto simp: grease_brands_147_def grease_brands_148_def clean_text_def numeral_eq_Suc less_Suc_eq)

lemma escape_rejected:
  "sf_brand_list 3 (brand_layout 0 ''148'' (''Not.A'' @ [CHR 0x5C] @ ''Brand'') ''8'') = None"
  "sf_brand_list 3 (brand_layout 1 ''148'' (''Not.A'' @ [CHR 0x5C] @ ''Brand'') ''8'') = None"
  "sf_brand_list 3 (brand_layout 2 ''148'' (''Not.A'' @ [CHR 0x5C] @ ''Brand'') ''8'') = None"
  by code_simp+

lemma generate_148_cases:
  assumes "rng_ok r"
  shows "\<exists>pos < 3. \<exists>g'. fst (r 5 g) < 5 \<and>
    generate_sec_ch_ua_148 r g = Some (brand_layout pos ''148'' (grease_brands_148 ! fst (r 5 g)) ''8'', g')"
proof -
  obtain i g1 where i: "r 5 g = (i, g1)" by fastforce
  obtain pos g2 where p: "r 3 g1 = (pos, g2)" by fastforce
  have "i < 5" "pos < 3" using rng_okD[OF assms i] rng_okD[OF assms p] by simp_all
  with i p show ?thesis
    by (auto simp: generate_sec_ch_ua_148_def pick_def grease_brands_later(3) nth_opt_eq)
qed

text \<open>
  What a server reads off the brand list of a Chrome 134 profile: three entries,
  the two real brands with the profile's major version in their fixed order, the GREASE entry
  before, between or after them.
\<close>

theorem brand_list_134_reads_back:
  assumes "rng_ok r" and "profile_134 pf r g = Some (p, g')"
  shows "\<exists>b \<in> set grease_brands_134. \<exists>v \<in> set grease_versions_134. \<exists>pos < 3.
    sf_brand_list 3 (hdr_sec_ch_ua (cp_headers p)) = Some (brands_at pos ''134'' b v)"
  using c134.profile_brands_parse[OF assms grease_brands_134_clean] by (simp add: show_majors)

theorem brand_list_134_reads_back_witness:
  "\<exists>p g'. profile_134 MacOsX86 replay_rng [4, 1, 2] = Some (p, g') \<and>
    (\<exists>b \<in> set grease_brands_134. \<exists>v \<in> set grease_versions_134. \<exists>pos < 3.
       sf_brand_list 3 (hdr_sec_ch_ua (cp_headers p)) = Some (brands_at pos ''134'' b v))"
  using c134.make_some[OF replay_rng_ok] brand_list_134_reads_back[OF replay_rng_ok] by blast

text \<open>
  C39 (error). The default profile's brand list is not always readable: with the second GREASE
  brand (a fifth of the draws) the header is not a structured-field list, because the brand's
  backslash is copied into the quoted string without an escape. With every other brand it is one.
\<close>

theorem brand_list_148_malformed_iff:
  assumes "rng_ok r"
  shows "\<exists>ua g'. generate_sec_ch_ua_148 r g = Some (ua, g') \<and>
    (sf_brand_list 3 ua = None \<longleftrightarrow> fst (r 5 g) = 1)"
proof -
  obtain pos g' where pos: "pos < 3" and i: "fst (r 5 g) < 5" and
    gen: "generate_sec_ch_ua_148 r g =
      Some (brand_layout pos ''148'' (grease_brands_148 ! fst (r 5 g)) ''8'', g')"
    using generate_148_cases[OF assms, of g] by blast
  have "sf_brand_list 3 (brand_layout pos ''148'' (grease_brands_148 ! fst (r 5 g)) ''8'') = None \<longleftrightarrow>
      fst (r 5 g) = 1"
  proof (cases "fst (r 5 g) = 1")
    case True
    from pos have "pos = 0 \<or> pos = 1 \<or> pos = 2" by linarith
    then have "sf_brand_list 3 (brand_layout pos ''148'' (''Not.A'' @ [CHR 0x5C] @ ''Brand'') ''8'') = None"
      by (elim disjE) (simp_all only: escape_rejected)
    with True show ?thesis by (simp only: grease_brands_later(4)) simp
  next
    case False
    with i have "clean_text (grease_brands_148 ! fst (r 5 g))" by (simp add: grease_brands_later(2))
    then have "sf_brand_list 3 (brand_layout pos ''148'' (grease_brands_148 ! fst (r 5 g)) ''8'') \<noteq> None"
      by (subst brand_layout_parses) (simp_all add: clean_text_def)
    with False show ?thesis by simp
  qed
  then show ?thesis
    by (intro exI conjI) (rule gen, assumption)
qed

theorem brand_list_148_malformed_iff_witness:
  "\<exists>ua g'. generate_sec_ch_ua_148 replay_rng [1, 0] = Some (ua, g') \<and> sf_brand_list 3 ua = None"
  using brand_list_148_malformed_iff[OF replay_rng_ok, of "[1, 0]"]
  by (auto simp: replay_rng_def)

end
