(* ===== verification/Tls_Connector.thy ===== *)
theory Tls_Connector imports Chrome_148 Quik_Error begin

text \<open>
  \<open>src/tls/connector.rs\<close>: \<open>build_connector\<close>, which turns a TLS profile into calls on
  BoringSSL's context builder, and the certificate decompressor. BoringSSL is foreign: its
  builder is an opaque value, a call on it is a value of \<open>ssl_call\<close>, and \<open>ssl_ops\<close> says what
  each call does. The strings and byte strings the source computes for the calls (the curve list,
  the ALPN wire format) are modelled to the byte.
\<close>

section \<open>BoringSSL's builder\<close>

datatype ssl_call =
    SetMinProtoVersion tls_version
  | SetMaxProtoVersion tls_version
  | SetCipherList string
  | SetCurvesList string
  | SetGreaseEnabled bool
  | SetPermuteExtensions bool
  | SetAlpnProtos "byte list"
  | EnableSignedCertTimestamps
  | SetSigningAlgorithmPrefs "u16 list"
  | SetVerifyAlgorithmPrefs "u16 list"
  | AddCertificateCompression
  | SetVerifyNone

text \<open>
  \<open>ssl_new\<close> is \<open>SslConnector::builder\<close>; \<open>ssl_try\<close> a call that returns a \<open>Result\<close> (the error
  is the error stack's text); \<open>ssl_do\<close> a call that cannot fail; \<open>ssl_ffi\<close> a raw C call that
  returns an \<open>int\<close>; \<open>ssl_error_stack\<close> reads the thread's error queue.
\<close>

record 'b ssl_ops =
  ssl_new :: "string + 'b"
  ssl_try :: "ssl_call \<Rightarrow> 'b \<Rightarrow> string + 'b"
  ssl_do :: "ssl_call \<Rightarrow> 'b \<Rightarrow> 'b"
  ssl_ffi :: "ssl_call \<Rightarrow> 'b \<Rightarrow> int \<times> 'b"
  ssl_error_stack :: "'b \<Rightarrow> string"

definition tls_try :: "'b ssl_ops \<Rightarrow> ssl_call \<Rightarrow> 'b \<Rightarrow> quik_error + 'b" where
  "tls_try S c b = map_err TlsBuild (ssl_try S c b)"

definition tls_ffi :: "'b ssl_ops \<Rightarrow> ssl_call \<Rightarrow> 'b \<Rightarrow> quik_error + 'b" where
  "tls_ffi S c b =
    (let (rc, b') = ssl_ffi S c b in
     if rc \<noteq> 1 then Inl (TlsBuild (ssl_error_stack S b')) else Inr b')"

section \<open>The strings the source computes\<close>

definition curve_name :: "u16 \<Rightarrow> string" where
  "curve_name grp =
    (if grp = 4588 then ''X25519MLKEM768''
     else if grp = 29 then ''X25519''
     else if grp = 23 then ''P-256''
     else if grp = 24 then ''P-384''
     else show_word grp)"

text \<open>The loop over \<open>curves.iter().enumerate()\<close>: a colon before every group but the first.\<close>

fun curves_loop :: "nat \<Rightarrow> u16 list \<Rightarrow> string \<Rightarrow> string" where
  "curves_loop i [] curves_str = curves_str"
| "curves_loop i (grp # grps) curves_str =
    (let curves_str = (if i > 0 then curves_str @ '':'' else curves_str)
     in curves_loop (Suc i) grps (curves_str @ curve_name grp))"

text \<open>\<open>alpn.push(proto.len() as u8)\<close>: the length keeps its low eight bits only.\<close>

fun alpn_loop :: "string list \<Rightarrow> byte list \<Rightarrow> byte list" where
  "alpn_loop [] alpn = alpn"
| "alpn_loop (proto # protos) alpn =
    alpn_loop protos (alpn @ [of_nat (length proto)] @ as_bytes proto)"

section \<open>build\_connector\<close>

definition build_connector :: "'b ssl_ops \<Rightarrow> tls_profile \<Rightarrow> quik_error + 'b" where
  "build_connector S profile =
    and_then (map_err TlsBuild (ssl_new S)) (\<lambda>b.
    and_then (tls_try S (SetMinProtoVersion (tls_min_version profile)) b) (\<lambda>b.
    and_then (tls_try S (SetMaxProtoVersion (tls_max_version profile)) b) (\<lambda>b.
    and_then (tls_try S (SetCipherList (tls_cipher_list profile)) b) (\<lambda>b.
    and_then (tls_try S (SetCurvesList (curves_loop 0 (tls_curves profile) [])) b) (\<lambda>b.
    let b = (if tls_grease_enabled profile then ssl_do S (SetGreaseEnabled True) b else b);
        b = (if tls_permute_extensions profile then ssl_do S (SetPermuteExtensions True) b else b)
    in and_then (tls_try S (SetAlpnProtos (alpn_loop (tls_alpn_protocols profile) [])) b) (\<lambda>b.
    let b = ssl_do S EnableSignedCertTimestamps b
    in and_then (tls_ffi S (SetSigningAlgorithmPrefs (tls_sigalgs profile)) b) (\<lambda>b.
    and_then (tls_ffi S (SetVerifyAlgorithmPrefs (tls_sigalgs profile)) b) (\<lambda>b.
    and_then (if tls_compress_certificate profile then tls_try S AddCertificateCompression b
              else Inr b) (\<lambda>b.
    Inr (if \<not> tls_verify_peer profile then ssl_do S SetVerifyNone b else b))))))))))"

section \<open>The plan of a connector\<close>

text \<open>
  What the function promises, without the error plumbing: a list of calls that depends only on
  the profile, run in order until one fails.
\<close>

datatype call_kind = Fallible | Infallible | Ffi

fun kind_of :: "ssl_call \<Rightarrow> call_kind" where
  "kind_of (SetGreaseEnabled b) = Infallible"
| "kind_of (SetPermuteExtensions b) = Infallible"
| "kind_of EnableSignedCertTimestamps = Infallible"
| "kind_of SetVerifyNone = Infallible"
| "kind_of (SetSigningAlgorithmPrefs ps) = Ffi"
| "kind_of (SetVerifyAlgorithmPrefs ps) = Ffi"
| "kind_of c = Fallible"

definition run_call :: "'b ssl_ops \<Rightarrow> ssl_call \<Rightarrow> 'b \<Rightarrow> quik_error + 'b" where
  "run_call S c b =
    (case kind_of c of
       Fallible \<Rightarrow> tls_try S c b
     | Infallible \<Rightarrow> Inr (ssl_do S c b)
     | Ffi \<Rightarrow> tls_ffi S c b)"

fun run_plan :: "'b ssl_ops \<Rightarrow> ssl_call list \<Rightarrow> 'b \<Rightarrow> quik_error + 'b" where
  "run_plan S [] b = Inr b"
| "run_plan S (c # cs) b = and_then (run_call S c b) (run_plan S cs)"

definition connector_plan :: "tls_profile \<Rightarrow> ssl_call list" where
  "connector_plan p =
     [SetMinProtoVersion (tls_min_version p), SetMaxProtoVersion (tls_max_version p),
      SetCipherList (tls_cipher_list p),
      SetCurvesList (str_join '':'' (map curve_name (tls_curves p)))] @
     (if tls_grease_enabled p then [SetGreaseEnabled True] else []) @
     (if tls_permute_extensions p then [SetPermuteExtensions True] else []) @
     [SetAlpnProtos (alpn_loop (tls_alpn_protocols p) []), EnableSignedCertTimestamps,
      SetSigningAlgorithmPrefs (tls_sigalgs p), SetVerifyAlgorithmPrefs (tls_sigalgs p)] @
     (if tls_compress_certificate p then [AddCertificateCompression] else []) @
     (if \<not> tls_verify_peer p then [SetVerifyNone] else [])"

lemma curves_loop_Suc:
  "curves_loop (Suc i) gs s = s @ concat (map (\<lambda>g. '':'' @ curve_name g) gs)"
  by (induction gs arbitrary: i s) (simp_all add: Let_def)

lemma str_join_Cons:
  "str_join sep (x # xs) = x @ concat (map (\<lambda>y. sep @ y) xs)"
  by (induction xs arbitrary: x) auto

lemma curves_loop_join: "curves_loop 0 gs [] = str_join '':'' (map curve_name gs)"
  by (cases gs) (simp_all add: curves_loop_Suc str_join_Cons comp_def Let_def)

lemma run_plan_append: "run_plan S (xs @ ys) b = and_then (run_plan S xs b) (run_plan S ys)"
proof (induction xs arbitrary: b)
  case (Cons c cs)
  then show ?case by (cases "run_call S c b") auto
qed simp

lemma run_plan_Nil [simp]: "run_plan S [] = Inr"
  by (rule ext) simp

lemma run_call_simps [simp]:
  "run_call S (SetGreaseEnabled g) b = Inr (ssl_do S (SetGreaseEnabled g) b)"
  "run_call S (SetPermuteExtensions g) b = Inr (ssl_do S (SetPermuteExtensions g) b)"
  "run_call S EnableSignedCertTimestamps b = Inr (ssl_do S EnableSignedCertTimestamps b)"
  "run_call S SetVerifyNone b = Inr (ssl_do S SetVerifyNone b)"
  "run_call S (SetSigningAlgorithmPrefs ps) b = tls_ffi S (SetSigningAlgorithmPrefs ps) b"
  "run_call S (SetVerifyAlgorithmPrefs ps) b = tls_ffi S (SetVerifyAlgorithmPrefs ps) b"
  "run_call S (SetMinProtoVersion v) b = tls_try S (SetMinProtoVersion v) b"
  "run_call S (SetMaxProtoVersion v) b = tls_try S (SetMaxProtoVersion v) b"
  "run_call S (SetCipherList l) b = tls_try S (SetCipherList l) b"
  "run_call S (SetCurvesList l) b = tls_try S (SetCurvesList l) b"
  "run_call S (SetAlpnProtos l2) b = tls_try S (SetAlpnProtos l2) b"
  "run_call S AddCertificateCompression b = tls_try S AddCertificateCompression b"
  by (simp_all add: run_call_def)

lemma build_connector_plan:
  "build_connector S p = and_then (map_err TlsBuild (ssl_new S)) (run_plan S (connector_plan p))"
  unfolding build_connector_def connector_plan_def curves_loop_join
  by (cases "ssl_new S")
    (auto simp: Let_def and_then_assoc run_plan_append intro!: and_then_cong)

section \<open>The ALPN wire format\<close>

text \<open>The receiver's reading of the list: a length byte, then that many bytes, to the end.\<close>

function decode_alpn :: "byte list \<Rightarrow> string list option" where
  "decode_alpn [] = Some []"
| "decode_alpn (n # bs) =
    (if length bs < unat n then None
     else map_option (\<lambda>ps. of_bytes (take (unat n) bs) # ps) (decode_alpn (drop (unat n) bs)))"
  by pat_completeness auto
termination
  by (relation "measure length") auto

lemma alpn_loop_acc:
  "alpn_loop ps acc = acc @ concat (map (\<lambda>p. of_nat (length p) # as_bytes p) ps)"
  by (induction ps arbitrary: acc) simp_all

lemma unat_of_nat_byte: "n < 256 \<Longrightarrow> unat (of_nat n :: byte) = n"
  by (simp add: unat_of_nat)

lemma decode_alpn_entry:
  "length p < 256 \<Longrightarrow>
   decode_alpn (of_nat (length p) # as_bytes p @ rest) = map_option (\<lambda>ps. p # ps) (decode_alpn rest)"
  by (simp add: unat_of_nat_byte)

section \<open>The certificate decompressor\<close>

text \<open>
  \<open>BrotliCompressor::decompress\<close> reads a foreign decompressor 4096 bytes at a time until it
  reports the end and writes each block out. Nothing in the source bounds the loop, so it is a
  partial function. \<open>rd n r\<close> is \<open>Read::read\<close> on a buffer of \<open>n\<close> bytes, \<open>wr bs w\<close> is
  \<open>Write::write_all\<close>.
\<close>

partial_function (option) decompress ::
  "(nat \<Rightarrow> 'r \<Rightarrow> (io_error + byte list) \<times> 'r) \<Rightarrow> (byte list \<Rightarrow> 'w \<Rightarrow> (io_error + unit) \<times> 'w) \<Rightarrow>
   'r \<Rightarrow> 'w \<Rightarrow> ((io_error + unit) \<times> 'r \<times> 'w) option" where
  "decompress rd wr r w =
    (case rd 4096 r of
       (Inl e, r') \<Rightarrow> Some (Inl e, r', w)
     | (Inr bs, r') \<Rightarrow>
         (if bs = [] then Some (Inr (), r', w)
          else case wr bs w of
                 (Inl e, w') \<Rightarrow> Some (Inl e, r', w')
               | (Inr _, w') \<Rightarrow> decompress rd wr r' w'))"

declare decompress.simps [code]

text \<open>A reader that yields the blocks \<open>bss\<close> and then the end.\<close>

inductive yields :: "(nat \<Rightarrow> 'r \<Rightarrow> (io_error + byte list) \<times> 'r) \<Rightarrow> 'r \<Rightarrow> byte list list \<Rightarrow> 'r \<Rightarrow> bool"
  for rd where
  yields_end: "rd 4096 r = (Inr [], r') \<Longrightarrow> yields rd r [] r'"
| yields_block: "rd 4096 r = (Inr bs, r1) \<Longrightarrow> bs \<noteq> [] \<Longrightarrow> yields rd r1 bss r' \<Longrightarrow>
     yields rd r (bs # bss) r'"

inductive_cases yields_NilE: "yields rd r [] r'"
inductive_cases yields_ConsE: "yields rd r (bs # bss) r'"

lemma decompress_yields:
  assumes "yields rd r bss r'" and "\<And>bs w. wr bs w = (Inr (), out bs w)"
  shows "decompress rd wr r w = Some (Inr (), r', fold out bss w)"
  using assms(1)
proof (induction arbitrary: w rule: yields.induct)
  case (yields_end r r')
  then show ?case by (simp add: decompress.simps)
next
  case (yields_block r bs r1 bss r')
  then show ?case by (subst decompress.simps) (simp add: assms(2)[of bs w])
qed

section \<open>Properties of the TLS layer\<close>

text \<open>A builder that records the calls it accepts, for evaluation.\<close>

definition recording_ssl :: "ssl_call list ssl_ops" where
  "recording_ssl = \<lparr>
     ssl_new = Inr [],
     ssl_try = (\<lambda>c b. Inr (b @ [c])),
     ssl_do = (\<lambda>c b. b @ [c]),
     ssl_ffi = (\<lambda>c b. (1, b @ [c])),
     ssl_error_stack = (\<lambda>b. []) \<rparr>"


lemma recording_run_plan: "run_plan recording_ssl cs b = Inr (b @ cs)"
proof (induction cs arbitrary: b)
  case (Cons c cs)
  have "run_call recording_ssl c b = Inr (b @ [c])"
    by (cases c) (simp_all add: run_call_def recording_ssl_def tls_try_def tls_ffi_def)
  with Cons show ?case by simp
qed simp

lemma recording_connector: "build_connector recording_ssl p = Inr (connector_plan p)"
proof -
  have "ssl_new recording_ssl = Inr []" by (simp add: recording_ssl_def)
  then show ?thesis by (simp add: build_connector_plan recording_run_plan)
qed

lemma run_plan_Inr:
  "run_plan S cs b = Inr b' \<Longrightarrow> i < length cs \<Longrightarrow>
   \<exists>bi bj. run_plan S (take i cs) b = Inr bi \<and> run_call S (cs ! i) bi = Inr bj"
proof (induction cs arbitrary: b i)
  case (Cons c cs)
  then show ?case by (cases i) (fastforce simp: and_then_Inr_iff)+
qed simp

lemma run_plan_Inl:
  "run_plan S cs b = Inl e \<Longrightarrow>
   \<exists>i < length cs. \<exists>bi. run_plan S (take i cs) b = Inr bi \<and> run_call S (cs ! i) bi = Inl e"
proof (induction cs arbitrary: b)
  case (Cons c cs)
  show ?case
  proof (cases "run_call S c b")
    case (Inl e')
    with Cons.prems show ?thesis by (intro exI[of _ 0]) simp
  next
    case (Inr b')
    with Cons.prems have "run_plan S cs b' = Inl e" by simp
    then obtain i bi where "i < length cs" "run_plan S (take i cs) b' = Inr bi"
      "run_call S (cs ! i) bi = Inl e"
      using Cons.IH by blast
    with Inr show ?thesis by (intro exI[of _ "Suc i"]) simp
  qed
qed simp

lemma run_call_error_class: "run_call S c b = Inl e \<Longrightarrow> \<exists>m. e = TlsBuild m"
  by (auto simp: run_call_def tls_try_def tls_ffi_def map_err_def
      split: call_kind.splits sum.splits prod.splits if_splits)

text \<open>
  A connector is never built half-way: a success means that every call of the plan
  succeeded on the builder the calls before it left, and an error means that the calls before
  the failing one succeeded and none after it was made.
\<close>

theorem connector_failure_is_first_failing_call:
  assumes "ssl_new S = Inr b0"
  shows "case build_connector S p of
      Inr c \<Rightarrow> run_plan S (connector_plan p) b0 = Inr c
    | Inl e \<Rightarrow> (\<exists>m. e = TlsBuild m) \<and>
        (\<exists>i < length (connector_plan p). \<exists>bi. run_plan S (take i (connector_plan p)) b0 = Inr bi \<and>
           run_call S (connector_plan p ! i) bi = Inl e)"
proof (cases "build_connector S p")
  case (Inl e)
  with assms have "run_plan S (connector_plan p) b0 = Inl e"
    by (simp add: build_connector_plan)
  from run_plan_Inl[OF this] Inl show ?thesis
    using run_call_error_class by fastforce
next
  case (Inr c)
  with assms show ?thesis by (simp add: build_connector_plan)
qed

theorem connector_failure_is_first_failing_call_witness:
  "build_connector recording_ssl base_tls_148 = Inr (connector_plan base_tls_148)"
proof -
  have new: "ssl_new recording_ssl = Inr []" by (simp add: recording_ssl_def)
  show ?thesis
    using connector_failure_is_first_failing_call[OF new, of base_tls_148]
    by (simp add: recording_connector recording_run_plan)
qed

text \<open>
  The ALPN list the connector installs is the wire format of the profile's
  protocols: a receiver that reads length byte and name in turn gets the list back, as long as
  no name is longer than a length byte can say.
\<close>

theorem alpn_roundtrip:
  assumes "\<forall>p \<in> set ps. length p < 256"
  shows "decode_alpn (alpn_loop ps []) = Some ps"
  using assms
proof (induction ps)
  case (Cons p ps)
  then have "decode_alpn (alpn_loop ps []) = Some ps" "length p < 256" by auto
  then show ?case by (simp add: alpn_loop_acc decode_alpn_entry del: decode_alpn.simps(2))
qed simp

theorem alpn_roundtrip_witness:
  "decode_alpn (alpn_loop ALPN_PROTOCOLS_148 []) = Some [''h2'', ''http/1.1'']"
  using alpn_roundtrip[of ALPN_PROTOCOLS_148] by (simp add: ALPN_PROTOCOLS_148_def)

text \<open>
  The certificate decompressor returns on every input whose decompressor
  yields finitely many blocks: it writes exactly the blocks, in order, and reports success.
\<close>

theorem decompress_writes_all_blocks:
  assumes "yields rd r bss r'" and "\<forall>bs w. wr bs w = (Inr (), w @ bs)"
  shows "decompress rd wr r out = Some (Inr (), r', out @ concat bss)"
proof -
  have "fold (\<lambda>bs w. w @ bs) bss out = out @ concat bss"
    by (induction bss arbitrary: out) simp_all
  then show ?thesis
    using decompress_yields[OF assms(1), of wr "\<lambda>bs w. w @ bs" out] assms(2) by simp
qed

theorem decompress_writes_all_blocks_witness:
  "decompress (\<lambda>n r. case r of [] \<Rightarrow> (Inr [], []) | b # bs \<Rightarrow> (Inr b, bs))
     (\<lambda>bs w. (Inr (), w @ bs)) [[1, 2], [3 :: byte]] [] = Some (Inr (), [], [1, 2, 3])"
proof -
  have "yields (\<lambda>n r. case r of [] \<Rightarrow> (Inr [], []) | b # bs \<Rightarrow> (Inr b, bs))
      [[1, 2], [3 :: byte]] [[1, 2], [3]] []"
    by (auto intro!: yields.intros)
  from decompress_writes_all_blocks[OF this, of "\<lambda>bs w. (Inr (), w @ bs)" "[]"]
  show ?thesis by simp
qed

end
