(* ===== verification/Header_Interface.thy ===== *)
theory Header_Interface imports Quik_Profile begin

text \<open>
  The header types of the \<open>http\<close> crate, as the source uses them. A header value is represented by
  the two things its interface exposes, its bytes and its sensitivity flag. The multimap
  \<open>HeaderMap\<close> and the constructors of names and values are foreign: they are the fields of
  \<open>header_ops\<close>, passed to every definition that uses them, and the locale \<open>header_map\<close> states
  their documented behaviour. \<open>assoc_headers\<close> is an instance, an insertion-ordered association
  list, used to evaluate the model.
\<close>

record header_value =
  hv_bytes :: string
  hv_sensitive :: bool

definition plain_value :: "string \<Rightarrow> header_value" where
  "plain_value s = \<lparr>hv_bytes = s, hv_sensitive = False\<rparr>"

record 'h header_ops =
  hm_new :: 'h
  hm_insert :: "string \<Rightarrow> header_value \<Rightarrow> 'h \<Rightarrow> 'h"
  hm_append :: "string \<Rightarrow> header_value \<Rightarrow> 'h \<Rightarrow> 'h"
  hm_get :: "'h \<Rightarrow> string \<Rightarrow> header_value option"
  hm_get_all :: "'h \<Rightarrow> string \<Rightarrow> header_value list"
  hm_iter :: "'h \<Rightarrow> (string \<times> header_value) list"
  hm_iter_mut :: "(string \<Rightarrow> header_value \<Rightarrow> header_value) \<Rightarrow> 'h \<Rightarrow> 'h"
  hv_from_str :: "string \<Rightarrow> header_value option"
  hv_from_static :: "string \<Rightarrow> header_value"
  hv_from_bytes :: "string \<Rightarrow> header_value option"
  hv_to_str :: "header_value \<Rightarrow> string option"
  hn_from_bytes :: "string \<Rightarrow> string option"

locale header_map =
  fixes H :: "'h header_ops"
  assumes get_all_new [simp]: "hm_get_all H (hm_new H) n = []"
    and get_all_insert [simp]:
      "hm_get_all H (hm_insert H k v h) n = (if n = k then [v] else hm_get_all H h n)"
    and get_all_append [simp]:
      "hm_get_all H (hm_append H k v h) n =
         (if n = k then hm_get_all H h n @ [v] else hm_get_all H h n)"
    and get_first: "hm_get H h n = (case hm_get_all H h n of [] \<Rightarrow> None | v # vs \<Rightarrow> Some v)"
    and iter_get_all: "map snd (filter (\<lambda>kv. fst kv = n) (hm_iter H h)) = hm_get_all H h n"
    and get_all_iter_mut [simp]:
      "hm_get_all H (hm_iter_mut H f h) n = map (f n) (hm_get_all H h n)"
    and from_str: "hv_from_str H s = (if visible_text s then Some (plain_value s) else None)"
    and from_static: "visible_text s \<Longrightarrow> hv_from_static H s = plain_value s"
    and from_bytes_value: "hv_from_bytes H s = Some v \<Longrightarrow> v = plain_value s"
    and to_str: "hv_to_str H v = (if visible_text (hv_bytes v) then Some (hv_bytes v) else None)"
begin

lemma get_insert: "hm_get H (hm_insert H k v h) n = (if n = k then Some v else hm_get H h n)"
  by (simp add: get_first)

lemma get_None_iff: "hm_get H h n = None \<longleftrightarrow> hm_get_all H h n = []"
  by (simp add: get_first split: list.splits)

lemma get_SomeD: "hm_get H h n = Some v \<Longrightarrow> v \<in> set (hm_get_all H h n)"
  by (auto simp: get_first split: list.splits)

text \<open>Inserting optional texts under distinct names: a table lookup.\<close>

definition insert_opt :: "string \<times> string option \<Rightarrow> 'h \<Rightarrow> 'h" where
  "insert_opt kt h = (case snd kt of Some t \<Rightarrow> hm_insert H (fst kt) (plain_value t) h | None \<Rightarrow> h)"

lemma get_all_fold_insert:
  "distinct (map fst ts) \<Longrightarrow> hm_get_all H (fold insert_opt ts h) n =
    (case map_of ts n of Some (Some t) \<Rightarrow> [plain_value t] | _ \<Rightarrow> hm_get_all H h n)"
proof (induction ts arbitrary: h)
  case (Cons kt ts)
  obtain k ot where kt: "kt = (k, ot)" by fastforce
  from Cons.prems kt have "map_of ts k = None" by (auto simp: map_of_eq_None_iff)
  with Cons kt show ?case by (auto simp: insert_opt_def split: option.splits)
qed simp

end

section \<open>A concrete multimap\<close>

text \<open>Entries in insertion order; \<open>insert\<close> drops the older values of its name.\<close>

type_synonym assoc_map = "(string \<times> header_value) list"

definition visible_byte :: "char \<Rightarrow> bool" where
  "visible_byte c = (let n = (of_char c :: nat) in n = 9 \<or> (32 \<le> n \<and> n \<noteq> 127))"

definition assoc_headers :: "assoc_map header_ops" where
  "assoc_headers = \<lparr>
     hm_new = [],
     hm_insert = (\<lambda>k v h. filter (\<lambda>kv. fst kv \<noteq> k) h @ [(k, v)]),
     hm_append = (\<lambda>k v h. h @ [(k, v)]),
     hm_get = (\<lambda>h n. map_of h n),
     hm_get_all = (\<lambda>h n. map snd (filter (\<lambda>kv. fst kv = n) h)),
     hm_iter = (\<lambda>h. h),
     hm_iter_mut = (\<lambda>f h. map (\<lambda>(k, v). (k, f k v)) h),
     hv_from_str = (\<lambda>s. if visible_text s then Some (plain_value s) else None),
     hv_from_static = plain_value,
     hv_from_bytes = (\<lambda>s. if list_all visible_byte s then Some (plain_value s) else None),
     hv_to_str = (\<lambda>v. if visible_text (hv_bytes v) then Some (hv_bytes v) else None),
     hn_from_bytes = (\<lambda>s. if s \<noteq> [] \<and> visible_text s then Some (to_lowercase s) else None) \<rparr>"

lemma map_of_first:
  "map_of h n = (case map snd (filter (\<lambda>kv. fst kv = n) h) of [] \<Rightarrow> None | v # vs \<Rightarrow> Some v)"
  by (induction h) auto

lemma filter_map_keys:
  "map snd (filter (\<lambda>kv. fst kv = n) (map (\<lambda>(k, v). (k, f k v)) h)) =
     map (f n) (map snd (filter (\<lambda>kv. fst kv = n) h))"
  by (induction h) auto

interpretation assoc: header_map assoc_headers
proof unfold_locales
  fix f :: "string \<Rightarrow> header_value \<Rightarrow> header_value" and h :: assoc_map and n :: string
  show "hm_get_all assoc_headers (hm_iter_mut assoc_headers f h) n =
      map (f n) (hm_get_all assoc_headers h n)"
    by (simp add: assoc_headers_def filter_map_keys del: map_map)
  show "hm_get assoc_headers h n =
      (case hm_get_all assoc_headers h n of [] \<Rightarrow> None | v # vs \<Rightarrow> Some v)"
    by (simp add: assoc_headers_def map_of_first)
qed (auto simp: assoc_headers_def filter_empty_conv split: if_splits
      intro!: arg_cong[where f = "map snd"] filter_cong)

end
