(* ===== verification/Request.thy ===== *)
theory Request imports Header_Interface Chrome_134 begin

text \<open>
  \<open>src/client/request.rs\<close>: the fetch contexts and \<open>inject_chrome_headers\<close>, the function that
  writes every header of an outbound request. The header map it mutates is threaded through.
\<close>

datatype request_context =
    Navigate | Xhr | Form | Iframe | NoCorsScript | NoCorsStyle | NoCorsImage | NoCorsFont
  | NoCorsMedia | Worker | ServiceWorker | Prefetch

section \<open>The context table\<close>

definition accept_html :: string where
  "accept_html = ''text/html,application/xhtml+xml,application/xml;q=0.9,image/avif,image/webp,'' @
     ''image/apng,*/*;q=0.8,application/signed-exchange;v=b3;q=0.7''"

text \<open>The match of the source: mode, destination and \<open>Accept\<close> value of a context.\<close>

fun context_metadata :: "request_context \<Rightarrow> string \<times> string \<times> string" where
  "context_metadata Navigate = (''navigate'', ''document'', accept_html)"
| "context_metadata Form = (''navigate'', ''document'', accept_html)"
| "context_metadata Iframe = (''navigate'', ''iframe'', accept_html)"
| "context_metadata Xhr = (''cors'', ''empty'', ''*/*'')"
| "context_metadata NoCorsScript = (''no-cors'', ''script'', ''*/*'')"
| "context_metadata NoCorsStyle = (''no-cors'', ''style'', ''text/css,*/*;q=0.1'')"
| "context_metadata NoCorsImage = (''no-cors'', ''image'',
     ''image/avif,image/webp,image/apng,image/svg+xml,image/*,*/*;q=0.8'')"
| "context_metadata NoCorsFont = (''no-cors'', ''font'', ''*/*'')"
| "context_metadata NoCorsMedia = (''no-cors'', ''video'', ''*/*'')"
| "context_metadata Worker = (''same-origin'', ''worker'', ''*/*'')"
| "context_metadata ServiceWorker = (''same-origin'', ''serviceworker'', ''*/*'')"
| "context_metadata Prefetch = (''no-cors'', ''empty'', ''*/*'')"

section \<open>inject\_chrome\_headers\<close>

text \<open>\<open>if let Ok(val) = HeaderValue::from_str(s) { headers.insert(name, val); }\<close>\<close>

definition insert_if_valid :: "'h header_ops \<Rightarrow> string \<Rightarrow> string \<Rightarrow> 'h \<Rightarrow> 'h" where
  "insert_if_valid H name s headers =
    (case hv_from_str H s of Some val \<Rightarrow> hm_insert H name val headers | None \<Rightarrow> headers)"

definition insert_static :: "'h header_ops \<Rightarrow> string \<Rightarrow> string \<Rightarrow> 'h \<Rightarrow> 'h" where
  "insert_static H name s headers = hm_insert H name (hv_from_static H s) headers"

definition set_sensitive :: "bool \<Rightarrow> header_value \<Rightarrow> header_value" where
  "set_sensitive b v = v\<lparr>hv_sensitive := b\<rparr>"

definition mark_sensitive :: "string \<Rightarrow> header_value \<Rightarrow> header_value" where
  "mark_sensitive name value =
    (if name = ''cookie'' \<or> name = ''authorization'' then set_sensitive True value else value)"

definition accept_encoding :: "bool \<Rightarrow> string" where
  "accept_encoding zstd =
    (if zstd then ''gzip, deflate, br, zstd'' else ''gzip, deflate, br'')"

definition inject_chrome_headers ::
  "'h header_ops \<Rightarrow> 'h \<Rightarrow> chrome_profile \<Rightarrow> string \<Rightarrow> bool \<Rightarrow> request_context \<Rightarrow> bool \<Rightarrow>
   string option \<Rightarrow> 'h" where
  "inject_chrome_headers H headers profile sec_fetch_site is_initial_navigation ctx accept_ch referer =
    (let hp = cp_headers profile;
         headers = insert_if_valid H ''sec-ch-ua'' (hdr_sec_ch_ua hp) headers;
         headers = insert_static H ''sec-ch-ua-mobile'' ''?0'' headers;
         headers = insert_if_valid H ''sec-ch-ua-platform'' (hdr_sec_ch_ua_platform hp) headers;
         headers = (if accept_ch
           then insert_if_valid H ''sec-ch-ua-platform-version''
                  (hdr_sec_ch_ua_platform_version hp) headers
           else headers);
         headers = insert_static H ''upgrade-insecure-requests'' ''1'' headers;
         headers = insert_if_valid H ''user-agent'' (hdr_user_agent hp) headers;
         headers = insert_if_valid H ''sec-fetch-site'' sec_fetch_site headers;
         (mode, dest, accept_val) = context_metadata ctx;
         headers = insert_static H ''accept'' accept_val headers;
         headers = insert_static H ''sec-fetch-mode'' mode headers;
         headers = (if is_initial_navigation \<and> (ctx = Navigate \<or> ctx = Form \<or> ctx = Iframe)
           then insert_static H ''sec-fetch-user'' ''?1'' headers else headers);
         headers = insert_static H ''sec-fetch-dest'' dest headers;
         headers = (case referer of
             Some r \<Rightarrow> insert_if_valid H ''referer'' r headers | None \<Rightarrow> headers);
         headers = insert_static H ''accept-encoding'' (accept_encoding (hdr_zstd_encoding hp)) headers;
         headers = insert_if_valid H ''accept-language'' (hdr_accept_language hp) headers;
         headers = (if hdr_include_priority_header hp
           then insert_static H ''priority'' ''u=0, i'' headers else headers)
     in hm_iter_mut H mark_sensitive headers)"

section \<open>The table of a request\<close>

text \<open>
  What the function promises: a table from header names to texts. A text that is no valid header
  value is left out, as the source's \<open>if let Ok\<close> does.
\<close>

definition if_visible :: "string \<Rightarrow> string option" where
  "if_visible s = (if visible_text s then Some s else None)"

definition header_table ::
  "header_profile \<Rightarrow> string \<Rightarrow> bool \<Rightarrow> request_context \<Rightarrow> bool \<Rightarrow> string option \<Rightarrow>
   (string \<times> string option) list" where
  "header_table hp site initial ctx accept_ch referer =
    (let (mode, dest, accept_val) = context_metadata ctx in
     [(''sec-ch-ua'', if_visible (hdr_sec_ch_ua hp)),
      (''sec-ch-ua-mobile'', Some ''?0''),
      (''sec-ch-ua-platform'', if_visible (hdr_sec_ch_ua_platform hp)),
      (''sec-ch-ua-platform-version'',
         if accept_ch then if_visible (hdr_sec_ch_ua_platform_version hp) else None),
      (''upgrade-insecure-requests'', Some ''1''),
      (''user-agent'', if_visible (hdr_user_agent hp)),
      (''sec-fetch-site'', if_visible site),
      (''accept'', Some accept_val),
      (''sec-fetch-mode'', Some mode),
      (''sec-fetch-user'',
         if initial \<and> (ctx = Navigate \<or> ctx = Form \<or> ctx = Iframe) then Some ''?1'' else None),
      (''sec-fetch-dest'', Some dest),
      (''referer'', case referer of Some r \<Rightarrow> if_visible r | None \<Rightarrow> None),
      (''accept-encoding'', Some (accept_encoding (hdr_zstd_encoding hp))),
      (''accept-language'', if_visible (hdr_accept_language hp)),
      (''priority'', if hdr_include_priority_header hp then Some ''u=0, i'' else None)])"

definition chrome_header ::
  "header_profile \<Rightarrow> string \<Rightarrow> bool \<Rightarrow> request_context \<Rightarrow> bool \<Rightarrow> string option \<Rightarrow>
   string \<Rightarrow> string option" where
  "chrome_header hp site initial ctx accept_ch referer n =
    (case map_of (header_table hp site initial ctx accept_ch referer) n of
       Some ot \<Rightarrow> ot | None \<Rightarrow> None)"

definition chrome_names :: "string list" where
  "chrome_names =
     [''sec-ch-ua'', ''sec-ch-ua-mobile'', ''sec-ch-ua-platform'', ''sec-ch-ua-platform-version'',
      ''upgrade-insecure-requests'', ''user-agent'', ''sec-fetch-site'', ''accept'',
      ''sec-fetch-mode'', ''sec-fetch-user'', ''sec-fetch-dest'', ''referer'', ''accept-encoding'',
      ''accept-language'', ''priority'']"

lemma header_table_names: "map fst (header_table hp site i ctx ach ref) = chrome_names"
  by (simp add: header_table_def chrome_names_def split: prod.splits)

lemma distinct_chrome_names: "distinct chrome_names"
  by code_simp

lemma visible_context_metadata:
  "context_metadata ctx = (mode, dest, acc) \<Longrightarrow>
   visible_text mode \<and> visible_text dest \<and> visible_text acc"
  by (cases ctx) (auto simp: visible_text_def visible_char_def accept_html_def)

lemma visible_static:
  "visible_text ''?0''" "visible_text ''1''" "visible_text ''?1''" "visible_text ''u=0, i''"
  "visible_text (accept_encoding z)"
  by (simp_all add: visible_text_def visible_char_def accept_encoding_def)

context header_map begin

lemma insert_if_valid_opt: "insert_if_valid H k s h = insert_opt (k, if_visible s) h"
  by (simp add: insert_if_valid_def from_str insert_opt_def if_visible_def)

lemma insert_static_opt: "visible_text s \<Longrightarrow> insert_static H k s h = insert_opt (k, Some s) h"
  by (simp add: insert_static_def from_static insert_opt_def)

lemma insert_opt_cases:
  "(if P then insert_opt (k, t) h else h) = insert_opt (k, if P then t else None) h"
  "(case r of Some x \<Rightarrow> insert_opt (k, g x) h | None \<Rightarrow> h) =
     insert_opt (k, case r of Some x \<Rightarrow> g x | None \<Rightarrow> None) h"
  by (simp_all add: insert_opt_def split: option.splits)

lemma inject_is_table:
  "inject_chrome_headers H h p site i ctx ach ref =
     hm_iter_mut H mark_sensitive (fold insert_opt (header_table (cp_headers p) site i ctx ach ref) h)"
proof -
  obtain mode dest acc where m: "context_metadata ctx = (mode, dest, acc)"
    by (cases "context_metadata ctx") auto
  note vis = visible_context_metadata[OF m] visible_static
  show ?thesis
    unfolding inject_chrome_headers_def header_table_def m Let_def prod.case
    by (simp only: insert_if_valid_opt insert_static_opt vis insert_opt_cases fold_simps)
qed

lemma get_all_inject:
  "hm_get_all H (inject_chrome_headers H h p site i ctx ach ref) n =
     map (mark_sensitive n)
       (case chrome_header (cp_headers p) site i ctx ach ref n of
          Some t \<Rightarrow> [plain_value t] | None \<Rightarrow> hm_get_all H h n)"
  by (simp add: inject_is_table get_all_fold_insert header_table_names distinct_chrome_names
      chrome_header_def split: option.splits)

end

lemma chrome_header_sensitive_names [simp]:
  "chrome_header hp site i ctx ach ref ''cookie'' = None"
  "chrome_header hp site i ctx ach ref ''authorization'' = None"
  "chrome_header hp site i ctx ach ref ''origin'' = None"
  by (simp_all add: chrome_header_def header_table_def case_prod_beta split del: if_split)

lemma chrome_header_values:
  "chrome_header hp site i ctx ach ref ''sec-fetch-site'' = if_visible site"
  "chrome_header hp site i ctx ach ref ''sec-fetch-mode'' = Some (fst (context_metadata ctx))"
  "chrome_header hp site i ctx ach ref ''sec-fetch-dest'' = Some (fst (snd (context_metadata ctx)))"
  "chrome_header hp site i ctx ach ref ''accept'' = Some (snd (snd (context_metadata ctx)))"
  "chrome_header hp site i ctx ach ref ''sec-fetch-user'' =
     (if i \<and> (ctx = Navigate \<or> ctx = Form \<or> ctx = Iframe) then Some ''?1'' else None)"
  "chrome_header hp site i ctx ach ref ''sec-ch-ua-platform-version'' =
     (if ach then if_visible (hdr_sec_ch_ua_platform_version hp) else None)"
  "chrome_header hp site i ctx ach ref ''referer'' =
     (case ref of Some r \<Rightarrow> if_visible r | None \<Rightarrow> None)"
  "chrome_header hp site i ctx ach ref ''accept-encoding'' =
     Some (accept_encoding (hdr_zstd_encoding hp))"
  by (simp_all add: chrome_header_def header_table_def case_prod_beta split del: if_split)

lemma mark_sensitive_simps [simp]:
  "hv_bytes (mark_sensitive n v) = hv_bytes v"
  "hv_sensitive (mark_sensitive n v) \<longleftrightarrow> n \<in> {''cookie'', ''authorization''} \<or> hv_sensitive v"
  by (auto simp: mark_sensitive_def set_sensitive_def)

section \<open>Properties of a request's headers\<close>

text \<open>
  C19 (functional). The complete header map of a request: under each of the fifteen Chrome names
  stands the one value the table gives, replacing whatever the caller had put there; a name
  whose text the table leaves out, and every other name, keeps the caller's values. Cookie and
  authorization values come out flagged as sensitive, all other values with the flag they had.
\<close>

theorem injected_headers_complete:
  assumes "header_map H"
  shows "hm_get_all H (inject_chrome_headers H h p site i ctx ach ref) n =
     (case chrome_header (cp_headers p) site i ctx ach ref n of
        Some t \<Rightarrow> [plain_value t]
      | None \<Rightarrow> map (mark_sensitive n) (hm_get_all H h n))"
proof -
  have "mark_sensitive n (plain_value t) = plain_value t"
    if "chrome_header (cp_headers p) site i ctx ach ref n = Some t" for t
    using that by (auto simp: mark_sensitive_def)
  then show ?thesis
    by (auto simp: header_map.get_all_inject[OF assms] split: option.splits)
qed

definition sample_profile :: chrome_profile where
  "sample_profile = fst (the (chrome_134_windows_x64 replay_rng [0, 0, 0]))"

theorem injected_headers_complete_witness:
  "hm_get_all assoc_headers
     (inject_chrome_headers assoc_headers [(''accept'', plain_value ''x'')] sample_profile
        ''cross-site'' False Xhr True None) ''accept'' = [plain_value ''*/*'']"
  using injected_headers_complete[OF assoc.header_map_axioms,
      of "[(''accept'', plain_value ''x'')]" sample_profile "''cross-site''" False Xhr True None "''accept''"]
  by (simp add: chrome_header_values)

text \<open>
  Confidential values never enter the compression table: in the headers of a
  request every cookie and every authorization value is flagged sensitive, wherever it stands in
  the iteration order, and its bytes are those the caller stored.
\<close>

theorem credentials_never_indexed:
  assumes "header_map H"
    and "(n, v) \<in> set (hm_iter H (inject_chrome_headers H h p site i ctx ach ref))"
    and "n = ''cookie'' \<or> n = ''authorization''"
  shows "hv_sensitive v \<and> (\<exists>v0 \<in> set (hm_get_all H h n). hv_bytes v = hv_bytes v0)"
proof -
  let ?h = "inject_chrome_headers H h p site i ctx ach ref"
  have "v \<in> snd ` set (filter (\<lambda>kv. fst kv = n) (hm_iter H ?h))"
    using assms(2) by force
  then have "v \<in> set (hm_get_all H ?h n)"
    using header_map.iter_get_all[OF assms(1), of n ?h] by (metis list.set_map)
  then show ?thesis
    using assms(3) by (auto simp: header_map.get_all_inject[OF assms(1)])
qed

theorem credentials_never_indexed_witness:
  "\<exists>v. (''cookie'', v) \<in> set (hm_iter assoc_headers
      (inject_chrome_headers assoc_headers [(''cookie'', plain_value ''id=7'')] sample_profile
         ''none'' True Navigate False None)) \<and> hv_sensitive v"
proof -
  let ?h = "inject_chrome_headers assoc_headers [(''cookie'', plain_value ''id=7'')] sample_profile
         ''none'' True Navigate False None"
  have "hm_get_all assoc_headers ?h ''cookie'' = [mark_sensitive ''cookie'' (plain_value ''id=7'')]"
    by (simp add: assoc.get_all_inject) (simp add: assoc_headers_def)
  then have "mark_sensitive ''cookie'' (plain_value ''id=7'') \<in>
      set (map snd (filter (\<lambda>kv. fst kv = ''cookie'') (hm_iter assoc_headers ?h)))"
    by (simp only: assoc.iter_get_all) simp
  then have "(''cookie'', mark_sensitive ''cookie'' (plain_value ''id=7'')) \<in> set (hm_iter assoc_headers ?h)"
    by auto
  then show ?thesis
    using credentials_never_indexed[OF assoc.header_map_axioms] by blast
qed

end
