(* ===== verification/Utf8.thy ===== *)
theory Utf8 imports Quik_Prelude begin

text \<open>
  The part of Rust's standard library that turns bytes into text: \<open>String::from_utf8_lossy\<close>,
  which replaces every maximal ill-formed piece by the replacement character, and
  \<open>String::from_utf8\<close>, which refuses a buffer with such a piece. The decoder follows the chunk
  iterator of \<open>core::str::lossy\<close>. What the callers need is proved here: searching a decoded
  buffer for an ASCII pattern is searching the buffer itself.
\<close>

section \<open>The decoder\<close>

definition byte_at :: "byte list \<Rightarrow> nat \<Rightarrow> nat" where
  "byte_at bs i = (case nth_opt bs i of Some b \<Rightarrow> unat b | None \<Rightarrow> 0)"

definition is_cont :: "nat \<Rightarrow> bool" where
  "is_cont n \<longleftrightarrow> 128 \<le> n \<and> n < 192"

definition second_of_three :: "nat \<Rightarrow> nat \<Rightarrow> bool" where
  "second_of_three b c \<longleftrightarrow>
     (if b = 0xE0 then 0xA0 \<le> c \<and> c \<le> 0xBF
      else if b = 0xED then 0x80 \<le> c \<and> c \<le> 0x9F
      else 0x80 \<le> c \<and> c \<le> 0xBF)"

definition second_of_four :: "nat \<Rightarrow> nat \<Rightarrow> bool" where
  "second_of_four b c \<longleftrightarrow>
     (if b = 0xF0 then 0x90 \<le> c \<and> c \<le> 0xBF
      else if b = 0xF4 then 0x80 \<le> c \<and> c \<le> 0x8F
      else 0x80 \<le> c \<and> c \<le> 0xBF)"

text \<open>
  One step: is the piece that starts with \<open>b\<close> well formed, and how many of the bytes after \<open>b\<close>
  belong to it.
\<close>

definition utf8_piece :: "byte \<Rightarrow> byte list \<Rightarrow> bool \<times> nat" where
  "utf8_piece b bs = (let n = unat b in
     if n < 128 then (True, 0)
     else if 0xC2 \<le> n \<and> n \<le> 0xDF then
       (if is_cont (byte_at bs 0) then (True, 1) else (False, 0))
     else if 0xE0 \<le> n \<and> n \<le> 0xEF then
       (if \<not> second_of_three n (byte_at bs 0) then (False, 0)
        else if \<not> is_cont (byte_at bs 1) then (False, 1)
        else (True, 2))
     else if 0xF0 \<le> n \<and> n \<le> 0xF4 then
       (if \<not> second_of_four n (byte_at bs 0) then (False, 0)
        else if \<not> is_cont (byte_at bs 1) then (False, 1)
        else if \<not> is_cont (byte_at bs 2) then (False, 2)
        else (True, 3))
     else (False, 0))"

definition replacement :: "byte list" where
  "replacement = [0xEF, 0xBF, 0xBD]"

function utf8_lossy :: "byte list \<Rightarrow> byte list" where
  "utf8_lossy [] = []"
| "utf8_lossy (b # bs) =
    (let (ok, k) = utf8_piece b bs
     in (if ok then b # take k bs else replacement) @ utf8_lossy (drop k bs))"
  by pat_completeness auto
termination
  by (relation "measure length") auto

function utf8_valid :: "byte list \<Rightarrow> bool" where
  "utf8_valid [] = True"
| "utf8_valid (b # bs) =
    (let (ok, k) = utf8_piece b bs in ok \<and> utf8_valid (drop k bs))"
  by pat_completeness auto
termination
  by (relation "measure length") auto

lemma utf8_lossy_valid: "utf8_valid bs \<Longrightarrow> utf8_lossy bs = bs"
  by (induction bs rule: utf8_valid.induct) (auto split: prod.splits)

section \<open>ASCII patterns\<close>

definition is_ascii :: "byte \<Rightarrow> bool" where
  "is_ascii b \<longleftrightarrow> unat b < 128"

lemma byte_at_simps [simp]:
  "byte_at [] i = 0" "byte_at (b # bs) 0 = unat b" "byte_at (b # bs) (Suc i) = byte_at bs i"
  by (simp_all add: byte_at_def)

lemma byte_at_high: "128 \<le> byte_at bs i \<Longrightarrow> i < length bs \<and> \<not> is_ascii (bs ! i)"
  by (auto simp: byte_at_def nth_opt_eq is_ascii_def split: if_splits)

lemma utf8_piece_ascii: "is_ascii b \<Longrightarrow> utf8_piece b bs = (True, 0)"
  by (simp add: utf8_piece_def is_ascii_def)

text \<open>The bytes after the first one that a piece takes are all present and outside ASCII.\<close>

lemma utf8_piece_taken:
  assumes "utf8_piece b bs = (ok, k)" "i < k"
  shows "i < length bs \<and> \<not> is_ascii (bs ! i)"
proof -
  have second: "128 \<le> byte_at bs 0" if "second_of_three n (byte_at bs 0) \<or> second_of_four n (byte_at bs 0)" for n
    using that by (auto simp: second_of_three_def second_of_four_def split: if_splits)
  have k3: "k \<le> 3"
    using assms(1) by (auto simp: utf8_piece_def Let_def split: if_split_asm)
  have k: "(0 < k \<longrightarrow> 128 \<le> byte_at bs 0) \<and> (1 < k \<longrightarrow> 128 \<le> byte_at bs 1) \<and>
      (2 < k \<longrightarrow> 128 \<le> byte_at bs 2)"
    using assms(1) second
    by (auto simp: utf8_piece_def Let_def is_cont_def split: if_split_asm)
  from assms(2) k3 consider "i = 0" | "i = 1" | "i = 2" by linarith
  then have "128 \<le> byte_at bs i" using k assms(2) by cases auto
  then show ?thesis by (rule byte_at_high)
qed

lemma utf8_piece_ok_local:
  assumes "utf8_piece b bs = (True, k)"
  shows "utf8_piece b (take k bs @ ys) = (True, k)"
proof -
  have "byte_at (take k bs @ ys) i = byte_at bs i" if "i < k" for i
    using utf8_piece_taken[OF assms that] that by (simp add: byte_at_def nth_opt_eq nth_append min_def)
  then show ?thesis
    using assms unfolding utf8_piece_def Let_def
    by (auto split: if_split_asm)
qed

lemma utf8_piece_take_high: "utf8_piece b bs = (ok, k) \<Longrightarrow> c \<in> set (take k bs) \<Longrightarrow> \<not> is_ascii c"
  using utf8_piece_taken by (fastforce simp: in_set_conv_nth)

lemma prefix_ascii_high:
  "list_all is_ascii p \<Longrightarrow> xs \<noteq> [] \<Longrightarrow> \<forall>x \<in> set xs. \<not> is_ascii x \<Longrightarrow>
   prefix p (xs @ ys) \<longleftrightarrow> p = []"
  by (cases p; cases xs) auto

lemma contains_ascii_high:
  "list_all is_ascii p \<Longrightarrow> p \<noteq> [] \<Longrightarrow> \<forall>x \<in> set xs. \<not> is_ascii x \<Longrightarrow>
   str_contains (xs @ ys) p \<longleftrightarrow> str_contains ys p"
proof (induction xs)
  case (Cons x xs)
  then have "\<not> prefix p (x # xs @ ys)" by (cases p) auto
  with Cons show ?case by simp
qed simp

text \<open>The first piece of a non-ASCII byte, before and after decoding, as one block.\<close>

lemma utf8_lossy_block:
  assumes "\<not> is_ascii b"
  obtains us vs rest where "us \<noteq> []" "vs \<noteq> []" "b # bs = us @ rest"
    "utf8_lossy (b # bs) = vs @ utf8_lossy rest" "length rest < length (b # bs)"
    "\<forall>x \<in> set us. \<not> is_ascii x" "\<forall>x \<in> set vs. \<not> is_ascii x"
proof -
  obtain ok k where piece: "utf8_piece b bs = (ok, k)" by fastforce
  have high: "\<forall>c \<in> set (take k bs). \<not> is_ascii c"
    using utf8_piece_take_high[OF piece] by blast
  have "b # bs = (b # take k bs) @ drop k bs" by simp
  moreover have "utf8_lossy (b # bs) =
      (if ok then b # take k bs else replacement) @ utf8_lossy (drop k bs)"
    by (simp add: piece)
  moreover have "\<forall>x \<in> set (if ok then b # take k bs else replacement). \<not> is_ascii x"
    using high assms by (auto simp: replacement_def is_ascii_def)
  ultimately show ?thesis
    using high assms
    by (intro that[of "b # take k bs" "if ok then b # take k bs else replacement" "drop k bs"])
      (auto simp: replacement_def)
qed

lemma prefix_utf8_lossy:
  "list_all is_ascii p \<Longrightarrow> prefix p (utf8_lossy bs) \<longleftrightarrow> prefix p bs"
proof (induction bs arbitrary: p rule: length_induct)
  case (1 bs)
  show ?case
  proof (cases bs)
    case (Cons b bs')
    show ?thesis
    proof (cases "is_ascii b")
      case True
      with 1 Cons show ?thesis
        by (cases p) (auto simp: utf8_piece_ascii)
    next
      case False
      then obtain us vs rest where "us \<noteq> []" "vs \<noteq> []" "b # bs' = us @ rest"
        "utf8_lossy (b # bs') = vs @ utf8_lossy rest"
        "\<forall>x \<in> set us. \<not> is_ascii x" "\<forall>x \<in> set vs. \<not> is_ascii x"
        by (rule utf8_lossy_block)
      with 1(2) Cons show ?thesis by (metis prefix_ascii_high)
    qed
  qed simp
qed

lemma contains_utf8_lossy:
  "list_all is_ascii p \<Longrightarrow> p \<noteq> [] \<Longrightarrow> str_contains (utf8_lossy bs) p \<longleftrightarrow> str_contains bs p"
proof (induction bs rule: length_induct)
  case (1 bs)
  show ?case
  proof (cases bs)
    case (Cons b bs')
    show ?thesis
    proof (cases "is_ascii b")
      case True
      then have "utf8_lossy bs = b # utf8_lossy bs'" by (simp add: Cons utf8_piece_ascii)
      moreover have "prefix p (b # utf8_lossy bs') \<longleftrightarrow> prefix p (b # bs')"
        using prefix_utf8_lossy[OF 1(2), of bs] calculation Cons by simp
      ultimately show ?thesis using 1 Cons by simp
    next
      case False
      then obtain us vs rest where block: "us \<noteq> []" "vs \<noteq> []" "b # bs' = us @ rest"
        "utf8_lossy (b # bs') = vs @ utf8_lossy rest" "length rest < length (b # bs')"
        "\<forall>x \<in> set us. \<not> is_ascii x" "\<forall>x \<in> set vs. \<not> is_ascii x"
        by (rule utf8_lossy_block)
      have "str_contains (utf8_lossy bs) p \<longleftrightarrow> str_contains (utf8_lossy rest) p"
        using contains_ascii_high[OF 1(2,3) block(7)] block(4) Cons by simp
      moreover have "str_contains bs p \<longleftrightarrow> str_contains rest p"
        using contains_ascii_high[OF 1(2,3) block(6)] block(3) Cons by simp
      ultimately show ?thesis using 1 block(5) Cons by simp
    qed
  qed simp
qed

end
