(* ===== verification/Net_Interface.thy ===== *)
theory Net_Interface imports Quik_Error "HOL-Library.Monad_Syntax" begin

text \<open>
  The foreign interfaces the client code dials through: the \<open>url\<close> crate and tokio's TCP stream.
  Each is a record of operations that the model's definitions take as an argument, with a locale
  that states the documented behaviour some property relies on and an instance for evaluation.
  State outside the program is an opaque world \<open>'w\<close>; a stream is a number the operations know.
\<close>

section \<open>Addresses and TCP streams\<close>

datatype sockaddr = SockV4 string u16 | SockV6 string u16

fun is_ipv6 :: "sockaddr \<Rightarrow> bool" where
  "is_ipv6 (SockV4 a p) = False"
| "is_ipv6 (SockV6 a p) = True"

type_synonym stream = nat

text \<open>
  \<open>tcp_read s n\<close> is \<open>read\<close> on a buffer of \<open>n\<close> bytes: the bytes read, none at the end of the
  stream or for an empty buffer. \<open>tcp_read_exact s n\<close> fills the buffer or fails.
\<close>

record 'w tcp_ops =
  tcp_connect :: "string \<Rightarrow> 'w \<Rightarrow> (io_error + stream) \<times> 'w"
  tcp_connect_addr :: "sockaddr \<Rightarrow> 'w \<Rightarrow> (io_error + stream) \<times> 'w"
  tcp_write_all :: "stream \<Rightarrow> byte list \<Rightarrow> 'w \<Rightarrow> (io_error + unit) \<times> 'w"
  tcp_read :: "stream \<Rightarrow> nat \<Rightarrow> 'w \<Rightarrow> (io_error + byte list) \<times> 'w"
  tcp_read_exact :: "stream \<Rightarrow> nat \<Rightarrow> 'w \<Rightarrow> (io_error + byte list) \<times> 'w"

text \<open>
  A stream whose peer will send the bytes \<open>pend\<close> and then close. How TCP cuts them into reads is
  left open: a read returns some non-empty prefix that fits the buffer.
\<close>

locale tcp_peer =
  fixes T :: "'w tcp_ops" and s :: stream
    and pend :: "'w \<Rightarrow> byte list" and sent :: "'w \<Rightarrow> byte list"
  assumes peer_read: "\<exists>k w'. tcp_read T s n w = (Inr (take k (pend w)), w') \<and> k \<le> n \<and>
      (0 < n \<longrightarrow> pend w \<noteq> [] \<longrightarrow> 0 < k) \<and> pend w' = drop k (pend w) \<and> sent w' = sent w"
    and peer_write: "\<exists>w'. tcp_write_all T s bs w = (Inr (), w') \<and> pend w' = pend w \<and>
      sent w' = sent w @ bs"
    and peer_read_exact: "n \<le> length (pend w) \<Longrightarrow>
      \<exists>w'. tcp_read_exact T s n w = (Inr (take n (pend w)), w') \<and>
        pend w' = drop n (pend w) \<and> sent w' = sent w"
    and peer_eof: "length (pend w) < n \<Longrightarrow>
      \<exists>m w'. tcp_read_exact T s n w = (Inl \<lparr>io_kind = UnexpectedEof, io_msg = m\<rparr>, w') \<and>
        sent w' = sent w"

text \<open>A peer held in memory: the segments it will send, and what it has received.\<close>

type_synonym mem_peer = "byte list list \<times> byte list"

fun drop_segments :: "nat \<Rightarrow> byte list list \<Rightarrow> byte list list" where
  "drop_segments n [] = []"
| "drop_segments n (c # cs) =
    (if n < length c then drop n c # cs else drop_segments (n - length c) cs)"

fun mem_read :: "nat \<Rightarrow> mem_peer \<Rightarrow> (io_error + byte list) \<times> mem_peer" where
  "mem_read n ([], out) = (Inr [], ([], out))"
| "mem_read n ([] # cs, out) = mem_read n (cs, out)"
| "mem_read n ((b # bs) # cs, out) =
    (if length (b # bs) \<le> n then (Inr (b # bs), (cs, out))
     else (Inr (take n (b # bs)), (drop n (b # bs) # cs, out)))"

definition mem_tcp :: "mem_peer tcp_ops" where
  "mem_tcp = \<lparr>
     tcp_connect = (\<lambda>a w. (Inr 0, w)),
     tcp_connect_addr = (\<lambda>a w. (Inr 0, w)),
     tcp_write_all = (\<lambda>s bs w. (Inr (), (fst w, snd w @ bs))),
     tcp_read = (\<lambda>s n w. mem_read n w),
     tcp_read_exact = (\<lambda>s n w.
       if n \<le> length (concat (fst w))
       then (Inr (take n (concat (fst w))), (drop_segments n (fst w), snd w))
       else (Inl \<lparr>io_kind = UnexpectedEof, io_msg = ''early eof''\<rparr>, w)) \<rparr>"

lemma concat_drop_segments: "concat (drop_segments n cs) = drop n (concat cs)"
  by (induction n cs rule: drop_segments.induct) auto

lemma mem_read_prefix:
  "\<exists>k w'. mem_read n w = (Inr (take k (concat (fst w))), w') \<and> k \<le> n \<and>
     (0 < n \<longrightarrow> concat (fst w) \<noteq> [] \<longrightarrow> 0 < k) \<and>
     concat (fst w') = drop k (concat (fst w)) \<and> snd w' = snd w"
proof (induction n w rule: mem_read.induct)
  case (1 n out)
  show ?case by (rule exI[of _ 0]) simp
next
  case (3 n b bs cs out)
  show ?case
  proof (cases "length (b # bs) \<le> n")
    case True
    then show ?thesis by (intro exI[of _ "length (b # bs)"]) simp
  next
    case False
    then show ?thesis by (intro exI[of _ n]) (auto simp: take_Cons' drop_Cons')
  qed
qed simp

interpretation mem: tcp_peer mem_tcp s "\<lambda>w. concat (fst w)" snd
proof unfold_locales
  fix n w
  show "\<exists>k w'. tcp_read mem_tcp s n w = (Inr (take k (concat (fst w))), w') \<and> k \<le> n \<and>
      (0 < n \<longrightarrow> concat (fst w) \<noteq> [] \<longrightarrow> 0 < k) \<and> concat (fst w') = drop k (concat (fst w)) \<and>
      snd w' = snd w"
    using mem_read_prefix by (simp add: mem_tcp_def)
qed (simp_all add: mem_tcp_def concat_drop_segments)

section \<open>URLs\<close>

record 'u url_ops =
  url_parse :: "string \<Rightarrow> string + 'u"
  url_join :: "'u \<Rightarrow> string \<Rightarrow> string + 'u"
  url_as_str :: "'u \<Rightarrow> string"
  url_scheme :: "'u \<Rightarrow> string"
  url_host_str :: "'u \<Rightarrow> string option"
  url_domain :: "'u \<Rightarrow> string option"
  url_port :: "'u \<Rightarrow> u16 option"
  url_origin_ascii :: "'u \<Rightarrow> string"
  url_same_origin :: "'u \<Rightarrow> 'u \<Rightarrow> bool"

text \<open>
  A small URL type for evaluation: scheme, host, explicit port (dropped when it is the scheme's
  default, as the crate does), and the rest. A host of digits and dots is an IP address, which
  has no domain; references are absolute URLs or absolute paths.
\<close>

record web_url =
  wu_scheme :: string
  wu_host :: string
  wu_port :: "u16 option"
  wu_rest :: string

definition scheme_port :: "string \<Rightarrow> u16 option" where
  "scheme_port sch = (if sch = ''http'' then Some 80 else if sch = ''https'' then Some 443 else None)"

definition web_ip :: "string \<Rightarrow> bool" where
  "web_ip h = list_all (\<lambda>c. is_digit c \<or> c = CHR ''.'') h"

definition web_parse_with :: "string \<Rightarrow> string \<Rightarrow> web_url" where
  "web_parse_with sch r =
    (let auth = takeWhile (\<lambda>c. c \<noteq> CHR ''/'') r;
         host = takeWhile (\<lambda>c. c \<noteq> CHR '':'') auth;
         ptxt = drop (Suc (length host)) auth;
         port = (if ptxt = [] then None else Some (of_nat (parse_digits 0 ptxt)));
         rest = drop (length auth) r
     in \<lparr> wu_scheme = sch, wu_host = host,
          wu_port = (if port = scheme_port sch then None else port),
          wu_rest = (if rest = [] then ''/'' else rest) \<rparr>)"

definition web_parse :: "string \<Rightarrow> string + web_url" where
  "web_parse t =
    (case strip_prefix ''https://'' t of Some r \<Rightarrow> Inr (web_parse_with ''https'' r) | None \<Rightarrow>
     case strip_prefix ''http://'' t of Some r \<Rightarrow> Inr (web_parse_with ''http'' r) | None \<Rightarrow>
     case strip_prefix ''socks5://'' t of Some r \<Rightarrow> Inr (web_parse_with ''socks5'' r) | None \<Rightarrow>
     Inl ''relative URL without a base'')"

definition web_origin :: "web_url \<Rightarrow> string" where
  "web_origin u = wu_scheme u @ ''://'' @ wu_host u @
     (case wu_port u of None \<Rightarrow> [] | Some p \<Rightarrow> '':'' @ show_word p)"

definition web_urls :: "web_url url_ops" where
  "web_urls = \<lparr>
     url_parse = web_parse,
     url_join = (\<lambda>u t. if starts_with t ''/'' then Inr (u\<lparr>wu_rest := t\<rparr>) else web_parse t),
     url_as_str = (\<lambda>u. web_origin u @ wu_rest u),
     url_scheme = wu_scheme,
     url_host_str = (\<lambda>u. Some (wu_host u)),
     url_domain = (\<lambda>u. if web_ip (wu_host u) then None else Some (wu_host u)),
     url_port = wu_port,
     url_origin_ascii = web_origin,
     url_same_origin = (\<lambda>u v. web_origin u = web_origin v) \<rparr>"

text \<open>A parsed URL reports its port only when it is not the default of its scheme.\<close>

locale url_crate =
  fixes U :: "'u url_ops"
  assumes parse_port: "url_parse U t = Inr u \<Longrightarrow> scheme_port (url_scheme U u) = Some p \<Longrightarrow>
      url_port U u \<noteq> Some p"
    and join_port: "url_join U b t = Inr u \<Longrightarrow> url_parse U r = Inr b \<Longrightarrow>
      scheme_port (url_scheme U u) = Some p \<Longrightarrow> url_port U u \<noteq> Some p"

lemma web_parse_with_simps:
  "wu_scheme (web_parse_with sch r) = sch"
  "scheme_port sch = Some p \<Longrightarrow> wu_port (web_parse_with sch r) \<noteq> Some p"
  by (simp_all add: web_parse_with_def Let_def)

lemma web_parse_port:
  "web_parse t = Inr u \<Longrightarrow> scheme_port (wu_scheme u) = Some p \<Longrightarrow> wu_port u \<noteq> Some p"
  by (auto simp: web_parse_def web_parse_with_simps split: option.splits)

interpretation web: url_crate web_urls
  by unfold_locales (auto simp: web_urls_def web_parse_port split: if_splits)

end
