(* ===== verification/Proxy.thy ===== *)
theory Proxy imports Net_Interface Utf8 begin

text \<open>
  \<open>src/client/proxy.rs\<close>: parsing a proxy URL and the two tunnelling handshakes that run before
  TLS, HTTP CONNECT and SOCKS5. The CONNECT loop accumulates reads in a buffer of 4096 bytes; it
  is a partial function, proved total for every TCP stream that keeps to its contract.
\<close>

section \<open>Proxy URLs\<close>

datatype proxy = HttpProxy string | Socks5Proxy string

definition unwrap_or :: "'a option \<Rightarrow> 'a \<Rightarrow> 'a" where
  "unwrap_or x d = (case x of Some y \<Rightarrow> y | None \<Rightarrow> d)"

definition proxy_parse :: "'u url_ops \<Rightarrow> string \<Rightarrow> quik_error + proxy" where
  "proxy_parse U url =
    and_then (map_err InvalidUrl (url_parse U url)) (\<lambda>parsed.
    let addr = unwrap_or (url_host_str U parsed) [] @ '':'' @
               show_word (unwrap_or (url_port U parsed) 1080)
    in if url_scheme U parsed = ''http'' then Inr (HttpProxy addr)
       else if url_scheme U parsed = ''socks5'' then Inr (Socks5Proxy addr)
       else Inl (InvalidUrl ''Unsupported proxy scheme''))"

section \<open>HTTP CONNECT\<close>

definition crlf :: string where
  "crlf = [CHR 0x0D, CHR 0x0A]"

definition connect_request :: "string \<Rightarrow> u16 \<Rightarrow> string" where
  "connect_request target_host target_port =
     ''CONNECT '' @ target_host @ '':'' @ show_word target_port @ '' HTTP/1.1'' @ crlf @
     ''Host: '' @ target_host @ '':'' @ show_word target_port @ crlf @ crlf"

text \<open>\<open>response.lines().next()\<close>: up to the first line feed, without a trailing carriage return.\<close>

definition first_line :: "string \<Rightarrow> string option" where
  "first_line s =
    (if s = [] then None
     else let l = takeWhile (\<lambda>c. c \<noteq> CHR 0x0A) s
          in Some (if l \<noteq> [] \<and> last l = CHR 0x0D then butlast l else l))"

definition connect_aborted :: quik_error where
  "connect_aborted = Connect \<lparr>io_kind = ConnectionAborted,
     io_msg = ''Proxy closed connection during CONNECT handshake''\<rparr>"

text \<open>
  The loop: \<open>buf\<close> holds the bytes read so far (\<open>read_bytes\<close> is its length), and each read may
  fill what is left of the 4096.
\<close>

partial_function (option) connect_loop ::
  "'w tcp_ops \<Rightarrow> stream \<Rightarrow> byte list \<Rightarrow> 'w \<Rightarrow> ((quik_error + stream) \<times> 'w) option" where
  "connect_loop T s buf w =
    (case tcp_read T s (4096 - length buf) w of
       (Inl e, w') \<Rightarrow> Some (Inl (Connect e), w')
     | (Inr bs, w') \<Rightarrow>
         (if bs = [] then Some (Inl connect_aborted, w')
          else let buf' = buf @ bs;
                   response = of_bytes (utf8_lossy buf')
               in if str_contains response (crlf @ crlf)
                  then if starts_with response ''HTTP/1.1 200'' \<or> starts_with response ''HTTP/1.0 200''
                       then Some (Inr s, w')
                       else Some (Inl (connect_other (''HTTP proxy returned error status: '' @
                              unwrap_or (first_line response) ''Unknown'')), w')
                  else connect_loop T s buf' w'))"

declare connect_loop.simps [code]

definition dial_http_proxy ::
  "'w tcp_ops \<Rightarrow> string \<Rightarrow> string \<Rightarrow> u16 \<Rightarrow> 'w \<Rightarrow> ((quik_error + stream) \<times> 'w) option" where
  "dial_http_proxy T proxy_addr target_host target_port w =
    (case tcp_connect T proxy_addr w of
       (Inl e, w) \<Rightarrow> Some (Inl (Connect e), w)
     | (Inr s, w) \<Rightarrow>
         (case tcp_write_all T s (as_bytes (connect_request target_host target_port)) w of
            (Inl e, w) \<Rightarrow> Some (Inl (Connect e), w)
          | (Inr _, w) \<Rightarrow> connect_loop T s [] w))"

section \<open>SOCKS5\<close>

definition socks_request :: "string \<Rightarrow> u16 \<Rightarrow> byte list" where
  "socks_request target_host target_port =
    (let host_bytes = as_bytes target_host in
     [0x05, 0x01, 0x00, 0x03, of_nat (length host_bytes)] @ host_bytes @ u16_be target_port)"

definition io_try :: "(io_error + 'a) \<times> 'w \<Rightarrow> (quik_error + 'a) \<times> 'w" where
  "io_try r = map_err_st Connect r"

definition socks_drain_addr ::
  "'w tcp_ops \<Rightarrow> stream \<Rightarrow> byte \<Rightarrow> 'w \<Rightarrow> (quik_error + unit) \<times> 'w" where
  "socks_drain_addr T s addr_type w =
    (if addr_type = 0x01 then try_st (io_try (tcp_read_exact T s 4 w)) (\<lambda>_ w. (Inr (), w))
     else if addr_type = 0x03 then
       try_st (io_try (tcp_read_exact T s 1 w)) (\<lambda>len w.
       try_st (io_try (tcp_read_exact T s (byte_at len 0) w)) (\<lambda>_ w. (Inr (), w)))
     else if addr_type = 0x04 then try_st (io_try (tcp_read_exact T s 16 w)) (\<lambda>_ w. (Inr (), w))
     else (Inl (connect_other ''SOCKS5 server returned unsupported address type''), w))"

definition dial_socks5_proxy ::
  "'w tcp_ops \<Rightarrow> string \<Rightarrow> string \<Rightarrow> u16 \<Rightarrow> 'w \<Rightarrow> (quik_error + stream) \<times> 'w" where
  "dial_socks5_proxy T proxy_addr target_host target_port w =
    try_st (io_try (tcp_connect T proxy_addr w)) (\<lambda>s w.
    try_st (io_try (tcp_write_all T s [0x05, 0x01, 0x00] w)) (\<lambda>_ w.
    try_st (io_try (tcp_read_exact T s 2 w)) (\<lambda>response w.
    if byte_at response 0 \<noteq> 0x05 \<or> byte_at response 1 \<noteq> 0x00
    then (Inl (connect_other (''SOCKS5 server rejected '' @ [CHR 0x27] @ ''No Authentication'' @
                [CHR 0x27] @ '' method'')), w)
    else
    try_st (io_try (tcp_write_all T s (socks_request target_host target_port) w)) (\<lambda>_ w.
    try_st (io_try (tcp_read_exact T s 4 w)) (\<lambda>resp_header w.
    if byte_at resp_header 0 \<noteq> 0x05 \<or> byte_at resp_header 1 \<noteq> 0x00
    then (Inl (connect_other (''SOCKS5 connection request failed with status code: '' @
                show_nat (byte_at resp_header 1))), w)
    else
    try_st (socks_drain_addr T s (of_nat (byte_at resp_header 3)) w) (\<lambda>_ w.
    try_st (io_try (tcp_read_exact T s 2 w)) (\<lambda>_ w.
    (Inr s, w))))))))"

definition dial_proxy ::
  "'w tcp_ops \<Rightarrow> proxy \<Rightarrow> string \<Rightarrow> u16 \<Rightarrow> 'w \<Rightarrow> ((quik_error + stream) \<times> 'w) option" where
  "dial_proxy T p target_host target_port w =
    (case p of
       HttpProxy addr \<Rightarrow> dial_http_proxy T addr target_host target_port w
     | Socks5Proxy addr \<Rightarrow> Some (dial_socks5_proxy T addr target_host target_port w))"

section \<open>The CONNECT loop against a peer\<close>

text \<open>
  What decides the handshake, on the bytes the proxy will send: whether the blank line ends
  within the buffer, and whether the status line announces success.
\<close>

definition head_terminated :: "byte list \<Rightarrow> bool" where
  "head_terminated bs \<longleftrightarrow> str_contains bs (as_bytes (crlf @ crlf))"

definition tunnel_granted :: "byte list \<Rightarrow> bool" where
  "tunnel_granted bs \<longleftrightarrow>
     prefix (as_bytes ''HTTP/1.1 200'') bs \<or> prefix (as_bytes ''HTTP/1.0 200'') bs"

lemma ascii_patterns:
  "list_all is_ascii (as_bytes (crlf @ crlf))" "as_bytes (crlf @ crlf) \<noteq> []"
  "list_all is_ascii (as_bytes ''HTTP/1.1 200'')" "list_all is_ascii (as_bytes ''HTTP/1.0 200'')"
  by (simp_all add: as_bytes_def crlf_def is_ascii_def)

text \<open>Decoding the buffer as text changes neither test.\<close>

lemma lossy_tests:
  "str_contains (of_bytes (utf8_lossy bs)) (crlf @ crlf) \<longleftrightarrow> head_terminated bs"
  "starts_with (of_bytes (utf8_lossy bs)) ''HTTP/1.1 200'' \<or>
   starts_with (of_bytes (utf8_lossy bs)) ''HTTP/1.0 200'' \<longleftrightarrow> tunnel_granted bs"
  unfolding head_terminated_def tunnel_granted_def starts_with_def
  by (simp_all only: contains_of_bytes prefix_of_bytes contains_utf8_lossy[OF ascii_patterns(1,2)]
      prefix_utf8_lossy[OF ascii_patterns(3)] prefix_utf8_lossy[OF ascii_patterns(4)])

text \<open>Once the blank line is in the buffer, later bytes cannot change the verdict.\<close>

lemma prefix_before_cr:
  assumes "head_terminated bs" "13 \<notin> set p"
  shows "prefix p (bs @ cs) \<longleftrightarrow> prefix p bs"
proof
  assume "prefix p (bs @ cs)"
  then have "prefix p bs \<or> prefix bs p"
    using prefix_same_cases[of p "bs @ cs" bs] by auto
  moreover have "\<not> prefix bs p"
  proof
    assume "prefix bs p"
    then have "set bs \<subseteq> set p" by (rule set_mono_prefix)
    moreover have "13 \<in> set bs"
      using assms(1) by (auto simp: head_terminated_def str_contains_sublist sublist_def as_bytes_def crlf_def)
    ultimately show False using assms(2) by blast
  qed
  ultimately show "prefix p bs" by blast
qed (rule prefix_prefix)

lemma tunnel_granted_extend:
  "head_terminated bs \<Longrightarrow> tunnel_granted (bs @ cs) \<longleftrightarrow> tunnel_granted bs"
  by (simp add: tunnel_granted_def prefix_before_cr as_bytes_def)

definition connect_verdict :: "stream \<Rightarrow> byte list \<Rightarrow> quik_error + stream \<Rightarrow> bool" where
  "connect_verdict s bs r \<longleftrightarrow>
     (if head_terminated (take 4096 bs)
      then if tunnel_granted bs then r = Inr s else (\<exists>m. r = Inl (connect_other m))
      else r = Inl connect_aborted)"

context tcp_peer begin

lemma connect_loop_verdict:
  assumes "length buf \<le> 4096" "\<not> head_terminated buf"
  shows "\<exists>r w'. connect_loop T s buf w = Some (r, w') \<and> sent w' = sent w \<and>
    connect_verdict s (buf @ pend w) r"
  using assms
proof (induction "4096 - length buf" arbitrary: buf w rule: less_induct)
  case less
  let ?n = "4096 - length buf"
  obtain k w1 where rd: "tcp_read T s ?n w = (Inr (take k (pend w)), w1)" "k \<le> ?n"
    "0 < ?n \<longrightarrow> pend w \<noteq> [] \<longrightarrow> 0 < k" "pend w1 = drop k (pend w)" "sent w1 = sent w"
    using peer_read by blast
  let ?bs = "take k (pend w)"
  show ?case
  proof (cases "?bs = []")
    case True
    with rd(2,3) less.prems(1) have "length buf = 4096 \<or> pend w = []" by auto
    then have "take 4096 (buf @ pend w) = buf" using less.prems(1) by auto
    with less.prems(2) have "\<not> head_terminated (take 4096 (buf @ pend w))" by simp
    with True rd show ?thesis
      by (subst connect_loop.simps) (simp add: connect_verdict_def del: take_append)
  next
    case False
    let ?buf' = "buf @ ?bs"
    have all: "?buf' @ pend w1 = buf @ pend w" using rd(4) by simp
    have len: "length ?buf' \<le> 4096" using rd(2) less.prems(1) by auto
    show ?thesis
    proof (cases "head_terminated ?buf'")
      case True
      have "take 4096 (buf @ pend w) = ?buf' @ take (4096 - length ?buf') (pend w1)"
        using len by (metis all take_append take_all)
      then have "head_terminated (take 4096 (buf @ pend w))"
        using True by (simp add: head_terminated_def str_contains_extend del: append_assoc)
      moreover have "tunnel_granted (buf @ pend w) \<longleftrightarrow> tunnel_granted ?buf'"
        using tunnel_granted_extend[OF True, of "pend w1"] all by simp
      ultimately show ?thesis
        using rd False True by (subst connect_loop.simps)
          (auto simp: Let_def lossy_tests connect_verdict_def)
    next
      case not: False
      have "4096 - length ?buf' < ?n" using False len by (cases ?bs) auto
      from less.hyps[OF this len not, of w1] all rd(5)
      obtain r w' where "connect_loop T s ?buf' w1 = Some (r, w')" "sent w' = sent w"
        "connect_verdict s (buf @ pend w) r"
        by auto
      then show ?thesis
        using rd(1) False not by (subst connect_loop.simps) (simp add: Let_def lossy_tests)
    qed
  qed
qed

lemma dial_http_verdict:
  assumes "tcp_connect T addr w = (Inr s, w1)"
  shows "\<exists>r w'. dial_http_proxy T addr host p w = Some (r, w') \<and>
    sent w' = sent w1 @ as_bytes (connect_request host p) \<and> connect_verdict s (pend w1) r"
proof -
  obtain w2 where w2: "tcp_write_all T s (as_bytes (connect_request host p)) w1 = (Inr (), w2)"
    "pend w2 = pend w1" "sent w2 = sent w1 @ as_bytes (connect_request host p)"
    using peer_write by blast
  have "\<not> head_terminated []" by (simp add: head_terminated_def as_bytes_def crlf_def)
  from connect_loop_verdict[OF _ this, of w2] w2 assms show ?thesis
    by (auto simp: dial_http_proxy_def)
qed

end

section \<open>SOCKS5 against a peer\<close>

text \<open>
  What the server's half of the exchange (RFC 1928) says, read off its bytes: the method
  selection, the reply to the request, the bound address by its type, the bound port.
\<close>

datatype socks_outcome =
    Tunnel "byte list"
  | MethodRejected
  | RequestFailed nat
  | BadAddressType
  | Truncated

fun skip_bytes :: "nat \<Rightarrow> byte list \<Rightarrow> socks_outcome" where
  "skip_bytes n bs = (if n \<le> length bs then Tunnel (drop n bs) else Truncated)"

fun socks_bound_addr :: "byte \<Rightarrow> byte list \<Rightarrow> socks_outcome" where
  "socks_bound_addr t bs =
    (if t = 1 then skip_bytes 6 bs
     else if t = 3 then (case bs of [] \<Rightarrow> Truncated | n # bs' \<Rightarrow> skip_bytes (unat n + 2) bs')
     else if t = 4 then skip_bytes 18 bs
     else BadAddressType)"

fun socks_reply :: "byte list \<Rightarrow> socks_outcome" where
  "socks_reply (v # st # rsv # t # bs) =
     (if v \<noteq> 5 \<or> st \<noteq> 0 then RequestFailed (unat st) else socks_bound_addr t bs)"
| "socks_reply bs = Truncated"

fun socks_exchange :: "byte list \<Rightarrow> socks_outcome" where
  "socks_exchange (v # m # bs) = (if v \<noteq> 5 \<or> m \<noteq> 0 then MethodRejected else socks_reply bs)"
| "socks_exchange bs = Truncated"

fun outcome_result :: "stream \<Rightarrow> socks_outcome \<Rightarrow> quik_error + stream \<Rightarrow> bool" where
  "outcome_result s (Tunnel rest) r = (r = Inr s)"
| "outcome_result s MethodRejected r =
     (r = Inl (connect_other (''SOCKS5 server rejected '' @ [CHR 0x27] @ ''No Authentication'' @
                [CHR 0x27] @ '' method'')))"
| "outcome_result s (RequestFailed n) r =
     (r = Inl (connect_other (''SOCKS5 connection request failed with status code: '' @ show_nat n)))"
| "outcome_result s BadAddressType r =
     (r = Inl (connect_other ''SOCKS5 server returned unsupported address type''))"
| "outcome_result s Truncated r =
     (\<exists>m. r = Inl (Connect \<lparr>io_kind = UnexpectedEof, io_msg = m\<rparr>))"

text \<open>The server's reading of a CONNECT request with a domain name.\<close>

fun socks_read_request :: "byte list \<Rightarrow> (string \<times> u16) option" where
  "socks_read_request (v # c # rsv # t # n # bs) =
     (if v = 5 \<and> c = 1 \<and> rsv = 0 \<and> t = 3 \<and> length bs = unat n + 2
      then Some (of_bytes (take (unat n) bs), be_u16 (bs ! unat n) (bs ! Suc (unat n))) else None)"
| "socks_read_request bs = None"

text \<open>
  A step of the handshake has an outcome: its result is the outcome's, it sends nothing, and a
  tunnel is handed over at the byte where the outcome says.
\<close>

definition has_outcome ::
  "stream \<Rightarrow> ('w \<Rightarrow> byte list) \<Rightarrow> ('w \<Rightarrow> byte list) \<Rightarrow> socks_outcome \<Rightarrow>
   (quik_error + stream) \<times> 'w \<Rightarrow> byte list \<Rightarrow> bool" where
  "has_outcome s pend sent oc rw out \<longleftrightarrow> outcome_result s oc (fst rw) \<and> sent (snd rw) = out \<and>
     (\<forall>rest. oc = Tunnel rest \<longrightarrow> pend (snd rw) = rest)"

lemma unat_byte_five: "unat (b :: byte) = 5 \<longleftrightarrow> b = 5"
  by (simp add: word_unat_eq_iff)

lemma byte_at_low:
  "byte_at (a # b # bs) 1 = unat b" "byte_at (a # b # c # d # bs) 3 = unat d"
  by (simp_all add: byte_at_def nth_opt_eq)

context tcp_peer begin

abbreviation tunnels :: "socks_outcome \<Rightarrow> (quik_error + stream) \<times> 'w \<Rightarrow> 'w \<Rightarrow> bool" where
  "tunnels oc rw w \<equiv> has_outcome s pend sent oc rw (sent w)"

lemma read_exact_cases:
  obtains (full) w' where "n \<le> length (pend w)"
      "tcp_read_exact T s n w = (Inr (take n (pend w)), w')" "pend w' = drop n (pend w)" "sent w' = sent w"
    | (eof) m w' where "length (pend w) < n"
      "tcp_read_exact T s n w = (Inl \<lparr>io_kind = UnexpectedEof, io_msg = m\<rparr>, w')" "sent w' = sent w"
  using peer_read_exact[of n w] peer_eof[of w n] by (meson not_le)

lemma read_then_port:
  "tunnels (skip_bytes (n + 2) (pend w))
     (try_st (io_try (tcp_read_exact T s n w)) (\<lambda>_ w.
      try_st (io_try (tcp_read_exact T s 2 w)) (\<lambda>_ w. (Inr s, w)))) w"
proof (cases n w rule: read_exact_cases)
  case (full w1)
  show ?thesis
  proof (cases "2 :: nat" w1 rule: read_exact_cases)
    case (full w2)
    with \<open>n \<le> _\<close> \<open>tcp_read_exact T s n w = _\<close> \<open>pend w1 = _\<close> \<open>sent w1 = _\<close> show ?thesis
      by (auto simp: has_outcome_def io_try_def add.commute)
  next
    case (eof m w2)
    with full show ?thesis by (auto simp: has_outcome_def io_try_def)
  qed
next
  case (eof m w1)
  then show ?thesis by (auto simp: has_outcome_def io_try_def)
qed

lemma drain_then_port:
  "tunnels (socks_bound_addr t (pend w))
     (try_st (socks_drain_addr T s t w) (\<lambda>_ w.
      try_st (io_try (tcp_read_exact T s 2 w)) (\<lambda>_ w. (Inr s, w)))) w"
proof (cases "t = 3")
  case True
  show ?thesis
  proof (cases "1 :: nat" w rule: read_exact_cases)
    case (full w1)
    then obtain b bs where "pend w = b # bs" by (cases "pend w") auto
    with full True read_then_port[of "unat b" w1] show ?thesis
      by (simp add: has_outcome_def socks_drain_addr_def try_st_assoc io_try_def)
  next
    case (eof m w1)
    then show ?thesis using True
      by (simp add: has_outcome_def socks_drain_addr_def try_st_assoc io_try_def)
  qed
next
  case False
  have "tunnels BadAddressType
      (Inl (connect_other ''SOCKS5 server returned unsupported address type''), w) w"
    by (simp add: has_outcome_def)
  with False read_then_port[of 4 w] read_then_port[of 16 w] show ?thesis
    by (simp add: socks_drain_addr_def try_st_assoc)
qed

lemma request_then_reply:
  "tunnels (socks_reply (pend w))
     (try_st (io_try (tcp_read_exact T s 4 w)) (\<lambda>resp_header w.
      if byte_at resp_header 0 \<noteq> 0x05 \<or> byte_at resp_header 1 \<noteq> 0x00
      then (Inl (connect_other (''SOCKS5 connection request failed with status code: '' @
                  show_nat (byte_at resp_header 1))), w)
      else
      try_st (socks_drain_addr T s (of_nat (byte_at resp_header 3)) w) (\<lambda>_ w.
      try_st (io_try (tcp_read_exact T s 2 w)) (\<lambda>_ w. (Inr s, w))))) w"
proof (cases "4 :: nat" w rule: read_exact_cases)
  case (full w1)
  then obtain v st rsv t bs where "pend w = v # st # rsv # t # bs"
    by (auto simp: numeral_eq_Suc Suc_le_length_iff)
  with full drain_then_port[of t w1] show ?thesis
    by (simp add: has_outcome_def io_try_def unat_byte_five unat_eq_0 byte_at_low
        del: socks_bound_addr.simps)
next
  case (eof m w1)
  moreover have "socks_reply (pend w) = Truncated"
    using eof(1) by (cases "pend w" rule: socks_reply.cases) auto
  ultimately show ?thesis by (simp add: has_outcome_def io_try_def)
qed

lemma dial_socks5_outcome:
  assumes "tcp_connect T addr w = (Inr s, w1)"
  shows "has_outcome s pend sent (socks_exchange (pend w1)) (dial_socks5_proxy T addr host p w)
    (sent w1 @ [5, 1, 0] @ (if prefix [5, 0] (pend w1) then socks_request host p else []))"
proof -
  obtain w2 where w2: "tcp_write_all T s [5, 1, 0] w1 = (Inr (), w2)" "pend w2 = pend w1"
    "sent w2 = sent w1 @ [5, 1, 0]"
    using peer_write by blast
  show ?thesis
  proof (cases "2 :: nat" w2 rule: read_exact_cases)
    case (full w3)
    then obtain v m bs where bs: "pend w1 = v # m # bs"
      using w2(2) by (cases "pend w1" rule: socks_exchange.cases) auto
    obtain w4 where w4: "tcp_write_all T s (socks_request host p) w3 = (Inr (), w4)"
      "pend w4 = pend w3" "sent w4 = sent w3 @ socks_request host p"
      using peer_write by blast
    from full w2 w4 bs assms request_then_reply[of w4] show ?thesis
      by (auto simp: has_outcome_def dial_socks5_proxy_def io_try_def byte_at_low
          unat_byte_five unat_eq_0 simp del: socks_reply.simps)
  next
    case (eof m w3)
    then have "socks_exchange (pend w1) = Truncated" "\<not> prefix [5, 0] (pend w1)"
      using w2(2) by (cases "pend w1" rule: socks_exchange.cases; auto)+
    with eof w2 assms show ?thesis
      by (simp add: has_outcome_def dial_socks5_proxy_def io_try_def)
  qed
qed

end

lemma socks_request_readable:
  "socks_read_request (socks_request host p) = (if length host < 256 then Some (host, p) else None)"
proof -
  have "unat (of_nat (length host) :: byte) = length host mod 256" by (simp add: unat_of_nat)
  moreover have "length host \<noteq> length host mod 256" if "256 \<le> length host"
    using that by (metis mod_less_divisor not_le zero_less_numeral)
  ultimately show ?thesis
    by (auto simp: socks_request_def Let_def nth_append u16_be_def be_u16_u16_be)
qed

lemma digits_no_colon: "CHR '':'' \<notin> set (show_word w)"
  using show_nat_digits[of "unat w"] by (auto simp: show_word_def is_digit_def)

text \<open>A port written after the last colon of an address is read off it.\<close>

lemma port_suffix:
  assumes "h @ '':'' @ show_word p = h' @ '':'' @ d" "CHR '':'' \<notin> set d"
  shows "show_word p = d"
proof -
  have "takeWhile (\<lambda>c. c \<noteq> CHR '':'') (rev (h @ '':'' @ show_word p)) = rev (show_word p)"
    using digits_no_colon[of p] by (simp, intro takeWhile_stop) auto
  moreover have "takeWhile (\<lambda>c. c \<noteq> CHR '':'') (rev (h' @ '':'' @ d)) = rev d"
    using assms(2) by (simp, intro takeWhile_stop) auto
  ultimately have "rev (show_word p) = rev d" using assms(1) by metis
  then show ?thesis by simp
qed

section \<open>Properties\<close>


definition ok_segments :: "byte list list" where
  "ok_segments = [as_bytes ''HTTP/1.1 2'', as_bytes ''00 OK'' @ [13, 10, 13], [10, 22]]"


text \<open>
  C16 (refinement). The SOCKS5 handshake implements the reading of the server's bytes that the
  protocol gives: the tunnel starts exactly after the bound address and port whatever the address
  type, every refusal is the error of its case, a short reply is the end-of-stream error, and the
  CONNECT request is sent only to a server that chose the method without authentication.
\<close>

theorem socks5_dial_refines:
  assumes "tcp_peer T s pend sent" "tcp_connect T addr w = (Inr s, w1)"
  shows "\<exists>r w'. dial_proxy T (Socks5Proxy addr) host p w = Some (r, w') \<and>
    has_outcome s pend sent (socks_exchange (pend w1)) (r, w')
      (sent w1 @ [5, 1, 0] @ (if prefix [5, 0] (pend w1) then socks_request host p else []))"
  using tcp_peer.dial_socks5_outcome[OF assms, of host p]
  by (cases "dial_socks5_proxy T addr host p w") (simp add: dial_proxy_def)

theorem socks5_dial_refines_witness:
  "\<exists>w'. dial_proxy mem_tcp (Socks5Proxy ''p:1080'') ''quik.rs'' 443
      ([[5, 0], [5, 0, 0, 3, 2], [97, 98, 4, 56, 22]], []) = Some (Inr 0, w') \<and>
     concat (fst w') = [22] \<and> snd w' = [5, 1, 0] @ socks_request ''quik.rs'' 443"
  using socks5_dial_refines[OF mem.tcp_peer_axioms, of "''p:1080''"
      "([[5, 0], [5, 0, 0, 3, 2], [97, 98, 4, 56, 22]], [])" 0
      "([[5, 0], [5, 0, 0, 3, 2], [97, 98, 4, 56, 22]], [])" "''quik.rs''" 443]
  by (auto simp: has_outcome_def mem_tcp_def)

text \<open>
  The SOCKS5 request the client writes is read back by the server as the
  requested host and port when the host has at most 255 bytes, and is malformed when it is longer:
  its length byte is the host's length modulo 256.
\<close>

theorem socks_request_roundtrip:
  "socks_read_request (socks_request host p) = (if length host < 256 then Some (host, p) else None)"
  by (rule socks_request_readable)

text \<open>
  A proxy URL of the http scheme is never dialled on port 80: without a port,
  or with the scheme's own, the address gets the SOCKS port 1080.
\<close>

theorem http_proxy_never_port_80:
  assumes "url_crate U" "proxy_parse U url = Inr (HttpProxy a)"
  shows "\<exists>u. url_parse U url = Inr u \<and> url_scheme U u = ''http'' \<and> \<not> suffix '':80'' a \<and>
    (url_port U u = None \<longrightarrow> a = unwrap_or (url_host_str U u) [] @ '':1080'')"
proof -
  obtain u where u: "url_parse U url = Inr u" "url_scheme U u = ''http''"
    and a: "a = unwrap_or (url_host_str U u) [] @ '':'' @ show_word (unwrap_or (url_port U u) 1080)"
    using assms(2) by (auto simp: proxy_parse_def and_then_Inr_iff Let_def split: if_splits)
  have p80: "show_word (80 :: u16) = ''80''" "show_word (1080 :: u16) = ''1080''"
    by (simp_all add: show_word_def show_nat.simps)
  have "url_port U u \<noteq> Some 80"
    using url_crate.parse_port[OF assms(1) u(1)] u(2) by (simp add: scheme_port_def)
  then have "unwrap_or (url_port U u) 1080 \<noteq> 80"
    by (cases "url_port U u") (auto simp: unwrap_or_def)
  then have "show_word (unwrap_or (url_port U u) 1080) \<noteq> ''80''"
    by (metis p80(1) show_word_inject)
  then have "\<not> suffix '':80'' a"
    using port_suffix[of "unwrap_or (url_host_str U u) []" "unwrap_or (url_port U u) 1080" _ "''80''"]
    by (auto simp: suffix_def a)
  then show ?thesis using u a p80 by (auto simp: unwrap_or_def)
qed

theorem http_proxy_never_port_80_witness:
  "proxy_parse web_urls ''http://proxy.example:80'' = Inr (HttpProxy ''proxy.example:1080'') \<and>
   \<not> suffix '':80'' ''proxy.example:1080''"
proof -
  have "proxy_parse web_urls ''http://proxy.example:80'' = Inr (HttpProxy ''proxy.example:1080'')"
    by code_simp
  with http_proxy_never_port_80[OF web.url_crate_axioms this] show ?thesis by blast
qed

end
