(* ===== verification/Response.thy ===== *)
theory Response imports Request Utf8 Quik_Error begin

text \<open>
  \<open>src/client/response.rs\<close>: the response over either transport, collecting its body and undoing
  its content coding. The HTTP/2 body is a foreign stream of chunks (\<open>recv_ops\<close>); its locale
  states HTTP/2 flow control as a receiver sees it that gives no capacity back. The three codecs
  and the JSON reader are foreign too.
\<close>

section \<open>Foreign operations\<close>

text \<open>
  \<open>recv_data s\<close> awaits the next chunk of body stream \<open>s\<close>: \<open>None\<close> when the await never completes,
  otherwise the end of the stream, an error or a chunk.
\<close>

record 'w recv_ops =
  recv_data :: "nat \<Rightarrow> 'w \<Rightarrow> ((string + byte list) option \<times> 'w) option"

record codec_ops =
  codec_brotli :: "byte list \<Rightarrow> string + byte list"
  codec_zstd :: "byte list \<Rightarrow> string + byte list"
  codec_gzip :: "byte list \<Rightarrow> string + byte list"

section \<open>Responses\<close>

datatype response_body = BodyHttp2 nat | BodyHttp3 "byte list"

record 'h response =
  rs_status :: u16
  rs_headers :: 'h
  rs_body :: response_body
  rs_url :: string

definition response_new :: "u16 \<Rightarrow> 'h \<Rightarrow> response_body \<Rightarrow> string \<Rightarrow> 'h response" where
  "response_new status headers body url =
     \<lparr>rs_status = status, rs_headers = headers, rs_body = body, rs_url = url\<rparr>"

definition set_url :: "string \<Rightarrow> 'h response \<Rightarrow> 'h response" where
  "set_url url r = r\<lparr>rs_url := url\<rparr>"

text \<open>The loop of \<open>bytes\<close> over the chunks of an HTTP/2 body.\<close>

partial_function (option) collect_chunks ::
  "'w recv_ops \<Rightarrow> nat \<Rightarrow> byte list \<Rightarrow> 'w \<Rightarrow> ((quik_error + byte list) \<times> 'w) option" where
  "collect_chunks B s data w =
    (case recv_data B s w of
       None \<Rightarrow> None
     | Some (ev, w') \<Rightarrow>
         (case ev of
            None \<Rightarrow> Some (Inr data, w')
          | Some chunk \<Rightarrow>
              (case chunk of
                 Inl e \<Rightarrow> Some (Inl (Http2Error e), w')
               | Inr bs \<Rightarrow> collect_chunks B s (data @ bs) w')))"

declare collect_chunks.simps [code]

definition decode_body :: "codec_ops \<Rightarrow> string \<Rightarrow> byte list \<Rightarrow> quik_error + byte list" where
  "decode_body K encoding data =
    (if str_contains encoding ''br'' then map_err connect_other (codec_brotli K data)
     else if str_contains encoding ''zstd'' then map_err connect_other (codec_zstd K data)
     else if str_contains encoding ''gzip'' then map_err connect_other (codec_gzip K data)
     else Inr data)"

definition content_encoding :: "'h header_ops \<Rightarrow> 'h \<Rightarrow> string" where
  "content_encoding H headers =
    (case hm_get H headers ''content-encoding'' of
       Some v \<Rightarrow> (case hv_to_str H v of Some s \<Rightarrow> s | None \<Rightarrow> [])
     | None \<Rightarrow> [])"

definition response_bytes ::
  "'h header_ops \<Rightarrow> codec_ops \<Rightarrow> 'w recv_ops \<Rightarrow> 'h response \<Rightarrow> 'w \<Rightarrow>
   ((quik_error + byte list) \<times> 'w) option" where
  "response_bytes H K B r w =
    (case (case rs_body r of BodyHttp2 s \<Rightarrow> collect_chunks B s [] w
                           | BodyHttp3 d \<Rightarrow> Some (Inr d, w)) of
       None \<Rightarrow> None
     | Some (data, w') \<Rightarrow>
         Some (and_then data (decode_body K (content_encoding H (rs_headers r))), w'))"

text \<open>
  \<open>String::from_utf8\<close> with the text of its error: where the valid prefix ends, and how long the
  bad piece is unless the buffer ends inside it.
\<close>

function utf8_error :: "nat \<Rightarrow> byte list \<Rightarrow> (nat \<times> nat option) option" where
  "utf8_error i [] = None"
| "utf8_error i (b # bs) =
    (let (ok, k) = utf8_piece b bs in
     if ok then utf8_error (i + 1 + k) (drop k bs)
     else Some (i, if k = length bs \<and> 0xC2 \<le> unat b \<and> unat b \<le> 0xF4 then None else Some (k + 1)))"
  by pat_completeness auto
termination
  by (relation "measure (length \<circ> snd)") auto

definition utf8_error_text :: "nat \<times> nat option \<Rightarrow> string" where
  "utf8_error_text e =
    (case snd e of
       Some n \<Rightarrow> ''invalid utf-8 sequence of '' @ show_nat n @ '' bytes from index '' @ show_nat (fst e)
     | None \<Rightarrow> ''incomplete utf-8 byte sequence from index '' @ show_nat (fst e))"

definition from_utf8 :: "byte list \<Rightarrow> string + string" where
  "from_utf8 bs =
    (case utf8_error 0 bs of None \<Rightarrow> Inr (of_bytes bs) | Some e \<Rightarrow> Inl (utf8_error_text e))"

definition response_text ::
  "'h header_ops \<Rightarrow> codec_ops \<Rightarrow> 'w recv_ops \<Rightarrow> 'h response \<Rightarrow> 'w \<Rightarrow>
   ((quik_error + string) \<times> 'w) option" where
  "response_text H K B r w =
    (case response_bytes H K B r w of
       None \<Rightarrow> None
     | Some (bs, w') \<Rightarrow> Some (and_then bs (\<lambda>b. map_err connect_other (from_utf8 b)), w'))"

text \<open>\<open>json\<close>, with \<open>serde_json::from_slice\<close> as the argument \<open>parse\<close>.\<close>

definition response_json ::
  "(byte list \<Rightarrow> string + 'j) \<Rightarrow> 'h header_ops \<Rightarrow> codec_ops \<Rightarrow> 'w recv_ops \<Rightarrow> 'h response \<Rightarrow> 'w \<Rightarrow>
   ((quik_error + 'j) \<times> 'w) option" where
  "response_json parse H K B r w =
    (case response_bytes H K B r w of
       None \<Rightarrow> None
     | Some (bs, w') \<Rightarrow> Some (and_then bs (\<lambda>b. map_err connect_other (parse b)), w'))"

lemma utf8_error_None_iff: "utf8_error i bs = None \<longleftrightarrow> utf8_valid bs"
  by (induction i bs rule: utf8_error.induct) (auto split: prod.splits)

lemma from_utf8_Inr_iff: "from_utf8 bs = Inr s \<longleftrightarrow> utf8_valid bs \<and> s = of_bytes bs"
  using utf8_error_None_iff[of 0 bs] by (auto simp: from_utf8_def split: option.splits)

section \<open>Flow control\<close>

text \<open>
  A body stream under HTTP/2 flow control (RFC 9113, 5.2) whose receiver never releases capacity:
  the peer sends the bytes \<open>body_left\<close> in chunks of its choosing, within the window that is left,
  and waits when the window is used up.
\<close>

locale unreleased_stream =
  fixes B :: "'w recv_ops" and s :: nat
    and body_left :: "'w \<Rightarrow> byte list" and window :: "'w \<Rightarrow> nat"
  assumes recv_end: "body_left w = [] \<Longrightarrow> \<exists>w'. recv_data B s w = Some (None, w')"
    and recv_blocked: "body_left w \<noteq> [] \<Longrightarrow> window w = 0 \<Longrightarrow> recv_data B s w = None"
    and recv_chunk: "body_left w \<noteq> [] \<Longrightarrow> 0 < window w \<Longrightarrow>
      \<exists>k w'. recv_data B s w = Some (Some (Inr (take k (body_left w))), w') \<and>
        0 < k \<and> k \<le> window w \<and> k \<le> length (body_left w) \<and>
        body_left w' = drop k (body_left w) \<and> window w' = window w - k"
begin

lemma collect_chunks_window:
  "map_option fst (collect_chunks B s data w) =
    (if length (body_left w) \<le> window w then Some (Inr (data @ body_left w)) else None)"
proof (induction "length (body_left w)" arbitrary: data w rule: less_induct)
  case less
  consider (fin) "body_left w = []" | (blocked) "body_left w \<noteq> []" "window w = 0"
    | (chunk) "body_left w \<noteq> []" "0 < window w" by auto
  then show ?case
  proof cases
    case fin
    with recv_end[OF fin] show ?thesis by (subst collect_chunks.simps) auto
  next
    case blocked
    with recv_blocked[OF blocked] show ?thesis by (subst collect_chunks.simps) auto
  next
    case chunk
    from recv_chunk[OF chunk] obtain k w' where k:
      "recv_data B s w = Some (Some (Inr (take k (body_left w))), w')"
      "0 < k" "k \<le> window w" "k \<le> length (body_left w)"
      "body_left w' = drop k (body_left w)" "window w' = window w - k"
      by blast
    then have "length (body_left w') < length (body_left w)" using chunk by simp
    from less.hyps[OF this, of "data @ take k (body_left w)"] k show ?thesis
      by (subst collect_chunks.simps) auto
  qed
qed

end

text \<open>A body in memory: the bytes to come and the window.\<close>

definition mem_body :: "(byte list \<times> nat) recv_ops" where
  "mem_body = \<lparr>recv_data = (\<lambda>s (bs, win).
     if bs = [] then Some (None, (bs, win))
     else if win = 0 then None
     else let k = min 16384 (min win (length bs))
          in Some (Some (Inr (take k bs)), (drop k bs, win - k)))\<rparr>"

interpretation mem_body: unreleased_stream mem_body s fst snd
proof unfold_locales
  fix w :: "byte list \<times> nat"
  assume "fst w \<noteq> []" "0 < snd w"
  then show "\<exists>k w'. recv_data mem_body s w = Some (Some (Inr (take k (fst w))), w') \<and>
      0 < k \<and> k \<le> snd w \<and> k \<le> length (fst w) \<and> fst w' = drop k (fst w) \<and> snd w' = snd w - k"
    by (intro exI[of _ "min 16384 (min (snd w) (length (fst w)))"])
      (auto simp: mem_body_def Let_def split: prod.splits)
qed (auto simp: mem_body_def split: prod.splits)

section \<open>Properties\<close>

text \<open>
  C35 (liveness). Collecting an HTTP/2 body returns exactly when the body fits the flow-control
  window the stream started with, and then yields the decoded body; \<open>bytes\<close> gives no capacity
  back, so on a longer body it waits for ever.
\<close>

theorem bytes_returns_iff_body_fits:
  assumes "unreleased_stream B s body_left window" "rs_body r = BodyHttp2 s"
  shows "map_option fst (response_bytes H K B r w) =
    (if length (body_left w) \<le> window w
     then Some (decode_body K (content_encoding H (rs_headers r)) (body_left w)) else None)"
  using unreleased_stream.collect_chunks_window[OF assms(1), of "[]" w] assms(2)
  by (auto simp: response_bytes_def split: if_splits option.splits)

definition plain_codecs :: codec_ops where
  "plain_codecs = \<lparr>codec_brotli = Inr, codec_zstd = Inr, codec_gzip = Inr\<rparr>"

theorem bytes_returns_iff_body_fits_witness:
  "map_option fst (response_bytes assoc_headers plain_codecs mem_body
     (response_new 200 [] (BodyHttp2 0) ''u'') ([1, 2, 3], 3)) = Some (Inr [1, 2, 3]) \<and>
   response_bytes assoc_headers plain_codecs mem_body
     (response_new 200 [] (BodyHttp2 0) ''u'') ([1, 2, 3], 2) = None"
  using bytes_returns_iff_body_fits[OF mem_body.unreleased_stream_axioms,
      of "response_new 200 [] (BodyHttp2 0) ''u''" 0 assoc_headers plain_codecs "([1, 2, 3], 3)"]
    bytes_returns_iff_body_fits[OF mem_body.unreleased_stream_axioms,
      of "response_new 200 [] (BodyHttp2 0) ''u''" 0 assoc_headers plain_codecs "([1, 2, 3], 2)"]
  by (simp add: response_new_def decode_body_def content_encoding_def assoc_headers_def)

definition offered_codings :: "bool \<Rightarrow> string list" where
  "offered_codings zstd = [''gzip'', ''deflate'', ''br''] @ (if zstd then [''zstd''] else [])"

fun codec_for :: "codec_ops \<Rightarrow> string \<Rightarrow> byte list \<Rightarrow> string + byte list" where
  "codec_for K c d =
    (if c = ''br'' then codec_brotli K d else if c = ''zstd'' then codec_zstd K d
     else if c = ''gzip'' then codec_gzip K d else Inr d)"



lemma utf8_error_position:
  "utf8_error n bs = Some (i, l) \<Longrightarrow> \<exists>pre b rest. bs = pre @ b # rest \<and> i = n + length pre \<and>
     utf8_valid pre \<and> \<not> fst (utf8_piece b rest)"
proof (induction n bs rule: utf8_error.induct)
  case (2 n b bs)
  obtain ok k where piece: "utf8_piece b bs = (ok, k)" by fastforce
  show ?case
  proof (cases ok)
    case False
    with 2(2) piece show ?thesis by (intro exI[of _ "[]"]) auto
  next
    case True
    with 2(2) piece have "utf8_error (n + 1 + k) (drop k bs) = Some (i, l)" by simp
    from 2(1)[OF piece[symmetric] refl True this] obtain pre c rest where
      pre: "drop k bs = pre @ c # rest" "i = n + 1 + k + length pre" "utf8_valid pre"
      "\<not> fst (utf8_piece c rest)" by blast
    have "k \<le> length bs"
      using utf8_piece_taken[OF piece, of "k - 1"] by (cases k) auto
    moreover have "utf8_piece b (take k bs @ pre) = (True, k)"
      using utf8_piece_ok_local[of b bs k pre] piece True by simp
    moreover have "b # bs = (b # take k bs @ pre) @ c # rest"
      using pre(1) by (metis append_Cons append_assoc append_take_drop_id)
    ultimately show ?thesis
      using pre by (intro exI[of _ "b # take k bs @ pre"] exI[of _ c] exI[of _ rest]) auto
  qed
qed simp

text \<open>
  \<open>text\<close> succeeds exactly on bodies that are well-formed UTF-8 after decoding, and
  then returns the bytes of the body unchanged; every other body is an error, whose text carries
  the position of the first ill-formed piece.
\<close>

theorem text_is_valid_utf8:
  assumes "response_bytes H K B r w = Some (Inr bs, w')"
  shows "\<exists>t. response_text H K B r w = Some (t, w') \<and>
    (if utf8_valid bs then \<exists>s. t = Inr s \<and> as_bytes s = bs
     else \<exists>pre b rest l. t = Inl (connect_other (utf8_error_text (length pre, l))) \<and>
       bs = pre @ b # rest \<and> utf8_valid pre \<and> \<not> fst (utf8_piece b rest))"
proof (cases "utf8_error 0 bs")
  case None
  then show ?thesis
    using assms utf8_error_None_iff[of 0 bs] by (simp add: response_text_def from_utf8_def)
next
  case (Some e)
  then obtain i l where e: "utf8_error 0 bs = Some (i, l)" by (cases e) auto
  then have "\<not> utf8_valid bs" using utf8_error_None_iff[of 0 bs] by simp
  then show ?thesis
    using assms e utf8_error_position[OF e] by (auto simp: response_text_def from_utf8_def)
qed

theorem text_is_valid_utf8_witness:
  "\<exists>t. response_text assoc_headers plain_codecs mem_body
      (response_new 200 [] (BodyHttp3 [0xC3, 0xA9]) ''u'') ([], 0) = Some (Inr t, ([], 0)) \<and>
    as_bytes t = [0xC3, 0xA9]"
proof -
  have bytes: "response_bytes assoc_headers plain_codecs mem_body
      (response_new 200 [] (BodyHttp3 [0xC3, 0xA9]) ''u'') ([], 0) = Some (Inr [0xC3, 0xA9], ([], 0))"
    by (simp add: response_bytes_def response_new_def decode_body_def content_encoding_def assoc_headers_def)
  have "utf8_valid [0xC3, 0xA9]" by (simp add: utf8_piece_def is_cont_def)
  with text_is_valid_utf8[OF bytes] show ?thesis by auto
qed

end
