(* ===== verification/Connector.thy ===== *)
theory Connector imports Proxy Tls_Connector Http2_Handshake Response Profile_Family begin

text \<open>
  \<open>src/client/connector.rs\<close>: the connection pipeline (TCP or proxy tunnel, TLS set-up with the
  ALPS payload, TLS handshake, HTTP/2 handshake) and \<open>QuikConnection::send\<close>. tokio-boring and the
  HTTP/2 crate are foreign: \<open>h2_stack\<close> holds what the source calls of them. A call that awaits is
  modelled by its result; the loops that may not end on their own are \<open>option\<close> valued.
\<close>

section \<open>Foreign operations\<close>

text \<open>A request of the \<open>http\<close> crate: the URI is a value of a foreign type, the body is \<open>()\<close>.\<close>

record ('r, 'h) http_request =
  rq_method :: string
  rq_uri :: 'r
  rq_headers :: 'h

record 'r uri_ops =
  uri_parse :: "string \<Rightarrow> string + 'r"
  uri_text :: "'r \<Rightarrow> string"
  uri_scheme :: "'r \<Rightarrow> string option"
  uri_authority :: "'r \<Rightarrow> string option"
  uri_path_and_query :: "'r \<Rightarrow> string option"
  method_error :: "string \<Rightarrow> string option"

text \<open>
  \<open>tls_configure\<close> is \<open>SslConnector::configure\<close>; \<open>add_application_settings\<close> the FFI call with the
  protocol, the payload and its return code; handles of HTTP/2 sessions and streams are numbers.
\<close>

record ('b, 'c, 'r, 'h, 'w) h2_stack =
  tls_configure :: "'b \<Rightarrow> string + 'c"
  tls_status_ocsp :: "'c \<Rightarrow> string + 'c"
  enable_ech_grease :: "'c \<Rightarrow> 'c"
  add_application_settings :: "string \<Rightarrow> byte list \<Rightarrow> 'c \<Rightarrow> int \<times> 'c"
  tls_handshake :: "'c \<Rightarrow> string \<Rightarrow> stream \<Rightarrow> 'w \<Rightarrow> (string + nat) \<times> 'w"
  h2_handshake :: "h2_builder_call list \<Rightarrow> nat \<Rightarrow> 'w \<Rightarrow> (string + nat) \<times> 'w"
  h2_ready :: "nat \<Rightarrow> 'w \<Rightarrow> (string + nat) \<times> 'w"
  h2_send_request :: "nat \<Rightarrow> ('r, 'h) http_request \<Rightarrow> bool \<Rightarrow> 'w \<Rightarrow> (string + nat \<times> nat) \<times> 'w"
  h2_send_data :: "nat \<Rightarrow> byte list \<Rightarrow> bool \<Rightarrow> 'w \<Rightarrow> (string + unit) \<times> 'w"
  h2_response :: "nat \<Rightarrow> 'w \<Rightarrow> (string + u16 \<times> 'h \<times> nat) \<times> 'w"

section \<open>The ALPS payload\<close>

definition alps_entry :: "u16 \<times> u32 \<Rightarrow> byte list" where
  "alps_entry e = u16_be (fst e) @ u32_be (snd e)"

fun alps_loop :: "(u16 \<times> u32) list \<Rightarrow> byte list \<Rightarrow> byte list" where
  "alps_loop [] payload = payload"
| "alps_loop ((ident, v) # es) payload = alps_loop es (payload @ u16_be ident @ u32_be v)"

definition build_alps_payload :: "settings_frame \<Rightarrow> (u16 \<times> u32) list \<Rightarrow> byte list" where
  "build_alps_payload settings extra =
    (let payload = [];
         payload = payload @ u16_be 1;
         payload = payload @ u32_be (sf_header_table_size settings);
         payload = payload @ u16_be 2;
         payload = payload @ u32_be (of_bool (sf_enable_push settings));
         payload = payload @ u16_be 4;
         payload = payload @ u32_be (sf_initial_window_size settings);
         payload = payload @ u16_be 6;
         payload = payload @ u32_be (sf_max_header_list_size settings)
     in alps_loop extra payload)"

section \<open>The pipeline\<close>

record quik_connection =
  qc_h2 :: nat
  qc_profile :: chrome_profile

text \<open>Stages 2 and 3: the TLS context, OCSP stapling, ECH GREASE and ALPS.\<close>

definition tls_setup ::
  "'b ssl_ops \<Rightarrow> ('b, 'c, 'r, 'h, 'w) h2_stack \<Rightarrow> chrome_profile \<Rightarrow> quik_error + 'c" where
  "tls_setup B S profile =
    and_then (build_connector B (cp_tls profile)) (\<lambda>connector.
    and_then (map_err TlsBuild (tls_configure S connector)) (\<lambda>config.
    and_then (map_err TlsBuild (tls_status_ocsp S config)) (\<lambda>config.
    let config = (if tls_enable_ech_grease (cp_tls profile) then enable_ech_grease S config else config)
    in if tls_alps_enabled (cp_tls profile)
       then let alps_data = build_alps_payload (h2p_settings (cp_h2 profile))
                              (tls_alps_extra_settings (cp_tls profile));
                (alps_res, config) = add_application_settings S ''h2'' alps_data config
            in if alps_res \<noteq> 1 then Inl (connect_other ''failed to inject ALPS settings'')
               else Inr config
       else Inr config)))"

definition connect_quik ::
  "'b ssl_ops \<Rightarrow> ('b, 'c, 'r, 'h, 'w) h2_stack \<Rightarrow> 'w tcp_ops \<Rightarrow> string \<Rightarrow> u16 \<Rightarrow> sockaddr \<Rightarrow>
   chrome_profile \<Rightarrow> proxy option \<Rightarrow> 'w \<Rightarrow> ((quik_error + quik_connection) \<times> 'w) option" where
  "connect_quik B S T host port addr profile proxy w =
    (case (case proxy of Some p \<Rightarrow> dial_proxy T p host port w
           | None \<Rightarrow> Some (io_try (tcp_connect_addr T addr w))) of
       None \<Rightarrow> None
     | Some tcp_r \<Rightarrow> Some (
         try_st tcp_r (\<lambda>tcp w.
         try_st (tls_setup B S profile, w) (\<lambda>config w.
         try_st (map_err_st TlsHandshake (tls_handshake S config host tcp w)) (\<lambda>tls_stream w.
         try_st (map_err_st Http2Error
                  (h2_handshake S (configure_builder (cp_h2 profile)) tls_stream w)) (\<lambda>h2 w.
         (Inr \<lparr>qc_h2 = h2, qc_profile = profile\<rparr>, w)))))))"

definition conn_send ::
  "'r uri_ops \<Rightarrow> ('b, 'c, 'r, 'h, 'w) h2_stack \<Rightarrow> quik_connection \<Rightarrow> ('r, 'h) http_request \<Rightarrow>
   byte list option \<Rightarrow> 'w \<Rightarrow> (quik_error + 'h response) \<times> 'w" where
  "conn_send R S conn request body w =
    (let url_str = uri_text R (rq_uri request) in
     case body of
       Some data \<Rightarrow>
         try_st (map_err_st Http2Error (h2_send_request S (qc_h2 conn) request False w))
           (\<lambda>(response_future, send_stream) w.
         try_st (map_err_st Http2Error (h2_send_data S send_stream data True w)) (\<lambda>_ w.
         try_st (map_err_st Http2Error (h2_response S response_future w)) (\<lambda>(status, headers, body_stream) w.
         (Inr (response_new status headers (BodyHttp2 body_stream) url_str), w))))
     | None \<Rightarrow>
         try_st (map_err_st Http2Error (h2_send_request S (qc_h2 conn) request True w))
           (\<lambda>(response_future, _) w.
         try_st (map_err_st Http2Error (h2_response S response_future w)) (\<lambda>(status, headers, body_stream) w.
         (Inr (response_new status headers (BodyHttp2 body_stream) url_str), w))))"

text \<open>\<open>send\<close> up to \<open>response_future.await\<close>, and what follows it.\<close>

definition conn_begin ::
  "'r uri_ops \<Rightarrow> ('b, 'c, 'r, 'h, 'w) h2_stack \<Rightarrow> quik_connection \<Rightarrow> ('r, 'h) http_request \<Rightarrow>
   byte list option \<Rightarrow> 'w \<Rightarrow> (quik_error + nat \<times> string) \<times> 'w" where
  "conn_begin R S conn request body w =
    (let url_str = uri_text R (rq_uri request) in
     case body of
       Some data \<Rightarrow>
         try_st (map_err_st Http2Error (h2_send_request S (qc_h2 conn) request False w))
           (\<lambda>(response_future, send_stream) w.
         try_st (map_err_st Http2Error (h2_send_data S send_stream data True w)) (\<lambda>_ w.
         (Inr (response_future, url_str), w)))
     | None \<Rightarrow>
         try_st (map_err_st Http2Error (h2_send_request S (qc_h2 conn) request True w))
           (\<lambda>(response_future, _) w. (Inr (response_future, url_str), w)))"

definition conn_finish ::
  "('b, 'c, 'r, 'h, 'w) h2_stack \<Rightarrow> nat \<Rightarrow> string \<Rightarrow> 'w \<Rightarrow> (quik_error + 'h response) \<times> 'w" where
  "conn_finish S response_future url_str w =
    try_st (map_err_st Http2Error (h2_response S response_future w)) (\<lambda>(status, headers, body_stream) w.
    (Inr (response_new status headers (BodyHttp2 body_stream) url_str), w))"

lemma conn_send_parts:
  "conn_send R S conn request body w =
    try_st (conn_begin R S conn request body w) (\<lambda>(response_future, url_str). conn_finish S response_future url_str)"
  by (auto simp: conn_send_def conn_begin_def conn_finish_def try_st_def map_err_st_def Let_def
      split: option.split sum.split prod.split)

section \<open>Reading the payload back\<close>

fun decode_alps :: "byte list \<Rightarrow> (u16 \<times> u32) list option" where
  "decode_alps [] = Some []"
| "decode_alps (a # b # c # d # e # f # bs) =
     map_option (\<lambda>es. (be_u16 a b, be_u32 c d e f) # es) (decode_alps bs)"
| "decode_alps bs = None"

lemma alps_loop_concat: "alps_loop es p = p @ concat (map alps_entry es)"
  by (induction es p rule: alps_loop.induct) (simp_all add: alps_entry_def)

lemma decode_alps_entries: "decode_alps (concat (map alps_entry es)) = Some es"
proof (induction es)
  case (Cons e es)
  then show ?case
    by (cases e) (simp add: alps_entry_def u16_be_def u32_be_def be_u16_u16_be be_u32_u32_be)
qed simp

lemma build_alps_payload_entries:
  "build_alps_payload s extra = concat (map alps_entry
     ([(1, sf_header_table_size s), (2, of_bool (sf_enable_push s)),
       (4, sf_initial_window_size s), (6, sf_max_header_list_size s)] @ extra))"
  by (simp add: build_alps_payload_def alps_loop_concat alps_entry_def)

lemma length_alps_entries: "length (concat (map alps_entry es)) = 6 * length es"
  by (induction es) (simp_all add: alps_entry_def)

lemma map_err_Inl_iff: "map_err f r = Inl e \<longleftrightarrow> (\<exists>x. r = Inl x \<and> e = f x)"
  by (cases r) auto

section \<open>Properties\<close>


definition transport_dial ::
  "'w tcp_ops \<Rightarrow> proxy option \<Rightarrow> string \<Rightarrow> u16 \<Rightarrow> sockaddr \<Rightarrow> 'w \<Rightarrow> ((quik_error + stream) \<times> 'w) option" where
  "transport_dial T proxy host port addr w =
    (case proxy of Some p \<Rightarrow> dial_proxy T p host port w
     | None \<Rightarrow> Some (io_try (tcp_connect_addr T addr w)))"

definition alps_accepted :: "('b, 'c, 'r, 'h, 'w) h2_stack \<Rightarrow> chrome_profile \<Rightarrow> 'c \<Rightarrow> bool" where
  "alps_accepted S profile c \<longleftrightarrow> (\<exists>c0. add_application_settings S ''h2''
     (build_alps_payload (h2p_settings (cp_h2 profile)) (tls_alps_extra_settings (cp_tls profile))) c0
       = (1, c))"

lemma tls_setup_Inr:
  assumes "tls_setup B S profile = Inr c"
  shows "(\<exists>b. build_connector B (cp_tls profile) = Inr b) \<and>
    (tls_alps_enabled (cp_tls profile) \<longrightarrow> alps_accepted S profile c)"
  using assms by (auto simp: tls_setup_def and_then_Inr_iff Let_def alps_accepted_def
      split: if_splits prod.splits)


text \<open>An HTTP/2 stack that records what it is asked, for evaluation: it accepts everything.\<close>

definition echo_stack :: "(ssl_call list, ssl_call list, string, assoc_map, nat) h2_stack" where
  "echo_stack = \<lparr>
     tls_configure = Inr,
     tls_status_ocsp = Inr,
     enable_ech_grease = (\<lambda>c. c),
     add_application_settings = (\<lambda>n d c. (1, c)),
     tls_handshake = (\<lambda>c h s w. (Inr 1, Suc w)),
     h2_handshake = (\<lambda>cs t w. (Inr 2, Suc w)),
     h2_ready = (\<lambda>h w. (Inr h, w)),
     h2_send_request = (\<lambda>h r e w. (Inr (3, 4), Suc w)),
     h2_send_data = (\<lambda>s d e w. (Inr (), Suc w)),
     h2_response = (\<lambda>f w. (Inr (200, [], 5), Suc w)) \<rparr>"

definition counting_tcp :: "nat tcp_ops" where
  "counting_tcp = \<lparr>
     tcp_connect = (\<lambda>a w. (Inr 0, Suc w)),
     tcp_connect_addr = (\<lambda>a w. (Inr 0, Suc w)),
     tcp_write_all = (\<lambda>s bs w. (Inr (), Suc w)),
     tcp_read = (\<lambda>s n w. (Inr [], Suc w)),
     tcp_read_exact = (\<lambda>s n w. (Inr (replicate n 0), Suc w)) \<rparr>"

definition no_alps_stack :: "(ssl_call list, ssl_call list, string, assoc_map, nat) h2_stack" where
  "no_alps_stack = echo_stack\<lparr>add_application_settings := \<lambda>n d c. (0, c)\<rparr>"


lemma connect_loop_reads:
  assumes "connect_loop T s buf w = Some r" "tcp_read T' = tcp_read T"
  shows "connect_loop T' s buf w = Some r"
proof -
  have "tcp_read T' = tcp_read T \<longrightarrow> connect_loop T' s buf w = Some r"
  proof (rule connect_loop.raw_induct[OF _ assms(1),
        where P = "\<lambda>T s buf w r. tcp_read T' = tcp_read T \<longrightarrow> connect_loop T' s buf w = Some r"], intro impI)
    fix f T s buf w r
    assume IH: "\<And>T s buf w r. f T s buf w = Some r \<Longrightarrow>
        tcp_read T' = tcp_read T \<longrightarrow> connect_loop T' s buf w = Some r"
      and body: "(case tcp_read T s (4096 - length buf) w of
       (Inl e, w') \<Rightarrow> Some (Inl (Connect e), w')
     | (Inr bs, w') \<Rightarrow>
         (if bs = [] then Some (Inl connect_aborted, w')
          else let buf' = buf @ bs; response = of_bytes (utf8_lossy buf')
               in if str_contains response (crlf @ crlf)
                  then if starts_with response ''HTTP/1.1 200'' \<or> starts_with response ''HTTP/1.0 200''
                       then Some (Inr s, w')
                       else Some (Inl (connect_other (''HTTP proxy returned error status: '' @
                              unwrap_or (first_line response) ''Unknown'')), w')
                  else f T s buf' w')) = Some r"
      and same: "tcp_read T' = tcp_read T"
    obtain rr w1 where rd: "tcp_read T s (4096 - length buf) w = (rr, w1)" by fastforce
    show "connect_loop T' s buf w = Some r"
      using body IH[of T, rule_format, OF _ same]
      by (subst connect_loop.simps; cases rr) (auto simp: Let_def rd same split: if_splits)
  qed
  then show ?thesis using assms(2) by blast
qed

lemma connect_loop_same_reads:
  assumes "tcp_read T' = tcp_read T"
  shows "connect_loop T' s buf w = connect_loop T s buf w"
proof (cases "connect_loop T' s buf w")
  case None
  then show ?thesis
    using connect_loop_reads[of T s buf w _ T'] assms by (cases "connect_loop T s buf w") auto
next
  case (Some r)
  then show ?thesis using connect_loop_reads[OF Some assms[symmetric]] by simp
qed


definition set_dead_knobs :: "bool \<Rightarrow> bool \<Rightarrow> chrome_profile \<Rightarrow> chrome_profile" where
  "set_dead_knobs a t p = p\<lparr>cp_tls := (cp_tls p)
     \<lparr>tls_alps_use_new_codepoint := a, tls_session_ticket_enabled := t\<rparr>\<rparr>"

lemma tls_setup_dead_knobs: "tls_setup B S (set_dead_knobs a t p) = tls_setup B S p"
proof -
  have "build_connector B (cp_tls (set_dead_knobs a t p)) = build_connector B (cp_tls p)"
    by (simp add: build_connector_def set_dead_knobs_def)
  moreover have "cp_h2 (set_dead_knobs a t p) = cp_h2 p"
    "tls_enable_ech_grease (cp_tls (set_dead_knobs a t p)) = tls_enable_ech_grease (cp_tls p)"
    "tls_alps_enabled (cp_tls (set_dead_knobs a t p)) = tls_alps_enabled (cp_tls p)"
    "tls_alps_extra_settings (cp_tls (set_dead_knobs a t p)) = tls_alps_extra_settings (cp_tls p)"
    by (simp_all add: set_dead_knobs_def)
  ultimately show ?thesis by (simp only: tls_setup_def)
qed

text \<open>
  Two knobs of the TLS profile have no effect: the ALPS code point and the
  session-ticket switch change neither the TLS set-up nor the connection.
\<close>

theorem dead_tls_knobs:
  "connect_quik B S T host port addr (set_dead_knobs a t profile) proxy w =
   map_option (map_prod (map_sum id (qc_profile_update (set_dead_knobs a t))) id)
     (connect_quik B S T host port addr profile proxy w)"
proof -
  have h2: "cp_h2 (set_dead_knobs a t profile) = cp_h2 profile" by (simp add: set_dead_knobs_def)
  show ?thesis
    unfolding connect_quik_def tls_setup_dead_knobs h2
    by (auto simp: try_st_def map_err_st_def split: option.splits prod.splits sum.splits)
qed

end
