(* ===== verification/Quic_Config.thy ===== *)
theory Quic_Config imports Chrome_148 Quik_Error begin

text \<open>
  \<open>configure_chrome_quic_transport\<close> (\<open>src/client/quic.rs\<close>) and \<open>configure_chrome_h3\<close>
  (\<open>src/client/h3.rs\<close>): the QUIC transport parameters and HTTP/3 settings the client advertises.
  quiche's configuration objects are foreign; a call on them is a value of \<open>quic_call\<close>.
\<close>

section \<open>The calls\<close>

datatype quic_call =
    SetApplicationProtos "string list"
  | SetMaxIdleTimeout u64
  | SetMaxRecvUdpPayloadSize u64
  | SetMaxSendUdpPayloadSize u64
  | SetInitialMaxData u64
  | SetInitialMaxStreamDataBidiLocal u64
  | SetInitialMaxStreamDataBidiRemote u64
  | SetInitialMaxStreamDataUni u64
  | SetInitialMaxStreamsBidi u64
  | SetInitialMaxStreamsUni u64
  | SetDisableActiveMigration bool
  | EnableDgram bool nat nat
  | DiscoverPmtu bool
  | VerifyPeer bool

datatype h3_call =
    SetQpackMaxTableCapacity u64
  | SetMaxFieldSectionSize u64
  | SetQpackBlockedStreams u64
  | EnableExtendedConnect bool

record ('c, 'd) quic_config_ops =
  qcfg_new :: "string + 'c"
  qcfg_try :: "quic_call \<Rightarrow> 'c \<Rightarrow> string + 'c"
  qcfg_do :: "quic_call \<Rightarrow> 'c \<Rightarrow> 'c"
  h3cfg_new :: "string + 'd"
  h3cfg_do :: "h3_call \<Rightarrow> 'd \<Rightarrow> 'd"

section \<open>The constants\<close>

definition CHROME_MAX_IDLE_TIMEOUT :: u64 where
  "CHROME_MAX_IDLE_TIMEOUT = 30000"

definition CHROME_MAX_UDP_PAYLOAD_SIZE :: u64 where
  "CHROME_MAX_UDP_PAYLOAD_SIZE = 1472"

definition CHROME_INITIAL_MAX_DATA :: u64 where
  "CHROME_INITIAL_MAX_DATA = 15728640"

definition CHROME_INITIAL_MAX_STREAM_DATA_BIDI_LOCAL :: u64 where
  "CHROME_INITIAL_MAX_STREAM_DATA_BIDI_LOCAL = 6291456"

definition CHROME_INITIAL_MAX_STREAM_DATA_BIDI_REMOTE :: u64 where
  "CHROME_INITIAL_MAX_STREAM_DATA_BIDI_REMOTE = 6291456"

definition CHROME_INITIAL_MAX_STREAM_DATA_UNI :: u64 where
  "CHROME_INITIAL_MAX_STREAM_DATA_UNI = 6291456"

definition CHROME_INITIAL_MAX_STREAMS_BIDI :: u64 where
  "CHROME_INITIAL_MAX_STREAMS_BIDI = 100"

definition CHROME_INITIAL_MAX_STREAMS_UNI :: u64 where
  "CHROME_INITIAL_MAX_STREAMS_UNI = 103"

definition CHROME_SETTINGS_QPACK_MAX_TABLE_CAPACITY :: u64 where
  "CHROME_SETTINGS_QPACK_MAX_TABLE_CAPACITY = 0"

definition CHROME_SETTINGS_MAX_FIELD_SECTION_SIZE :: u64 where
  "CHROME_SETTINGS_MAX_FIELD_SECTION_SIZE = 0"

definition CHROME_SETTINGS_QPACK_BLOCKED_STREAMS :: u64 where
  "CHROME_SETTINGS_QPACK_BLOCKED_STREAMS = 0"

lemmas quic_constants =
  CHROME_MAX_IDLE_TIMEOUT_def CHROME_MAX_UDP_PAYLOAD_SIZE_def CHROME_INITIAL_MAX_DATA_def
  CHROME_INITIAL_MAX_STREAM_DATA_BIDI_LOCAL_def CHROME_INITIAL_MAX_STREAM_DATA_BIDI_REMOTE_def
  CHROME_INITIAL_MAX_STREAM_DATA_UNI_def CHROME_INITIAL_MAX_STREAMS_BIDI_def
  CHROME_INITIAL_MAX_STREAMS_UNI_def

section \<open>The two functions\<close>

definition configure_chrome_quic_transport :: "('c, 'd) quic_config_ops \<Rightarrow> quik_error + 'c" where
  "configure_chrome_quic_transport C =
    and_then (map_err connect_other (qcfg_new C)) (\<lambda>config.
    and_then (map_err connect_other (qcfg_try C (SetApplicationProtos [''h3'', ''h3-29'']) config)) (\<lambda>config.
    let config = qcfg_do C (SetMaxIdleTimeout CHROME_MAX_IDLE_TIMEOUT) config;
        config = qcfg_do C (SetMaxRecvUdpPayloadSize CHROME_MAX_UDP_PAYLOAD_SIZE) config;
        config = qcfg_do C (SetMaxSendUdpPayloadSize CHROME_MAX_UDP_PAYLOAD_SIZE) config;
        config = qcfg_do C (SetInitialMaxData CHROME_INITIAL_MAX_DATA) config;
        config = qcfg_do C (SetInitialMaxStreamDataBidiLocal
                              CHROME_INITIAL_MAX_STREAM_DATA_BIDI_LOCAL) config;
        config = qcfg_do C (SetInitialMaxStreamDataBidiRemote
                              CHROME_INITIAL_MAX_STREAM_DATA_BIDI_REMOTE) config;
        config = qcfg_do C (SetInitialMaxStreamDataUni CHROME_INITIAL_MAX_STREAM_DATA_UNI) config;
        config = qcfg_do C (SetInitialMaxStreamsBidi CHROME_INITIAL_MAX_STREAMS_BIDI) config;
        config = qcfg_do C (SetInitialMaxStreamsUni CHROME_INITIAL_MAX_STREAMS_UNI) config;
        config = qcfg_do C (SetDisableActiveMigration False) config;
        config = qcfg_do C (EnableDgram True 10 10) config;
        config = qcfg_do C (DiscoverPmtu True) config
    in Inr config))"

definition configure_chrome_h3 :: "('c, 'd) quic_config_ops \<Rightarrow> string + 'd" where
  "configure_chrome_h3 C =
    and_then (h3cfg_new C) (\<lambda>config.
    let config = h3cfg_do C (SetQpackMaxTableCapacity CHROME_SETTINGS_QPACK_MAX_TABLE_CAPACITY) config;
        config = h3cfg_do C (SetMaxFieldSectionSize CHROME_SETTINGS_MAX_FIELD_SECTION_SIZE) config;
        config = h3cfg_do C (SetQpackBlockedStreams CHROME_SETTINGS_QPACK_BLOCKED_STREAMS) config;
        config = h3cfg_do C (EnableExtendedConnect True) config
    in Inr config)"

text \<open>Configurations that record the calls on them.\<close>

definition recording_quic :: "(quic_call list, h3_call list) quic_config_ops" where
  "recording_quic = \<lparr>
     qcfg_new = Inr [],
     qcfg_try = (\<lambda>c b. Inr (b @ [c])),
     qcfg_do = (\<lambda>c b. b @ [c]),
     h3cfg_new = Inr [],
     h3cfg_do = (\<lambda>c b. b @ [c]) \<rparr>"

section \<open>Properties\<close>

text \<open>
  A client shows the same flow-control budget over both transports: the QUIC
  connection window is the HTTP/2 connection window of the default profile, each QUIC stream window is the HTTP/2 initial
  stream window, and a stream never gets more than the connection.
\<close>

theorem quic_windows_match_http2:
  "\<exists>cs. configure_chrome_quic_transport recording_quic = Inr cs \<and>
    SetInitialMaxData (ucast (h2p_initial_connection_window_size base_h2_148)) \<in> set cs \<and>
    SetInitialMaxStreamDataBidiLocal (ucast (sf_initial_window_size (h2p_settings base_h2_148))) \<in> set cs \<and>
    SetInitialMaxStreamDataBidiRemote (ucast (sf_initial_window_size (h2p_settings base_h2_148))) \<in> set cs \<and>
    CHROME_INITIAL_MAX_STREAM_DATA_BIDI_LOCAL \<le> CHROME_INITIAL_MAX_DATA \<and>
    VerifyPeer False \<notin> set cs"
  by (simp add: configure_chrome_quic_transport_def recording_quic_def quic_constants base_h2_148_def
      Let_def)

end
