(* ===== verification/Machine.thy ===== *)
theory Machine imports Quik_Prelude begin

text \<open>
  Concurrent parts of the client are transition systems: a step relation on a state and the states
  it may start in. The locales give the one induction all their invariants use.
\<close>

locale machine =
  fixes start :: "'s \<Rightarrow> bool" and step :: "'s \<Rightarrow> 's \<Rightarrow> bool"
begin

inductive reachable :: "'s \<Rightarrow> bool" where
  reach_start: "start s \<Longrightarrow> reachable s"
| reach_step: "reachable s \<Longrightarrow> step s s' \<Longrightarrow> reachable s'"

lemma reachable_steps: "step\<^sup>*\<^sup>* s s' \<Longrightarrow> reachable s \<Longrightarrow> reachable s'"
  by (induction rule: rtranclp_induct) (auto intro: reach_step)

end

locale machine_invariant = machine start step
  for start :: "'s \<Rightarrow> bool" and step :: "'s \<Rightarrow> 's \<Rightarrow> bool" +
  fixes inv :: "'s \<Rightarrow> bool"
  assumes start_inv: "start s \<Longrightarrow> inv s"
    and step_inv: "inv s \<Longrightarrow> step s s' \<Longrightarrow> inv s'"
begin

lemma steps_inv: "step\<^sup>*\<^sup>* s s' \<Longrightarrow> inv s \<Longrightarrow> inv s'"
  by (induction rule: rtranclp_induct) (auto intro: step_inv)

lemma reachable_inv: "reachable s \<Longrightarrow> inv s"
  by (induction rule: reachable.induct) (auto intro: start_inv step_inv)

lemma run_inv: "start s \<Longrightarrow> step\<^sup>*\<^sup>* s s' \<Longrightarrow> inv s'"
  using start_inv steps_inv by blast

end

end
