(* ===== verification/Quic_Driver.thy ===== *)
theory Quic_Driver imports Quic_Config Connector Machine "HOL-Library.AList" "HOL-Library.Multiset" begin

text \<open>
  \<open>run_quic_driver\<close> and \<open>QuicSession::send\<close> of \<open>src/client/quic.rs\<close>: the task that owns a QUIC
  connection, takes requests over a channel and answers each over its own one-shot channel.
  quiche's connections are foreign, and so is the order in which \<open>select!\<close> picks its branches:
  one iteration of the loop is a function of the event picked, and the loop is a step relation.
\<close>

section \<open>Foreign operations\<close>

type_synonym h3_header = "string \<times> string"

datatype h3_event = H3Headers "h3_header list" | H3Data | H3Finished | H3Reset u64 | H3Other

text \<open>
  \<open>'q\<close> is a \<open>quiche::Connection\<close> with the network behind it, \<open>'x\<close> a \<open>quiche::h3::Connection\<close>.
  \<open>h3_send_body\<close> returns the number of bytes it took; \<open>h3_recv_body\<close> the bytes it read into a
  buffer of the given size.
\<close>

record ('q, 'x, 'd) quiche_ops =
  q_is_closed :: "'q \<Rightarrow> bool"
  q_send :: "'q \<Rightarrow> (string + byte list) \<times> 'q"
  q_send_to :: "byte list \<Rightarrow> 'q \<Rightarrow> (io_error + unit) \<times> 'q"
  q_is_established :: "'q \<Rightarrow> bool"
  q_recv :: "byte list \<Rightarrow> 'q \<Rightarrow> (string + unit) \<times> 'q"
  q_on_timeout :: "'q \<Rightarrow> 'q"
  h3_with_transport :: "'d \<Rightarrow> 'q \<Rightarrow> (string + 'x) \<times> 'q"
  h3_send_request :: "h3_header list \<Rightarrow> bool \<Rightarrow> 'x \<Rightarrow> 'q \<Rightarrow> (string + u64) \<times> 'x \<times> 'q"
  h3_send_body :: "u64 \<Rightarrow> byte list \<Rightarrow> bool \<Rightarrow> 'x \<Rightarrow> 'q \<Rightarrow> (string + nat) \<times> 'x \<times> 'q"
  h3_poll :: "'x \<Rightarrow> 'q \<Rightarrow> (string + u64 \<times> h3_event) \<times> 'x \<times> 'q"
  h3_recv_body :: "u64 \<Rightarrow> nat \<Rightarrow> 'x \<Rightarrow> 'q \<Rightarrow> (string + byte list) \<times> 'x \<times> 'q"

section \<open>Commands and pending requests\<close>

text \<open>A one-shot sender is named by a number; what becomes of it is recorded in the driver's log.\<close>

record quic_command =
  cmd_headers :: "h3_header list"
  cmd_body :: "byte list option"
  cmd_url :: string
  cmd_tx :: nat

record 'h pending_request =
  pr_status :: "u16 option"
  pr_headers :: 'h
  pr_body :: "byte list"
  pr_url :: string
  pr_tx :: nat

text \<open>
  The state of the loop. \<open>drv_log\<close> records the one-shot senders used so far: \<open>Some r\<close> for a
  result sent, \<open>None\<close> for a sender dropped, which its receiver sees as a closed channel.
\<close>

record ('q, 'x, 'd, 'h) driver =
  drv_conn :: 'q
  drv_h3 :: "'x option"
  drv_h3_config :: 'd
  drv_pending :: "(u64 \<times> 'h pending_request) list"
  drv_log :: "(nat \<times> (quik_error + 'h response) option) list"

definition reply :: "nat \<Rightarrow> quik_error + 'h response \<Rightarrow> ('q, 'x, 'd, 'h) driver \<Rightarrow> ('q, 'x, 'd, 'h) driver" where
  "reply tx r d = d\<lparr>drv_log := (tx, Some r) # drv_log d\<rparr>"

definition drop_sender :: "nat \<Rightarrow> ('q, 'x, 'd, 'h) driver \<Rightarrow> ('q, 'x, 'd, 'h) driver" where
  "drop_sender tx d = d\<lparr>drv_log := (tx, None) # drv_log d\<rparr>"

text \<open>\<open>pending_requests.insert\<close>: an older entry under the same stream is dropped, and its sender with it.\<close>

definition insert_pending ::
  "u64 \<Rightarrow> 'h pending_request \<Rightarrow> ('q, 'x, 'd, 'h) driver \<Rightarrow> ('q, 'x, 'd, 'h) driver" where
  "insert_pending sid p d =
    (let d = (case map_of (drv_pending d) sid of Some old \<Rightarrow> drop_sender (pr_tx old) d | None \<Rightarrow> d)
     in d\<lparr>drv_pending := (sid, p) # AList.delete sid (drv_pending d)\<rparr>)"

definition remove_pending :: "u64 \<Rightarrow> ('q, 'x, 'd, 'h) driver \<Rightarrow> ('q, 'x, 'd, 'h) driver" where
  "remove_pending sid d = d\<lparr>drv_pending := AList.delete sid (drv_pending d)\<rparr>"

definition set_pending ::
  "u64 \<Rightarrow> 'h pending_request \<Rightarrow> ('q, 'x, 'd, 'h) driver \<Rightarrow> ('q, 'x, 'd, 'h) driver" where
  "set_pending sid p d = d\<lparr>drv_pending := AList.update sid p (drv_pending d)\<rparr>"

section \<open>The branches of the loop\<close>

text \<open>Flushing: \<open>while let Ok(..) = conn.send(..)\<close>, left early on a socket error.\<close>

partial_function (option) flush_loop :: "('q, 'x, 'd) quiche_ops \<Rightarrow> 'q \<Rightarrow> 'q option" where
  "flush_loop Q q =
    (case q_send Q q of
       (Inl e, q') \<Rightarrow> Some q'
     | (Inr bs, q') \<Rightarrow>
         (case q_send_to Q bs q' of
            (Inl e, q'') \<Rightarrow> Some q''
          | (Inr _, q'') \<Rightarrow> flush_loop Q q''))"

declare flush_loop.simps [code]

definition set_h3 :: "'x \<Rightarrow> 'q \<Rightarrow> ('q, 'x, 'd, 'h) driver \<Rightarrow> ('q, 'x, 'd, 'h) driver" where
  "set_h3 x q d = d\<lparr>drv_h3 := Some x, drv_conn := q\<rparr>"

definition handle_command ::
  "('q, 'x, 'd) quiche_ops \<Rightarrow> 'h header_ops \<Rightarrow> quic_command \<Rightarrow> ('q, 'x, 'd, 'h) driver \<Rightarrow>
   ('q, 'x, 'd, 'h) driver" where
  "handle_command Q H c d =
    (case drv_h3 d of
       None \<Rightarrow> reply (cmd_tx c) (Inl (connect_other ''HTTP/3 connection not yet established'')) d
     | Some x \<Rightarrow>
         (let has_body = (cmd_body c \<noteq> None);
              (r, x, q) = h3_send_request Q (cmd_headers c) (\<not> has_body) x (drv_conn d)
          in case r of
               Inr stream_id \<Rightarrow>
                 (let (x, q) = (case cmd_body c of
                        Some data \<Rightarrow> snd (h3_send_body Q stream_id data True x q)
                      | None \<Rightarrow> (x, q))
                  in insert_pending stream_id
                       \<lparr>pr_status = None, pr_headers = hm_new H, pr_body = [], pr_url = cmd_url c,
                        pr_tx = cmd_tx c\<rparr> (set_h3 x q d))
             | Inl e \<Rightarrow>
                 reply (cmd_tx c) (Inl (connect_other (''Failed to issue HTTP/3 request: '' @ e)))
                   (set_h3 x q d)))"

text \<open>\<open>str::parse::<u16>\<close> and \<open>StatusCode::from_u16\<close>.\<close>

definition parse_u16 :: "string \<Rightarrow> u16 option" where
  "parse_u16 s =
    (let t = (case s of c # cs \<Rightarrow> if c = CHR ''+'' \<and> cs \<noteq> [] then cs else s | [] \<Rightarrow> s)
     in if t \<noteq> [] \<and> list_all is_digit t \<and> parse_digits 0 t < 65536
        then Some (of_nat (parse_digits 0 t)) else None)"

definition status_code :: "u16 \<Rightarrow> u16 option" where
  "status_code code = (if 100 \<le> code \<and> code < 1000 then Some code else None)"

definition parse_status :: "string \<Rightarrow> u16 option" where
  "parse_status val =
    (if utf8_valid (as_bytes val)
     then (case parse_u16 val of Some code \<Rightarrow> status_code code | None \<Rightarrow> None) else None)"

definition add_header :: "'h header_ops \<Rightarrow> h3_header \<Rightarrow> 'h pending_request \<Rightarrow> 'h pending_request" where
  "add_header H fld req =
    (let (name, val) = fld in
     if name = '':status'' then
       (case parse_status val of
          Some code \<Rightarrow> req\<lparr>pr_status := Some code\<rparr> | None \<Rightarrow> req)
     else
       (case hn_from_bytes H name of
          Some header_name \<Rightarrow>
            (case hv_from_bytes H val of
               Some header_val \<Rightarrow> req\<lparr>pr_headers := hm_append H header_name header_val (pr_headers req)\<rparr>
             | None \<Rightarrow> req)
        | None \<Rightarrow> req))"

text \<open>The inner loop of a \<open>Data\<close> event: read until an error or an empty read.\<close>

partial_function (option) recv_body_loop ::
  "('q, 'x, 'd) quiche_ops \<Rightarrow> u64 \<Rightarrow> byte list \<Rightarrow> 'x \<Rightarrow> 'q \<Rightarrow> (byte list \<times> 'x \<times> 'q) option" where
  "recv_body_loop Q sid body x q =
    (case h3_recv_body Q sid 8192 x q of
       (Inl e, x', q') \<Rightarrow> Some (body, x', q')
     | (Inr bs, x', q') \<Rightarrow>
         (if bs = [] then Some (body, x', q') else recv_body_loop Q sid (body @ bs) x' q'))"

declare recv_body_loop.simps [code]

definition finish_request :: "'h pending_request \<Rightarrow> 'h response" where
  "finish_request req =
    response_new (unwrap_or (pr_status req) 200) (pr_headers req) (BodyHttp3 (pr_body req)) (pr_url req)"

fun handle_event ::
  "('q, 'x, 'd) quiche_ops \<Rightarrow> 'h header_ops \<Rightarrow> u64 \<Rightarrow> h3_event \<Rightarrow> 'x \<Rightarrow> ('q, 'x, 'd, 'h) driver \<Rightarrow>
   ('q, 'x, 'd, 'h) driver option" where
  "handle_event Q H sid (H3Headers hs) x d =
    Some (case map_of (drv_pending d) sid of
        Some req \<Rightarrow> set_pending sid (fold (add_header H) hs req) d | None \<Rightarrow> d)"
| "handle_event Q H sid H3Data x d =
    (case map_of (drv_pending d) sid of
       Some req \<Rightarrow> map_option (\<lambda>(body, x', q'). set_pending sid (req\<lparr>pr_body := body\<rparr>) (set_h3 x' q' d))
                     (recv_body_loop Q sid (pr_body req) x (drv_conn d))
     | None \<Rightarrow> Some d)"
| "handle_event Q H sid H3Finished x d =
    Some (case map_of (drv_pending d) sid of
        Some req \<Rightarrow> reply (pr_tx req) (Inr (finish_request req)) (remove_pending sid d) | None \<Rightarrow> d)"
| "handle_event Q H sid (H3Reset err) x d =
    Some (case map_of (drv_pending d) sid of
        Some req \<Rightarrow> reply (pr_tx req)
          (Inl (connect_other (''HTTP/3 stream reset by peer: error '' @ show_word err)))
          (remove_pending sid d) | None \<Rightarrow> d)"
| "handle_event Q H sid H3Other x d = Some d"

partial_function (option) poll_loop ::
  "('q, 'x, 'd) quiche_ops \<Rightarrow> 'h header_ops \<Rightarrow> ('q, 'x, 'd, 'h) driver \<Rightarrow> ('q, 'x, 'd, 'h) driver option" where
  "poll_loop Q H d =
    (case drv_h3 d of
       None \<Rightarrow> Some d
     | Some x \<Rightarrow>
         (case h3_poll Q x (drv_conn d) of
            (Inl e, x', q') \<Rightarrow> Some (set_h3 x' q' d)
          | (Inr (sid, ev), x', q') \<Rightarrow>
              Option.bind (handle_event Q H sid ev x' (set_h3 x' q' d)) (poll_loop Q H)))"

declare poll_loop.simps [code]

section \<open>The loop as a machine\<close>

text \<open>What \<open>select!\<close> may pick: a command, a datagram (or a socket error), the timer.\<close>

datatype driver_event = Command quic_command | Packet "io_error + byte list" | Tick

datatype ('q, 'x, 'd, 'h) driver_run = Running "('q, 'x, 'd, 'h) driver" | Stopped "('q, 'x, 'd, 'h) driver"

text \<open>Leaving the loop drops every pending request, and the senders with them.\<close>

definition stop_driver :: "('q, 'x, 'd, 'h) driver \<Rightarrow> ('q, 'x, 'd, 'h) driver" where
  "stop_driver d = d\<lparr>drv_pending := [],
     drv_log := map (\<lambda>p. (pr_tx (snd p), None)) (drv_pending d) @ drv_log d\<rparr>"

definition handle_packet ::
  "('q, 'x, 'd) quiche_ops \<Rightarrow> 'h header_ops \<Rightarrow> io_error + byte list \<Rightarrow> ('q, 'x, 'd, 'h) driver \<Rightarrow>
   ('q, 'x, 'd, 'h) driver_run option" where
  "handle_packet Q H recv_res d =
    (case recv_res of
       Inl e \<Rightarrow> Some (Running d)
     | Inr datagram \<Rightarrow>
         (let q = snd (q_recv Q datagram (drv_conn d));
              d = d\<lparr>drv_conn := q\<rparr>
          in if q_is_established Q q \<and> drv_h3 d = None
             then (case h3_with_transport Q (drv_h3_config d) q of
                     (Inr h3, q') \<Rightarrow> map_option Running (poll_loop Q H (set_h3 h3 q' d))
                   | (Inl e, q') \<Rightarrow> Some (Stopped (stop_driver (d\<lparr>drv_conn := q'\<rparr>))))
             else map_option Running (poll_loop Q H d)))"

text \<open>One iteration that does not leave the loop at its head.\<close>

definition driver_iter ::
  "('q, 'x, 'd) quiche_ops \<Rightarrow> 'h header_ops \<Rightarrow> driver_event \<Rightarrow> ('q, 'x, 'd, 'h) driver \<Rightarrow>
   ('q, 'x, 'd, 'h) driver_run option" where
  "driver_iter Q H ev d =
    (case flush_loop Q (drv_conn d) of
       None \<Rightarrow> None
     | Some q \<Rightarrow>
         (let d = d\<lparr>drv_conn := q\<rparr> in
          case ev of
            Command c \<Rightarrow> Some (Running (handle_command Q H c d))
          | Packet p \<Rightarrow> handle_packet Q H p d
          | Tick \<Rightarrow> Some (Running (d\<lparr>drv_conn := q_on_timeout Q q\<rparr>))))"

fun event_senders :: "driver_event \<Rightarrow> nat list" where
  "event_senders (Command c) = [cmd_tx c]"
| "event_senders ev = []"

text \<open>
  The loop: the state is the driver's with the one-shot senders taken from the channel so far.
\<close>

inductive driver_step ::
  "('q, 'x, 'd) quiche_ops \<Rightarrow> 'h header_ops \<Rightarrow> ('q, 'x, 'd, 'h) driver_run \<times> nat list \<Rightarrow>
   ('q, 'x, 'd, 'h) driver_run \<times> nat list \<Rightarrow> bool"
  for Q :: "('q, 'x, 'd) quiche_ops" and H :: "'h header_ops" where
  closed: "q_is_closed Q (drv_conn d) \<Longrightarrow>
    driver_step Q H (Running d, taken) (Stopped (stop_driver d), taken)"
| iteration: "\<not> q_is_closed Q (drv_conn d) \<Longrightarrow> driver_iter Q H ev d = Some r \<Longrightarrow>
    driver_step Q H (Running d, taken) (r, event_senders ev @ taken)"

inductive_cases driver_stepE: "driver_step Q H (st, taken) st'"
inductive_simps driver_step_stopped: "driver_step Q H (Stopped d, taken) st'"

definition new_driver :: "'d \<Rightarrow> 'q \<Rightarrow> ('q, 'x, 'd, 'h) driver" where
  "new_driver cfg q = \<lparr>drv_conn = q, drv_h3 = None, drv_h3_config = cfg, drv_pending = [], drv_log = []\<rparr>"

text \<open>The start of the task: without an HTTP/3 configuration it returns at once (\<open>None\<close>).\<close>

definition run_quic_driver ::
  "('c, 'd) quic_config_ops \<Rightarrow> 'q \<Rightarrow> ('q, 'x, 'd, 'h) driver_run option" where
  "run_quic_driver C conn =
    (case configure_chrome_h3 C of
       Inr cfg \<Rightarrow> Some (Running (new_driver cfg conn))
     | Inl e \<Rightarrow> None)"

definition driver_start ::
  "('c, 'd) quic_config_ops \<Rightarrow> ('q, 'x, 'd, 'h) driver_run \<times> nat list \<Rightarrow> bool" where
  "driver_start C st \<longleftrightarrow> snd st = [] \<and> (\<exists>conn. run_quic_driver C conn = Some (fst st))"

section \<open>No request is lost\<close>

fun run_driver :: "('q, 'x, 'd, 'h) driver_run \<Rightarrow> ('q, 'x, 'd, 'h) driver" where
  "run_driver (Running d) = d"
| "run_driver (Stopped d) = d"

definition senders :: "('q, 'x, 'd, 'h) driver \<Rightarrow> nat multiset" where
  "senders d = mset (map fst (drv_log d)) + mset (map (\<lambda>p. pr_tx (snd p)) (drv_pending d))"

definition keys_ok :: "('q, 'x, 'd, 'h) driver \<Rightarrow> bool" where
  "keys_ok d \<longleftrightarrow> distinct (map fst (drv_pending d))"

text \<open>Removing an entry, and what was there: the multiset of what the entries carry.\<close>

lemma mset_delete:
  "distinct (map fst al) \<Longrightarrow> mset (map (\<lambda>p. f (snd p)) al) =
     mset (map (\<lambda>p. f (snd p)) (AList.delete k al)) +
       (case map_of al k of Some v \<Rightarrow> {#f v#} | None \<Rightarrow> {#})"
proof (induction al)
  case (Cons p al)
  show ?case
  proof (cases "fst p = k")
    case True
    then have "map_of al k = None" using Cons.prems by (auto simp: map_of_eq_None_iff)
    then have "AList.delete k al = al" by (simp add: delete_id map_of_eq_None_iff)
    with True show ?thesis by (cases p) auto
  next
    case False
    with Cons show ?thesis by (cases p) auto
  qed
qed simp

lemma senders_simps [simp]:
  "senders (reply tx r d) = add_mset tx (senders d)"
  "senders (drop_sender tx d) = add_mset tx (senders d)"
  "senders (d\<lparr>drv_conn := q\<rparr>) = senders d"
  "senders (set_h3 x q d) = senders d"
  "senders (stop_driver d) = senders d"
  by (simp_all add: senders_def reply_def drop_sender_def set_h3_def stop_driver_def comp_def)

lemma keys_ok_simps [simp]:
  "keys_ok (reply tx r d) = keys_ok d"
  "keys_ok (drop_sender tx d) = keys_ok d"
  "keys_ok (d\<lparr>drv_conn := q\<rparr>) = keys_ok d"
  "keys_ok (set_h3 x q d) = keys_ok d"
  "keys_ok (stop_driver d)"
  "keys_ok d \<Longrightarrow> keys_ok (remove_pending sid d)"
  "keys_ok d \<Longrightarrow> keys_ok (set_pending sid p d)"
  "keys_ok d \<Longrightarrow> keys_ok (insert_pending sid p d)"
  by (simp_all add: keys_ok_def reply_def drop_sender_def set_h3_def stop_driver_def
      remove_pending_def set_pending_def insert_pending_def distinct_delete distinct_update
      delete_keys distinct_removeAll Let_def split: option.splits)

lemma pending_simps [simp]:
  "drv_pending (reply tx r d) = drv_pending d"
  "drv_pending (drop_sender tx d) = drv_pending d"
  "drv_pending (set_h3 x q d) = drv_pending d"
  "drv_pending (stop_driver d) = []"
  "map_of (drv_pending (set_pending sid p d)) = (map_of (drv_pending d))(sid \<mapsto> p)"
  "map_of (drv_pending (remove_pending sid d)) = (map_of (drv_pending d))(sid := None)"
  "map_of (drv_pending (insert_pending sid p d)) = (map_of (drv_pending d))(sid \<mapsto> p)"
  by (auto simp: reply_def drop_sender_def set_h3_def stop_driver_def set_pending_def
      remove_pending_def insert_pending_def update_conv' delete_conv' Let_def split: option.splits)

lemma senders_insert:
  "keys_ok d \<Longrightarrow> senders (insert_pending sid p d) = add_mset (pr_tx p) (senders d)"
  using mset_delete[of "drv_pending d" pr_tx sid]
  by (auto simp: senders_def keys_ok_def insert_pending_def Let_def drop_sender_def comp_def
      split: option.splits)

lemma senders_remove:
  "keys_ok d \<Longrightarrow> map_of (drv_pending d) sid = Some p \<Longrightarrow>
   senders d = add_mset (pr_tx p) (senders (remove_pending sid d))"
  using mset_delete[of "drv_pending d" pr_tx sid]
  by (auto simp: senders_def keys_ok_def remove_pending_def comp_def)

lemma senders_set:
  assumes "map_of (drv_pending d) sid = Some p" "pr_tx p' = pr_tx p"
  shows "senders (set_pending sid p' d) = senders d"
proof -
  have "map (\<lambda>q. pr_tx (snd q)) (AList.update sid p' al) = map (\<lambda>q. pr_tx (snd q)) al"
    if "map_of al sid = Some p" for al
    using that assms(2) by (induction al) (auto split: if_splits)
  with assms(1) show ?thesis by (simp add: senders_def set_pending_def)
qed

lemma handle_command_senders:
  assumes "keys_ok d"
  shows "senders (handle_command Q H c d) = add_mset (cmd_tx c) (senders d) \<and>
    keys_ok (handle_command Q H c d)"
  using assms by (auto simp: handle_command_def Let_def senders_insert split: option.splits prod.splits sum.splits)

lemma add_header_tx [simp]: "pr_tx (add_header H f req) = pr_tx req"
  by (auto simp: add_header_def split: prod.splits option.splits)

lemma fold_add_header_tx [simp]: "pr_tx (fold (add_header H) fs req) = pr_tx req"
  by (induction fs arbitrary: req) simp_all

lemma handle_event_senders:
  assumes "keys_ok d" "handle_event Q H sid ev x d = Some d'"
  shows "senders d' = senders d \<and> keys_ok d'"
  using assms
  by (cases ev) (auto simp: senders_set senders_remove split: option.splits)

lemma poll_loop_senders:
  assumes "poll_loop Q H d = Some d'" "keys_ok d"
  shows "senders d' = senders d \<and> keys_ok d'"
proof -
  have "keys_ok d \<longrightarrow> senders d' = senders d \<and> keys_ok d'"
  proof (rule poll_loop.raw_induct[OF _ assms(1),
        where P = "\<lambda>Q H d d'. keys_ok d \<longrightarrow> senders d' = senders d \<and> keys_ok d'"], intro impI)
    fix f and Q :: "('a, 'b, 'c) quiche_ops" and H :: "'d header_ops" and d d'
    assume IH: "\<And>Q H d d'. f Q H d = Some d' \<Longrightarrow> keys_ok d \<longrightarrow> senders d' = senders d \<and> keys_ok d'"
      and body: "(case drv_h3 d of
       None \<Rightarrow> Some d
     | Some x \<Rightarrow>
         (case h3_poll Q x (drv_conn d) of
            (Inl e, x', q') \<Rightarrow> Some (set_h3 x' q' d)
          | (Inr (sid, ev), x', q') \<Rightarrow>
              Option.bind (handle_event Q H sid ev x' (set_h3 x' q' d)) (f Q H))) = Some d'"
      and keys: "keys_ok d"
    show "senders d' = senders d \<and> keys_ok d'"
      using body keys
      by (auto dest!: IH handle_event_senders[rotated] simp: bind_eq_Some_conv
          split: option.splits prod.splits sum.splits)
  qed
  with assms(2) show ?thesis by blast
qed

lemma handle_packet_senders:
  assumes "handle_packet Q H p d = Some r" "keys_ok d"
  shows "senders (run_driver r) = senders d \<and> keys_ok (run_driver r)"
  using assms
  by (auto simp: handle_packet_def Let_def dest!: poll_loop_senders
      split: sum.splits prod.splits if_splits)

lemma driver_iter_senders:
  assumes "driver_iter Q H ev d = Some r" "keys_ok d"
  shows "senders (run_driver r) = mset (event_senders ev) + senders d \<and> keys_ok (run_driver r)"
proof -
  from assms(1) obtain q where q: "flush_loop Q (drv_conn d) = Some q"
    by (auto simp: driver_iter_def split: option.splits)
  let ?d = "d\<lparr>drv_conn := q\<rparr>"
  have keys: "keys_ok ?d" using assms(2) by simp
  show ?thesis
  proof (cases ev)
    case (Command c)
    with assms(1) q have "r = Running (handle_command Q H c ?d)" by (simp add: driver_iter_def)
    with handle_command_senders[OF keys, of Q H c] Command show ?thesis by simp
  next
    case (Packet p)
    with assms(1) q have "handle_packet Q H p ?d = Some r" by (simp add: driver_iter_def)
    from handle_packet_senders[OF this keys] Packet show ?thesis by simp
  next
    case Tick
    with assms q show ?thesis by (auto simp: driver_iter_def)
  qed
qed

text \<open>The invariant, and the driver as a machine with it.\<close>

fun driver_inv :: "('q, 'x, 'd, 'h) driver_run \<times> nat list \<Rightarrow> bool" where
  "driver_inv (st, taken) \<longleftrightarrow> keys_ok (run_driver st) \<and> senders (run_driver st) = mset taken \<and>
     (case st of Stopped d \<Rightarrow> drv_pending d = [] | Running d \<Rightarrow> True)"

lemma driver_iter_stopped: "driver_iter Q H ev d = Some (Stopped d') \<Longrightarrow> drv_pending d' = []"
  by (auto simp: driver_iter_def handle_packet_def Let_def
      split: option.splits driver_event.splits sum.splits prod.splits if_splits)

interpretation drv: machine_invariant "driver_start C" "driver_step Q H" driver_inv
proof unfold_locales
  fix s :: "('c, 'd, 'b, 'e) driver_run \<times> nat list"
  assume "driver_start C s"
  then show "driver_inv s"
    by (cases s; cases "configure_chrome_h3 C")
      (auto simp: driver_start_def run_quic_driver_def new_driver_def senders_def keys_ok_def)
next
  fix s s' :: "('c, 'd, 'b, 'e) driver_run \<times> nat list"
  assume inv: "driver_inv s" and step: "driver_step Q H s s'"
  from step inv show "driver_inv s'"
  proof cases
    case (iteration d ev r taken)
    with inv show ?thesis
      using driver_iter_senders[OF iteration(4)] driver_iter_stopped[of Q H ev d]
      by (cases r) auto
  qed auto
qed

section \<open>What the peer's frames do to the requests\<close>

text \<open>The frames of a stream as the peer sent them; a \<open>Data\<close> event comes with bytes to read.\<close>

datatype h3_frame = FHeaders "h3_header list" | FData "byte list" | FFinished | FReset u64 | FOther

fun frame_event :: "h3_frame \<Rightarrow> h3_event" where
  "frame_event (FHeaders hs) = H3Headers hs"
| "frame_event (FData bs) = H3Data"
| "frame_event FFinished = H3Finished"
| "frame_event (FReset e) = H3Reset e"
| "frame_event FOther = H3Other"

type_synonym 'h requests =
  "(u64 \<times> 'h pending_request) list \<times> (nat \<times> (quik_error + 'h response) option) list"

fun absorb :: "'h header_ops \<Rightarrow> h3_frame \<Rightarrow> 'h pending_request \<Rightarrow> 'h pending_request" where
  "absorb H (FHeaders hs) req = fold (add_header H) hs req"
| "absorb H (FData bs) req = req\<lparr>pr_body := pr_body req @ bs\<rparr>"
| "absorb H f req = req"

definition stream_reset :: "u64 \<Rightarrow> quik_error" where
  "stream_reset e = connect_other (''HTTP/3 stream reset by peer: error '' @ show_word e)"

definition frame_step :: "'h header_ops \<Rightarrow> u64 \<times> h3_frame \<Rightarrow> 'h requests \<Rightarrow> 'h requests" where
  "frame_step H sf rs = (let (sid, f) = sf; (ps, log) = rs in
     case map_of ps sid of
       None \<Rightarrow> rs
     | Some req \<Rightarrow>
         (case f of
            FFinished \<Rightarrow> (AList.delete sid ps, (pr_tx req, Some (Inr (finish_request req))) # log)
          | FReset e \<Rightarrow> (AList.delete sid ps, (pr_tx req, Some (Inl (stream_reset e))) # log)
          | FOther \<Rightarrow> rs
          | _ \<Rightarrow> (AList.update sid (absorb H f req) ps, log)))"

definition requests_of :: "('q, 'x, 'd, 'h) driver \<Rightarrow> 'h requests" where
  "requests_of d = (drv_pending d, drv_log d)"

lemma requests_of_simps [simp]:
  "requests_of (set_h3 x q d) = requests_of d"
  "requests_of (d\<lparr>drv_conn := q\<rparr>) = requests_of d"
  by (simp_all add: requests_of_def set_h3_def)

text \<open>
  An HTTP/3 connection with the frames it will deliver: \<open>script\<close> lists them, \<open>ready\<close> is what can
  be read of a stream's body after its \<open>Data\<close> event (quiche's documented polling protocol).
\<close>

locale h3_peer =
  fixes Q :: "('q, 'x, 'd) quiche_ops"
    and script :: "'x \<Rightarrow> 'q \<Rightarrow> (u64 \<times> h3_frame) list"
    and ready :: "u64 \<Rightarrow> 'x \<Rightarrow> 'q \<Rightarrow> byte list"
  assumes poll_done: "script x q = [] \<Longrightarrow> \<exists>e x' q'. h3_poll Q x q = (Inl e, x', q')"
    and poll_next: "script x q = (sid, f) # fs \<Longrightarrow>
      \<exists>x' q'. h3_poll Q x q = (Inr (sid, frame_event f), x', q') \<and> script x' q' = fs \<and>
        (\<forall>bs. f = FData bs \<longrightarrow> ready sid x' q' = bs)"
    and recv_some: "ready sid x q \<noteq> [] \<Longrightarrow> 0 < n \<Longrightarrow>
      \<exists>k x' q'. h3_recv_body Q sid n x q = (Inr (take k (ready sid x q)), x', q') \<and> 0 < k \<and>
        ready sid x' q' = drop k (ready sid x q) \<and> script x' q' = script x q"
    and recv_none: "ready sid x q = [] \<Longrightarrow>
      \<exists>e x' q'. h3_recv_body Q sid n x q = (Inl e, x', q') \<and> script x' q' = script x q"
begin

lemma recv_body_loop_drains:
  "\<exists>x' q'. recv_body_loop Q sid body x q = Some (body @ ready sid x q, x', q') \<and> script x' q' = script x q"
proof (induction "length (ready sid x q)" arbitrary: body x q rule: less_induct)
  case less
  show ?case
  proof (cases "ready sid x q = []")
    case True
    from recv_none[OF this, of 8192] show ?thesis
      using True by (subst recv_body_loop.simps) auto
  next
    case False
    from recv_some[OF this, of 8192] obtain k x' q' where k:
      "h3_recv_body Q sid 8192 x q = (Inr (take k (ready sid x q)), x', q')" "0 < k"
      "ready sid x' q' = drop k (ready sid x q)" "script x' q' = script x q"
      by auto
    then have "length (ready sid x' q') < length (ready sid x q)" using False by simp
    from less.hyps[OF this, of "body @ take k (ready sid x q)"] k False show ?thesis
      by (subst recv_body_loop.simps) auto
  qed
qed

lemma handle_event_frame:
  assumes "drv_h3 d = Some x" "\<forall>bs. f = FData bs \<longrightarrow> ready sid x (drv_conn d) = bs"
  shows "\<exists>d' x'. handle_event Q H sid (frame_event f) x d = Some d' \<and> drv_h3 d' = Some x' \<and>
    script x' (drv_conn d') = script x (drv_conn d) \<and>
    requests_of d' = frame_step H (sid, f) (requests_of d)"
proof (cases "map_of (drv_pending d) sid")
  case None
  with assms show ?thesis by (cases f) (simp_all add: frame_step_def requests_of_def)
next
  case (Some req)
  show ?thesis
  proof (cases f)
    case (FData bs)
    from recv_body_loop_drains[of sid "pr_body req" x "drv_conn d"] obtain x' q' where
      "recv_body_loop Q sid (pr_body req) x (drv_conn d) = Some (pr_body req @ bs, x', q')"
      "script x' q' = script x (drv_conn d)"
      using assms(2) FData by auto
    with Some FData show ?thesis
      by (simp add: frame_step_def requests_of_def set_pending_def set_h3_def)
  qed (use assms Some in \<open>simp_all add: frame_step_def requests_of_def set_pending_def
        remove_pending_def reply_def stream_reset_def\<close>)
qed

lemma poll_loop_frames:
  assumes "drv_h3 d = Some x"
  shows "\<exists>d'. poll_loop Q H d = Some d' \<and>
    requests_of d' = fold (frame_step H) (script x (drv_conn d)) (requests_of d)"
  using assms
proof (induction "script x (drv_conn d)" arbitrary: d x)
  case Nil
  from poll_done[OF Nil(1)[symmetric]] Nil(1)[symmetric] Nil(2) show ?case
    by (subst poll_loop.simps) auto
next
  case (Cons sf fs)
  obtain sid f where sf: "sf = (sid, f)" by fastforce
  from poll_next[of x "drv_conn d" sid f fs] Cons(2) sf obtain x1 q1 where poll:
    "h3_poll Q x (drv_conn d) = (Inr (sid, frame_event f), x1, q1)" "script x1 q1 = fs"
    "\<forall>bs. f = FData bs \<longrightarrow> ready sid x1 q1 = bs"
    by auto
  let ?d = "set_h3 x1 q1 d"
  have h3: "drv_h3 ?d = Some x1" "drv_conn ?d = q1" by (simp_all add: set_h3_def)
  from handle_event_frame[OF h3(1), of f sid H] poll(3) h3(2) obtain d2 x2 where ev:
    "handle_event Q H sid (frame_event f) x1 ?d = Some d2" "drv_h3 d2 = Some x2"
    "script x2 (drv_conn d2) = fs" "requests_of d2 = frame_step H (sid, f) (requests_of d)"
    using poll(2) by auto
  from Cons(1)[OF ev(3)[symmetric] ev(2)] ev(4) obtain d3 where
    "poll_loop Q H d2 = Some d3" "requests_of d3 = fold (frame_step H) fs (frame_step H sf (requests_of d))"
    using sf ev(3) by auto
  with ev(1) poll(1) Cons(2)[symmetric] Cons(3) show ?case
    by (subst poll_loop.simps) auto
qed

end

section \<open>Streams do not mix\<close>

lemma frame_step_log: "set (snd rs) \<subseteq> set (snd (frame_step H sf rs))"
  by (auto simp: frame_step_def Let_def split: prod.splits option.splits h3_frame.splits)

lemma fold_frame_log: "set (snd rs) \<subseteq> set (snd (fold (frame_step H) fs rs))"
  using frame_step_log by (induction fs arbitrary: rs) fastforce+

lemma frame_step_other:
  "sid' \<noteq> sid \<Longrightarrow> map_of (fst (frame_step H (sid', f) rs)) sid = map_of (fst rs) sid"
  by (auto simp: frame_step_def Let_def update_conv' delete_conv' split: prod.splits option.splits h3_frame.splits)

definition frames_on :: "u64 \<Rightarrow> (u64 \<times> h3_frame) list \<Rightarrow> h3_frame list" where
  "frames_on sid fs = map snd (filter (\<lambda>sf. fst sf = sid) fs)"

definition is_end :: "h3_frame \<Rightarrow> bool" where
  "is_end f \<longleftrightarrow> f = FFinished \<or> (\<exists>e. f = FReset e)"

lemma frame_step_absorb:
  assumes "map_of (fst rs) sid = Some req" "\<not> is_end f"
  shows "map_of (fst (frame_step H (sid, f) rs)) sid = Some (absorb H f req)"
  using assms by (cases f) (auto simp: frame_step_def is_end_def update_conv' split: prod.splits)

lemma stream_end_replies:
  assumes "map_of (fst rs) sid = Some req" "frames_on sid fs = gs @ e # hs"
    and "\<forall>g \<in> set gs. \<not> is_end g" "is_end e"
  shows "(pr_tx req, Some (case e of FReset n \<Rightarrow> Inl (stream_reset n)
      | _ \<Rightarrow> Inr (finish_request (fold (absorb H) gs req)))) \<in> set (snd (fold (frame_step H) fs rs))"
  using assms
proof (induction fs arbitrary: rs req gs)
  case Nil
  then show ?case by (simp add: frames_on_def)
next
  case (Cons sf fs)
  obtain s f where sf: "sf = (s, f)" by fastforce
  show ?case
  proof (cases "s = sid")
    case False
    with Cons sf frame_step_other[OF False, of H f rs] show ?thesis by (simp add: frames_on_def)
  next
    case True
    show ?thesis
    proof (cases gs)
      case Nil
      with Cons.prems True sf have "f = e" by (simp add: frames_on_def)
      with Cons.prems(1,4) Nil True sf
      have "(pr_tx req, Some (case e of FReset n \<Rightarrow> Inl (stream_reset n)
          | _ \<Rightarrow> Inr (finish_request (fold (absorb H) gs req)))) \<in> set (snd (frame_step H sf rs))"
        by (cases e) (auto simp: frame_step_def is_end_def split: prod.splits)
      then show ?thesis using fold_frame_log[of "frame_step H sf rs" H fs] by auto
    next
      case (Cons g gs')
      with Cons.prems True sf have g: "f = g" "frames_on sid fs = gs' @ e # hs" "\<not> is_end f"
        by (auto simp: frames_on_def)
      have "map_of (fst (frame_step H sf rs)) sid = Some (absorb H f req)"
        using frame_step_absorb[OF Cons.prems(1) g(3)] True sf by simp
      from Cons.IH[OF this g(2)] Cons.prems(3,4) Cons g(1)
      have "(pr_tx (absorb H f req), Some (case e of FReset n \<Rightarrow> Inl (stream_reset n)
          | _ \<Rightarrow> Inr (finish_request (fold (absorb H) gs' (absorb H f req))))) \<in>
          set (snd (fold (frame_step H) fs (frame_step H sf rs)))"
        by simp
      moreover have "pr_tx (absorb H f req) = pr_tx req" by (cases f) simp_all
      moreover have "fold (absorb H) gs req = fold (absorb H) gs' (absorb H f req)"
        using Cons g(1) by simp
      ultimately show ?thesis by (simp only: fold_simps)
    qed
  qed
qed

text \<open>What the frames of a finished stream add up to.\<close>

fun frame_fields :: "h3_frame \<Rightarrow> h3_header list" where
  "frame_fields (FHeaders hs) = hs"
| "frame_fields f = []"

fun frame_data :: "h3_frame \<Rightarrow> byte list" where
  "frame_data (FData bs) = bs"
| "frame_data f = []"

definition last_status :: "h3_header list \<Rightarrow> u16 option \<Rightarrow> u16 option" where
  "last_status hs s0 = fold (\<lambda>(n, v) s. if n = '':status'' \<and> parse_status v \<noteq> None
     then parse_status v else s) hs s0"

definition field_values :: "'h header_ops \<Rightarrow> string \<Rightarrow> h3_header list \<Rightarrow> header_value list" where
  "field_values H n hs = [the (hv_from_bytes H (snd f)). f \<leftarrow> hs,
     fst f \<noteq> '':status'' \<and> hn_from_bytes H (fst f) = Some n \<and> hv_from_bytes H (snd f) \<noteq> None]"

lemma fold_add_header:
  "pr_status (fold (add_header H) hs req) = last_status hs (pr_status req)"
  "pr_body (fold (add_header H) hs req) = pr_body req"
  "pr_url (fold (add_header H) hs req) = pr_url req"
  by (induction hs arbitrary: req)
    (auto simp: last_status_def add_header_def split: prod.splits option.splits)

lemma last_status_append: "last_status (xs @ ys) s = last_status ys (last_status xs s)"
  by (simp add: last_status_def)

lemma field_values_append: "field_values H n (xs @ ys) = field_values H n xs @ field_values H n ys"
  by (simp add: field_values_def)

lemma get_all_fold_add_header:
  assumes "header_map H"
  shows "hm_get_all H (pr_headers (fold (add_header H) hs req)) n =
    hm_get_all H (pr_headers req) n @ field_values H n hs"
proof (induction hs arbitrary: req)
  case (Cons f hs)
  have "hm_get_all H (pr_headers (add_header H f req)) n =
      hm_get_all H (pr_headers req) n @ field_values H n [f]"
    by (auto simp: add_header_def field_values_def header_map.get_all_append[OF assms]
        split: prod.splits option.splits)
  with Cons show ?case by (simp add: field_values_append[of H n "[f]" hs, simplified])
qed (simp add: field_values_def)

lemma fold_absorb:
  assumes "\<forall>g \<in> set gs. \<not> is_end g"
  shows "pr_status (fold (absorb H) gs req) = last_status (concat (map frame_fields gs)) (pr_status req) \<and>
    pr_body (fold (absorb H) gs req) = pr_body req @ concat (map frame_data gs) \<and>
    pr_url (fold (absorb H) gs req) = pr_url req \<and>
    (header_map H \<longrightarrow> hm_get_all H (pr_headers (fold (absorb H) gs req)) n =
       hm_get_all H (pr_headers req) n @ field_values H n (concat (map frame_fields gs)))"
  using assms
proof (induction gs arbitrary: req)
  case Nil
  show ?case by (simp add: last_status_def field_values_def)
next
  case (Cons g gs)
  from Cons.prems have "\<forall>g \<in> set gs. \<not> is_end g" by simp
  from Cons.IH[OF this, of "absorb H g req"] Cons.prems show ?case
    by (cases g) (auto simp: fold_add_header last_status_append field_values_append
        get_all_fold_add_header last_status_def field_values_def is_end_def)
qed

section \<open>A connection in memory\<close>

type_synonym mem_quic = "(u64 \<times> h3_frame) list \<times> (u64 \<times> byte list) \<times> nat"

fun mem_poll :: "unit \<Rightarrow> mem_quic \<Rightarrow> (string + u64 \<times> h3_event) \<times> unit \<times> mem_quic" where
  "mem_poll x ([], r, n) = (Inl ''Done'', x, ([], r, n))"
| "mem_poll x ((sid, f) # fs, r, n) =
    (Inr (sid, frame_event f), x, (fs, (case f of FData bs \<Rightarrow> (sid, bs) | _ \<Rightarrow> r), n))"

fun mem_recv_body :: "u64 \<Rightarrow> nat \<Rightarrow> unit \<Rightarrow> mem_quic \<Rightarrow> (string + byte list) \<times> unit \<times> mem_quic" where
  "mem_recv_body sid m x (fs, (rs, bs), n) =
    (if rs = sid \<and> bs \<noteq> [] then (Inr (take m bs), x, (fs, (rs, drop m bs), n))
     else (Inl ''Done'', x, (fs, (rs, bs), n)))"

fun mem_ready :: "u64 \<Rightarrow> unit \<Rightarrow> mem_quic \<Rightarrow> byte list" where
  "mem_ready sid x (fs, (rs, bs), n) = (if rs = sid then bs else [])"

definition mem_quiche :: "(mem_quic, unit, h3_call list) quiche_ops" where
  "mem_quiche = \<lparr>
     q_is_closed = (\<lambda>q. False),
     q_send = (\<lambda>q. (Inl ''Done'', q)),
     q_send_to = (\<lambda>bs q. (Inr (), q)),
     q_is_established = (\<lambda>q. True),
     q_recv = (\<lambda>bs q. (Inr (), q)),
     q_on_timeout = (\<lambda>q. q),
     h3_with_transport = (\<lambda>c q. (Inr (), q)),
     h3_send_request = (\<lambda>hs fin x q. (Inr (of_nat (4 * snd (snd q))), x, (fst q, fst (snd q), Suc (snd (snd q))))),
     h3_send_body = (\<lambda>sid bs fin x q. (Inr (min 1000 (length bs)), x, q)),
     h3_poll = mem_poll,
     h3_recv_body = mem_recv_body \<rparr>"

interpretation mem_h3: h3_peer mem_quiche "\<lambda>x q. fst q" mem_ready
proof unfold_locales
  fix x :: unit and q :: mem_quic
  assume "fst q = []"
  then show "\<exists>e x' q'. h3_poll mem_quiche x q = (Inl e, x', q')"
    by (cases q) (auto simp: mem_quiche_def)
next
  fix x :: unit and q :: mem_quic and sid f fs
  assume "fst q = (sid, f) # fs"
  then show "\<exists>x' q'. h3_poll mem_quiche x q = (Inr (sid, frame_event f), x', q') \<and> fst q' = fs \<and>
      (\<forall>bs. f = FData bs \<longrightarrow> mem_ready sid x' q' = bs)"
    by (cases q) (auto simp: mem_quiche_def)
next
  fix x :: unit and q :: mem_quic and sid and n :: nat
  assume "mem_ready sid x q \<noteq> []" "0 < n"
  then show "\<exists>k x' q'. h3_recv_body mem_quiche sid n x q = (Inr (take k (mem_ready sid x q)), x', q') \<and>
      0 < k \<and> mem_ready sid x' q' = drop k (mem_ready sid x q) \<and> fst q' = fst q"
    by (cases q; cases "fst (snd q)") (auto simp: mem_quiche_def split: if_splits)
next
  fix x :: unit and q :: mem_quic and sid and n :: nat
  assume "mem_ready sid x q = []"
  then show "\<exists>e x' q'. h3_recv_body mem_quiche sid n x q = (Inl e, x', q') \<and> fst q' = fst q"
    by (cases q; cases "fst (snd q)") (auto simp: mem_quiche_def split: if_splits)
qed

end
