(* ===== verification/Quic_Session.thy ===== *)
theory Quic_Session imports Quic_Driver begin

text \<open>
  \<open>QuicSession::send\<close> of \<open>src/client/quic.rs\<close>, the caller's end of the driver's channel, and the
  properties of the HTTP/3 path.
\<close>

section \<open>The session\<close>

text \<open>
  tokio's channels: \<open>ch_oneshot\<close> makes a one-shot channel, \<open>ch_send\<close> hands a command to the
  driver behind a sender, \<open>ch_await\<close> waits for the answer or for the sender to be dropped.
\<close>

record ('h, 'w) channel_ops =
  ch_oneshot :: "'w \<Rightarrow> nat \<times> 'w"
  ch_send :: "nat \<Rightarrow> quic_command \<Rightarrow> 'w \<Rightarrow> (string + unit) \<times> 'w"
  ch_await :: "nat \<Rightarrow> 'w \<Rightarrow> (string + (quik_error + 'h response)) \<times> 'w"

record quic_session =
  qs_tx :: nat
  qs_profile :: chrome_profile

definition session_headers :: "'r uri_ops \<Rightarrow> 'h header_ops \<Rightarrow> ('r, 'h) http_request \<Rightarrow> h3_header list" where
  "session_headers R H request =
    [('':method'', rq_method request),
     ('':scheme'', unwrap_or (uri_scheme R (rq_uri request)) ''https''),
     ('':authority'', unwrap_or (uri_authority R (rq_uri request)) []),
     ('':path'', unwrap_or (uri_path_and_query R (rq_uri request)) ''/'')] @
    map (\<lambda>(name, val). (name, hv_bytes val)) (hm_iter H (rq_headers request))"

definition session_send ::
  "'r uri_ops \<Rightarrow> 'h header_ops \<Rightarrow> ('h, 'w) channel_ops \<Rightarrow> quic_session \<Rightarrow> ('r, 'h) http_request \<Rightarrow>
   byte list option \<Rightarrow> 'w \<Rightarrow> (quik_error + 'h response) \<times> 'w" where
  "session_send R H X session request body w =
    (let url_str = uri_text R (rq_uri request);
         (response_tx, w) = ch_oneshot X w;
         cmd = \<lparr>cmd_headers = session_headers R H request, cmd_body = body, cmd_url = url_str,
                cmd_tx = response_tx\<rparr>
     in try_st (map_err_st connect_other (ch_send X (qs_tx session) cmd w)) (\<lambda>_ w.
        try_st (map_err_st connect_other (ch_await X response_tx w)) (\<lambda>r w. (r, w))))"

text \<open>\<open>send\<close> up to \<open>response_rx.await\<close>, and what follows it.\<close>

definition session_begin ::
  "'r uri_ops \<Rightarrow> 'h header_ops \<Rightarrow> ('h, 'w) channel_ops \<Rightarrow> quic_session \<Rightarrow> ('r, 'h) http_request \<Rightarrow>
   byte list option \<Rightarrow> 'w \<Rightarrow> (quik_error + nat) \<times> 'w" where
  "session_begin R H X session request body w =
    (let url_str = uri_text R (rq_uri request);
         (response_tx, w) = ch_oneshot X w;
         cmd = \<lparr>cmd_headers = session_headers R H request, cmd_body = body, cmd_url = url_str,
                cmd_tx = response_tx\<rparr>
     in try_st (map_err_st connect_other (ch_send X (qs_tx session) cmd w)) (\<lambda>_ w. (Inr response_tx, w)))"

definition session_finish :: "('h, 'w) channel_ops \<Rightarrow> nat \<Rightarrow> 'w \<Rightarrow> (quik_error + 'h response) \<times> 'w" where
  "session_finish X response_rx w =
    try_st (map_err_st connect_other (ch_await X response_rx w)) (\<lambda>r w. (r, w))"

lemma session_send_parts:
  "session_send R H X session request body w =
    try_st (session_begin R H X session request body w) (session_finish X)"
  by (auto simp: session_send_def session_begin_def session_finish_def try_st_def map_err_st_def Let_def
      split: sum.split prod.split)

section \<open>Until the handshake\<close>

definition not_established :: quik_error where
  "not_established = connect_other ''HTTP/3 connection not yet established''"

lemma handle_event_h3:
  "handle_event Q H sid ev x d = Some d' \<Longrightarrow> drv_h3 d \<noteq> None \<Longrightarrow> drv_h3 d' \<noteq> None"
  by (cases ev) (auto simp: set_pending_def remove_pending_def reply_def set_h3_def split: option.splits)

lemma poll_loop_h3:
  assumes "poll_loop Q H d = Some d'" "drv_h3 d \<noteq> None"
  shows "drv_h3 d' \<noteq> None"
proof -
  have "drv_h3 d \<noteq> None \<longrightarrow> drv_h3 d' \<noteq> None"
  proof (rule poll_loop.raw_induct[OF _ assms(1),
        where P = "\<lambda>Q H d d'. drv_h3 d \<noteq> None \<longrightarrow> drv_h3 d' \<noteq> None"], intro impI)
    fix f and Q :: "('a, 'b, 'c) quiche_ops" and H :: "'d header_ops" and d d'
    assume IH: "\<And>Q H d d'. f Q H d = Some d' \<Longrightarrow> drv_h3 d \<noteq> None \<longrightarrow> drv_h3 d' \<noteq> None"
      and body: "(case drv_h3 d of
       None \<Rightarrow> Some d
     | Some x \<Rightarrow>
         (case h3_poll Q x (drv_conn d) of
            (Inl e, x', q') \<Rightarrow> Some (set_h3 x' q' d)
          | (Inr (sid, ev), x', q') \<Rightarrow>
              Option.bind (handle_event Q H sid ev x' (set_h3 x' q' d)) (f Q H))) = Some d'"
      and h3: "drv_h3 d \<noteq> None"
    have set: "drv_h3 (set_h3 x q d) \<noteq> None" for x q by (simp add: set_h3_def)
    obtain x where x: "drv_h3 d = Some x" using h3 by blast
    obtain r x' q' where p: "h3_poll Q x (drv_conn d) = (r, x', q')" by (metis surj_pair)
    show "drv_h3 d' \<noteq> None"
    proof (cases r)
      case (Inl e)
      with body x p set show ?thesis by auto
    next
      case (Inr se)
      obtain sid ev where "se = (sid, ev)" by fastforce
      with body x p Inr obtain d2 where d2: "handle_event Q H sid ev x' (set_h3 x' q' d) = Some d2"
        "f Q H d2 = Some d'" by (auto simp: bind_eq_Some_conv)
      from handle_event_h3[OF d2(1) set] IH[OF d2(2)] show ?thesis by blast
    qed
  qed
  with assms(2) show ?thesis by blast
qed

definition refusing :: "('q, 'x, 'd, 'h) driver \<Rightarrow> bool" where
  "refusing d \<longleftrightarrow> (drv_h3 d = None \<longrightarrow> drv_pending d = [] \<and>
     (\<forall>e \<in> set (drv_log d). snd e = Some (Inl not_established)))"

lemma refusing_conn [simp]: "refusing (d\<lparr>drv_conn := q\<rparr>) = refusing d"
  by (simp add: refusing_def)

lemma refusing_h3: "drv_h3 d \<noteq> None \<Longrightarrow> refusing d"
  by (auto simp: refusing_def)

lemma refusing_stop: "refusing d \<Longrightarrow> refusing (stop_driver d)"
  by (auto simp: refusing_def stop_driver_def)

lemma refusing_command: "refusing d \<Longrightarrow> refusing (handle_command Q H c d)"
  by (auto simp: refusing_def handle_command_def Let_def reply_def not_established_def set_h3_def
      insert_pending_def drop_sender_def split: option.splits prod.splits sum.splits)

lemma refusing_poll: "poll_loop Q H d = Some d' \<Longrightarrow> refusing d \<Longrightarrow> refusing d'"
  using poll_loop_h3[of Q H d d'] refusing_h3[of d']
  by (cases "drv_h3 d") (auto simp: poll_loop.simps)

lemma refusing_packet: "handle_packet Q H p d = Some r \<Longrightarrow> refusing d \<Longrightarrow> refusing (run_driver r)"
proof (cases p)
  case (Inr bs)
  assume asm: "handle_packet Q H p d = Some r" "refusing d"
  let ?q = "snd (q_recv Q bs (drv_conn d))"
  show ?thesis
  proof (cases "q_is_established Q ?q \<and> drv_h3 d = None")
    case True
    with asm Inr show ?thesis
      by (auto simp: handle_packet_def Let_def refusing_stop set_h3_def
          dest!: poll_loop_h3 intro: refusing_h3 split: prod.splits sum.splits)
  next
    case False
    with asm Inr show ?thesis
      by (auto simp: handle_packet_def Let_def dest!: refusing_poll)
  qed
qed (auto simp: handle_packet_def)

interpretation fresh: machine_invariant "driver_start C" "driver_step Q H" "\<lambda>s. refusing (run_driver (fst s))"
proof unfold_locales
  fix s :: "('c, 'd, 'b, 'e) driver_run \<times> nat list"
  assume "driver_start C s"
  then show "refusing (run_driver (fst s))"
    by (cases s; cases "configure_chrome_h3 C")
      (auto simp: driver_start_def run_quic_driver_def new_driver_def refusing_def)
next
  fix s s' :: "('c, 'd, 'b, 'e) driver_run \<times> nat list"
  assume ref: "refusing (run_driver (fst s))" and step: "driver_step Q H s s'"
  from step ref show "refusing (run_driver (fst s'))"
  proof cases
    case (iteration d ev r taken)
    then obtain q where "flush_loop Q (drv_conn d) = Some q"
      by (auto simp: driver_iter_def split: option.splits)
    with iteration ref show ?thesis
      by (cases ev) (auto simp: driver_iter_def refusing_command dest!: refusing_packet)
  qed (simp add: refusing_stop)
qed

section \<open>Properties\<close>

text \<open>A driver in memory that is handed a request before its handshake, for the witnesses.\<close>

definition sample_quic :: mem_quic where
  "sample_quic = ([(0, FHeaders [('':status'', ''204''), (''server'', ''q'')]), (4, FData [9]),
     (0, FData [1, 2]), (0, FFinished)], (1, []), 1)"

definition sample_cmd :: quic_command where
  "sample_cmd = \<lparr>cmd_headers = [], cmd_body = None, cmd_url = ''https://quik.rs/'', cmd_tx = 7\<rparr>"

definition sample_driver :: "(mem_quic, unit, h3_call list, assoc_map) driver" where
  "sample_driver = new_driver (projr (configure_chrome_h3 recording_quic)) sample_quic"

lemma sample_start: "driver_start recording_quic (Running sample_driver, [])"
proof -
  have "run_quic_driver recording_quic sample_quic = Some (Running sample_driver)"
    by (simp add: run_quic_driver_def sample_driver_def configure_chrome_h3_def recording_quic_def)
  then show ?thesis unfolding driver_start_def fst_conv snd_conv by blast
qed

lemma sample_flush: "flush_loop mem_quiche q = Some q"
  by (subst flush_loop.simps) (simp add: mem_quiche_def)

lemma sample_refused: "driver_step mem_quiche assoc_headers (Running sample_driver, [])
    (Running (reply 7 (Inl not_established) sample_driver), [7])"
proof -
  have "driver_iter mem_quiche assoc_headers (Command sample_cmd) sample_driver =
      Some (Running (reply 7 (Inl not_established) sample_driver))"
    by (simp add: driver_iter_def sample_flush handle_command_def sample_driver_def new_driver_def
        sample_cmd_def not_established_def)
  moreover have "\<not> q_is_closed mem_quiche (drv_conn sample_driver)" by (simp add: mem_quiche_def)
  ultimately show ?thesis
    using iteration[of mem_quiche sample_driver assoc_headers "Command sample_cmd"]
    by (simp add: sample_cmd_def)
qed

text \<open>
  C1 (invariant). The QUIC driver loses no request: in every state it can reach, under any order
  of commands, packets and timeouts, each request it took from its channel is either waiting under
  exactly one stream or has had its one-shot sender used exactly once, and when the loop has ended
  every one of them has been answered or released.
\<close>

theorem driver_loses_no_request:
  assumes "driver_start C s0" "(driver_step Q H)\<^sup>*\<^sup>* s0 (st, taken)"
  shows "mset taken = mset (map fst (drv_log (run_driver st))) +
      mset (map (\<lambda>p. pr_tx (snd p)) (drv_pending (run_driver st))) \<and>
    distinct (map fst (drv_pending (run_driver st))) \<and>
    (\<forall>d. st = Stopped d \<longrightarrow> mset (map fst (drv_log d)) = mset taken)"
proof -
  have "driver_inv (st, taken)" using drv.run_inv[OF assms] .
  then show ?thesis by (auto simp: senders_def keys_ok_def)
qed

theorem driver_loses_no_request_witness:
  "\<exists>d. (driver_step mem_quiche assoc_headers)\<^sup>*\<^sup>* (Running sample_driver, []) (Running d, [7]) \<and>
     mset (map fst (drv_log d)) + mset (map (\<lambda>p. pr_tx (snd p)) (drv_pending d)) = {#7#}"
  using driver_loses_no_request[OF sample_start r_into_rtranclp[of "driver_step mem_quiche assoc_headers", OF sample_refused]]
    sample_refused by (metis mset_single_iff_right r_into_rtranclp run_driver.simps(1))



text \<open>
  C17 (refinement). Polling implements the frame-by-frame semantics of the requests: it returns
  for every finite run of frames the connection delivers, and leaves the waiting requests and the
  answers exactly as applying the frames one by one does, whatever sizes the body reads come in.
\<close>

theorem poll_refines_frames:
  assumes "h3_peer Q script body_ready" "drv_h3 d = Some x"
  shows "\<exists>d'. poll_loop Q H d = Some d' \<and>
    requests_of d' = fold (frame_step H) (script x (drv_conn d)) (requests_of d)"
  by (rule h3_peer.poll_loop_frames[OF assms])

definition waiting :: "assoc_map pending_request" where
  "waiting = \<lparr>pr_status = None, pr_headers = [], pr_body = [], pr_url = ''https://quik.rs/'', pr_tx = 7\<rparr>"

definition sample_waiting :: "(mem_quic, unit, h3_call list, assoc_map) driver" where
  "sample_waiting = insert_pending 0 waiting (set_h3 () sample_quic sample_driver)"

lemma sample_waiting_simps:
  "drv_h3 sample_waiting = Some ()" "drv_conn sample_waiting = sample_quic"
  "drv_pending sample_waiting = [(0, waiting)]" "drv_log sample_waiting = []"
  by (simp_all add: sample_waiting_def insert_pending_def set_h3_def sample_driver_def new_driver_def)

theorem poll_refines_frames_witness:
  "\<exists>d'. poll_loop mem_quiche assoc_headers sample_waiting = Some d' \<and> drv_pending d' = []"
proof -
  have "fst (fold (frame_step assoc_headers) (fst sample_quic) ([(0, waiting)], [])) = []"
    by (simp add: sample_quic_def frame_step_def)
  then show ?thesis
    using poll_refines_frames[OF mem_h3.h3_peer_axioms sample_waiting_simps(1), of assoc_headers]
    by (auto simp: requests_of_def sample_waiting_simps) (metis fst_conv)
qed



text \<open>
  What \<open>send_body\<close> reports is not looked at: a command leaves the driver in the same
  state whether the connection took the whole request body, the part of it that fits the
  congestion window, or none, so the bytes that did not fit are never sent.
\<close>

theorem body_write_result_ignored:
  "handle_command (Q\<lparr>h3_send_body := \<lambda>s b fin x q. (report s b fin x q, snd (h3_send_body Q s b fin x q))\<rparr>)
     H c d = handle_command Q H c d"
  by (auto simp: handle_command_def Let_def split: option.splits prod.splits sum.splits)

fun pseudo_name :: "pseudo_order \<Rightarrow> string" where
  "pseudo_name Method = '':method''"
| "pseudo_name Authority = '':authority''"
| "pseudo_name Scheme = '':scheme''"
| "pseudo_name Path = '':path''"

text \<open>
  The header list of an HTTP/3 request starts with the four pseudo-headers, in
  the order method, scheme, authority, path, and has no pseudo-header after them; the regular
  fields follow in the order of the request's map, values unchanged. The order is not that of the
  default profile, which puts the authority before the scheme and which the session does not read.
\<close>

theorem pseudo_headers_first:
  assumes "\<forall>f \<in> set (hm_iter H (rq_headers request)). \<not> starts_with (fst f) '':''"
  shows "map fst (takeWhile (\<lambda>f. starts_with (fst f) '':'') (session_headers R H request)) =
      ['':method'', '':scheme'', '':authority'', '':path''] \<and>
    map fst (dropWhile (\<lambda>f. starts_with (fst f) '':'') (session_headers R H request)) =
      map fst (hm_iter H (rq_headers request)) \<and>
    map snd (dropWhile (\<lambda>f. starts_with (fst f) '':'') (session_headers R H request)) =
      map (hv_bytes \<circ> snd) (hm_iter H (rq_headers request)) \<and>
    map pseudo_name (h2p_pseudo_order base_h2_148) =
      ['':method'', '':authority'', '':scheme'', '':path'']"
proof -
  let ?P = "\<lambda>f :: h3_header. starts_with (fst f) '':''"
  let ?fs = "map (\<lambda>(name, val). (name, hv_bytes val)) (hm_iter H (rq_headers request))"
  have "takeWhile ?P ?fs = [] \<and> dropWhile ?P ?fs = ?fs"
    using assms by (cases "hm_iter H (rq_headers request)") auto
  moreover have "starts_with '':method'' '':''" "starts_with '':scheme'' '':''"
    "starts_with '':authority'' '':''" "starts_with '':path'' '':''"
    by (simp_all add: starts_with_def)
  moreover have "map pseudo_name (h2p_pseudo_order base_h2_148) = ['':method'', '':authority'', '':scheme'', '':path'']"
    by (simp add: base_h2_148_def PSEUDO_ORDER_148_def)
  ultimately show ?thesis by (simp add: session_headers_def case_prod_beta comp_def)
qed

theorem pseudo_headers_first_witness:
  "map fst (takeWhile (\<lambda>f. starts_with (fst f) '':'')
     (session_headers \<lparr>uri_parse = Inr, uri_text = id, uri_scheme = \<lambda>u. None, uri_authority = Some,
         uri_path_and_query = \<lambda>u. None, method_error = \<lambda>m. None\<rparr> assoc_headers
       \<lparr>rq_method = ''GET'', rq_uri = ''quik.rs'', rq_headers = [(''accept'', plain_value ''*/*'')]\<rparr>)) =
   ['':method'', '':scheme'', '':authority'', '':path'']"
  using pseudo_headers_first[of assoc_headers
      "\<lparr>rq_method = ''GET'', rq_uri = ''quik.rs'', rq_headers = [(''accept'', plain_value ''*/*'')]\<rparr>"]
  by (simp add: assoc_headers_def starts_with_def)

end
