(* ===== verification/Quic_System.thy ===== *)
theory Quic_System imports Quic_Session begin

text \<open>
  A QUIC session and its driver put together (\<open>QuicSession::send\<close> and \<open>run_quic_driver\<close> of
  \<open>src/client/quic.rs\<close>, joined by the channel that \<open>Client::dial\<close> makes): any number of callers
  put commands into the bounded channel, the driver takes them out one at a time between packets
  and timeouts, and every caller awaits its own one-shot channel.
\<close>

section \<open>The system\<close>

text \<open>\<open>mpsc::channel(100)\<close>.\<close>

definition channel_capacity :: nat where
  "channel_capacity = 100"

text \<open>
  \<open>sy_driver\<close> is the driver with the one-shot senders it has taken, \<open>sy_queue\<close> the channel,
  \<open>sy_dropped\<close> the senders that went down with the channel, \<open>sy_sent\<close> all commands sent so far and
  \<open>sy_issued\<close> their one-shot channels, latest first.
\<close>

record ('q, 'x, 'd, 'h) quic_system =
  sy_driver :: "('q, 'x, 'd, 'h) driver_run \<times> nat list"
  sy_queue :: "quic_command list"
  sy_dropped :: "nat list"
  sy_sent :: "quic_command list"

abbreviation sy_issued :: "('q, 'x, 'd, 'h) quic_system \<Rightarrow> nat list" where
  "sy_issued s \<equiv> map cmd_tx (sy_sent s)"

fun running :: "('q, 'x, 'd, 'h) driver_run \<Rightarrow> bool" where
  "running (Running d) = True"
| "running (Stopped d) = False"

text \<open>
  The driver is now \<open>dr\<close> and \<open>cs\<close> is left in the channel. When the driver's function has returned,
  its receiver is gone and the commands in the channel are dropped.
\<close>

definition after where
  "after dr cs s =
    (if running (fst dr) then s\<lparr>sy_driver := dr, sy_queue := cs\<rparr>
     else s\<lparr>sy_driver := dr, sy_queue := [], sy_dropped := map cmd_tx cs\<rparr>)"

text \<open>
  A caller's \<open>send\<close> goes through when there is room in the channel and the driver is there to
  receive; its one-shot channel is new.
\<close>

inductive system_step for Q :: "('q, 'x, 'd) quiche_ops" and H :: "'h header_ops" where
  submit: "running (fst (sy_driver s)) \<Longrightarrow> length (sy_queue s) < channel_capacity \<Longrightarrow>
    cmd_tx c \<notin> set (sy_issued s) \<Longrightarrow>
    system_step Q H s (s\<lparr>sy_queue := sy_queue s @ [c], sy_sent := c # sy_sent s\<rparr>)"
| take_command: "sy_driver s = (Running d, taken) \<Longrightarrow> \<not> q_is_closed Q (drv_conn d) \<Longrightarrow> sy_queue s = c # cs \<Longrightarrow>
    driver_iter Q H (Command c) d = Some r \<Longrightarrow> system_step Q H s (after (r, cmd_tx c # taken) cs s)"
| other_event: "sy_driver s = (Running d, taken) \<Longrightarrow> \<not> q_is_closed Q (drv_conn d) \<Longrightarrow> event_senders ev = [] \<Longrightarrow>
    driver_iter Q H ev d = Some r \<Longrightarrow> system_step Q H s (after (r, taken) (sy_queue s) s)"
| ended: "sy_driver s = (Running d, taken) \<Longrightarrow> q_is_closed Q (drv_conn d) \<Longrightarrow>
    system_step Q H s (after (Stopped (stop_driver d), taken) (sy_queue s) s)"

definition system_start where
  "system_start C s \<longleftrightarrow> driver_start C (sy_driver s) \<and> sy_queue s = [] \<and> sy_dropped s = [] \<and> sy_sent s = []"

text \<open>
  What the caller's \<open>response_rx.await\<close> finds: nothing yet, a result, or a sender that was dropped.
\<close>

definition outcome where
  "outcome s tx =
    (if tx \<in> set (sy_dropped s) then Some None else map_of (drv_log (run_driver (fst (sy_driver s)))) tx)"

definition caller_result where
  "caller_result s tx = map_option (\<lambda>r. case r of Some res \<Rightarrow> res | None \<Rightarrow> Inl (connect_other ''channel closed''))
     (outcome s tx)"

text \<open>The requests the driver has taken and not answered.\<close>

definition in_flight where
  "in_flight s = map (\<lambda>p. pr_tx (snd p)) (drv_pending (run_driver (fst (sy_driver s))))"

section \<open>The invariant\<close>

definition system_inv where
  "system_inv s \<longleftrightarrow> driver_inv (sy_driver s) \<and> distinct (sy_issued s) \<and>
     rev (snd (sy_driver s)) @ map cmd_tx (sy_queue s) @ sy_dropped s = rev (sy_issued s) \<and>
     length (sy_queue s) \<le> channel_capacity \<and>
     (if running (fst (sy_driver s)) then sy_dropped s = [] else sy_queue s = [])"

lemma after_driver [simp]: "sy_driver (after dr cs s) = dr"
  by (simp add: after_def)

lemma system_step_driver:
  assumes "system_step Q H s s'"
  shows "sy_driver s' = sy_driver s \<or> driver_step Q H (sy_driver s) (sy_driver s')"
  using assms
proof cases
  case (take_command d taken c cs r)
  with iteration[of Q d H "Command c" r taken] show ?thesis by simp
next
  case (other_event d taken ev r)
  with iteration[of Q d H ev r taken] show ?thesis by simp
next
  case (ended d taken)
  with closed[of Q d H taken] show ?thesis by simp
qed simp

lemma driver_start_running: "driver_start C dr \<Longrightarrow> snd dr = [] \<and> running (fst dr)"
  by (cases "configure_chrome_h3 C") (auto simp: driver_start_def run_quic_driver_def dest: sym)

lemma after_inv:
  assumes "rev (snd dr) @ map cmd_tx cs = rev (sy_issued s)" "length cs \<le> channel_capacity"
    "distinct (sy_issued s)" "sy_dropped s = []" "driver_inv dr"
  shows "system_inv (after dr cs s)"
  using assms by (simp add: system_inv_def after_def)

interpretation sys: machine_invariant "system_start C" "system_step Q H" system_inv
proof unfold_locales
  fix s :: "('c, 'd, 'b, 'e) quic_system"
  assume start: "system_start C s"
  then have dr: "driver_start C (sy_driver s)" by (simp add: system_start_def)
  from driver_start_running[OF dr] drv.start_inv[OF dr] start show "system_inv s"
    by (simp add: system_inv_def system_start_def)
next
  fix s s'
  assume inv: "system_inv s" and step: "system_step Q H s s'"
  have drv: "driver_inv (sy_driver s')"
  proof -
    have "driver_inv (sy_driver s)" using inv by (simp add: system_inv_def)
    with system_step_driver[OF step] drv.step_inv show ?thesis by metis
  qed
  from step show "system_inv s'"
  proof cases
    case (submit c)
    with inv show ?thesis by (auto simp: system_inv_def)
  next
    case (take_command d taken c cs r)
    with drv have "driver_inv (r, cmd_tx c # taken)" by (simp del: driver_inv.simps)
    with take_command(2-) inv show ?thesis unfolding take_command(1)
      by (intro after_inv) (auto simp: system_inv_def simp del: driver_inv.simps)
  next
    case (other_event d taken ev r)
    with drv have "driver_inv (r, taken)" by (simp del: driver_inv.simps)
    with other_event(2-) inv show ?thesis unfolding other_event(1)
      by (intro after_inv) (auto simp: system_inv_def simp del: driver_inv.simps)
  next
    case (ended d taken)
    with drv have "driver_inv (Stopped (stop_driver d), taken)" by (simp del: driver_inv.simps)
    with ended(2-) inv show ?thesis unfolding ended(1)
      by (intro after_inv) (auto simp: system_inv_def simp del: driver_inv.simps)
  qed
qed

section \<open>Outcomes\<close>

lemma system_counts:
  assumes "system_inv s"
  shows "mset (sy_issued s) = mset (map fst (drv_log (run_driver (fst (sy_driver s))))) + mset (in_flight s) +
    mset (map cmd_tx (sy_queue s)) + mset (sy_dropped s)"
proof -
  obtain dr taken where d: "sy_driver s = (dr, taken)" by fastforce
  have "mset (rev taken @ map cmd_tx (sy_queue s) @ sy_dropped s) = mset (rev (sy_issued s))"
    using assms d unfolding system_inv_def by (metis snd_conv)
  then have "mset (sy_issued s) = mset taken + mset (map cmd_tx (sy_queue s)) + mset (sy_dropped s)"
    by (simp add: add.assoc)
  then show ?thesis using assms d by (simp add: system_inv_def senders_def in_flight_def)
qed

text \<open>Each one-shot channel is in one place.\<close>

lemma outcome_None_iff:
  assumes "system_inv s" "tx \<in> set (sy_issued s)"
  shows "outcome s tx = None \<longleftrightarrow> tx \<in> set (map cmd_tx (sy_queue s)) \<union> set (in_flight s)"
proof -
  let ?log = "map fst (drv_log (run_driver (fst (sy_driver s))))"
  have "distinct (?log @ in_flight s @ map cmd_tx (sy_queue s) @ sy_dropped s)"
  proof -
    have "mset (?log @ in_flight s @ map cmd_tx (sy_queue s) @ sy_dropped s) = mset (sy_issued s)"
      using system_counts[OF assms(1)] by simp
    moreover have "distinct (sy_issued s)" using assms(1) by (simp add: system_inv_def)
    ultimately show ?thesis by (metis mset_eq_imp_distinct_iff)
  qed
  moreover have "set (sy_issued s) = set ?log \<union> set (in_flight s) \<union> set (map cmd_tx (sy_queue s)) \<union> set (sy_dropped s)"
    using system_counts[OF assms(1)] by (metis set_mset_mset set_mset_union)
  moreover have "map_of (drv_log (run_driver (fst (sy_driver s)))) tx = None \<longleftrightarrow> tx \<notin> set ?log"
    by (simp add: map_of_eq_None_iff)
  ultimately show ?thesis using assms(2) unfolding outcome_def by auto
qed

section \<open>Properties\<close>

text \<open>
  C2 (liveness). Every request sent over a session is settled: in every state of the session and
  its driver, whatever the callers and the peer do, a caller still waits exactly when its request
  is in the channel or under a stream; the channel never holds more than its hundred commands and
  is served in the order the requests were sent; the next command can be taken as soon as the
  driver gets round; and when the driver has ended nobody waits any more: every caller has
  a result, or the error of a closed channel.
\<close>

theorem session_requests_settled:
  assumes "system_start C s0" "(system_step Q H)\<^sup>*\<^sup>* s0 s"
  shows "(\<forall>tx \<in> set (sy_issued s).
      caller_result s tx = None \<longleftrightarrow> tx \<in> set (map cmd_tx (sy_queue s)) \<union> set (in_flight s)) \<and>
    length (sy_queue s) \<le> 100 \<and>
    rev (snd (sy_driver s)) @ map cmd_tx (sy_queue s) @ sy_dropped s = rev (sy_issued s) \<and>
    (\<forall>d taken c cs. sy_driver s = (Running d, taken) \<and> sy_queue s = c # cs \<and> \<not> q_is_closed Q (drv_conn d) \<and>
       flush_loop Q (drv_conn d) \<noteq> None \<longrightarrow> (\<exists>s'. system_step Q H s s' \<and> sy_queue s' = cs)) \<and>
    (\<not> running (fst (sy_driver s)) \<longrightarrow> (\<forall>tx \<in> set (sy_issued s). caller_result s tx \<noteq> None))"
proof -
  have inv: "system_inv s" using sys.run_inv[OF assms] .
  have waits: "caller_result s tx = None \<longleftrightarrow> tx \<in> set (map cmd_tx (sy_queue s)) \<union> set (in_flight s)"
    if "tx \<in> set (sy_issued s)" for tx
    using outcome_None_iff[OF inv that] by (simp add: caller_result_def)
  have take: "\<exists>s'. system_step Q H s s' \<and> sy_queue s' = cs"
    if asm: "sy_driver s = (Running d, taken)" "sy_queue s = c # cs" "\<not> q_is_closed Q (drv_conn d)"
      "flush_loop Q (drv_conn d) \<noteq> None" for d taken c cs
  proof -
    obtain d' where "driver_iter Q H (Command c) d = Some (Running d')"
      using asm(4) by (auto simp: driver_iter_def Let_def)
    from system_step.take_command[OF asm(1,3,2) this] show ?thesis
      by (auto simp: after_def)
  qed
  have "in_flight s = [] \<and> sy_queue s = []" if "\<not> running (fst (sy_driver s))"
    using inv that by (cases "sy_driver s"; cases "fst (sy_driver s)") (auto simp: system_inv_def in_flight_def)
  with inv waits take show ?thesis by (auto simp: system_inv_def channel_capacity_def)
qed

text \<open>A caller, and a driver that refuses its request before the handshake.\<close>

definition sample_system where
  "sample_system = \<lparr>sy_driver = (Running sample_driver, []), sy_queue = [], sy_dropped = [], sy_sent = []\<rparr>"

lemma sample_cmd_tx [simp]: "cmd_tx sample_cmd = 7"
  by (simp add: sample_cmd_def)

theorem session_requests_settled_witness:
  "\<exists>s. (system_step mem_quiche assoc_headers)\<^sup>*\<^sup>* sample_system s \<and> sy_issued s = [7] \<and>
     caller_result s 7 = Some (Inl not_established)"
proof -
  let ?s1 = "sample_system\<lparr>sy_queue := [sample_cmd], sy_sent := [sample_cmd]\<rparr>"
  let ?d = "reply 7 (Inl not_established) sample_driver"
  let ?s2 = "sample_system\<lparr>sy_driver := (Running ?d, [7]), sy_sent := [sample_cmd]\<rparr>"
  have start: "system_start recording_quic sample_system"
    using sample_start by (simp add: system_start_def sample_system_def)
  have one: "system_step mem_quiche assoc_headers sample_system ?s1"
    using submit[of sample_system sample_cmd mem_quiche assoc_headers]
    by (simp add: sample_system_def channel_capacity_def sample_cmd_def)
  have "driver_iter mem_quiche assoc_headers (Command sample_cmd) sample_driver = Some (Running ?d)"
    by (simp add: driver_iter_def sample_flush handle_command_def sample_driver_def new_driver_def
        sample_cmd_def not_established_def)
  with take_command[of ?s1 sample_driver "[]" mem_quiche sample_cmd "[]" assoc_headers "Running ?d"]
  have two: "system_step mem_quiche assoc_headers ?s1 ?s2"
    by (simp add: sample_system_def after_def mem_quiche_def sample_cmd_def)
  have run: "(system_step mem_quiche assoc_headers)\<^sup>*\<^sup>* sample_system ?s2"
    using one two by (blast intro: rtranclp_trans r_into_rtranclp)
  have "in_flight ?s2 = []"
    by (simp add: in_flight_def sample_driver_def new_driver_def)
  with session_requests_settled[OF start run] have "caller_result ?s2 7 \<noteq> None"
    by (simp add: sample_system_def)
  moreover have "caller_result ?s2 7 = Some (Inl not_established)"
    by (simp add: caller_result_def outcome_def reply_def sample_system_def)
  ultimately show ?thesis using run by (intro exI[of _ ?s2]) simp
qed

end
