(* ===== verification/Quic_Answers.thy ===== *)
theory Quic_Answers imports Quic_System begin

text \<open>
  \<open>QuicSession::send\<close> end to end (\<open>src/client/quic.rs\<close>): what a caller gets back through the channel
  from the driver is the answer to its own request.
\<close>

section \<open>Answers belong to commands\<close>

text \<open>
  In \<open>asked cs tx url\<close> one of the commands \<open>cs\<close> has the sender \<open>tx\<close> and the URL. In \<open>own\<close> every waiting
  request and every answer of the driver is that of a command among \<open>cs\<close>.
\<close>

definition asked :: "quic_command set \<Rightarrow> nat \<Rightarrow> string \<Rightarrow> bool" where
  "asked cs tx url \<longleftrightarrow> (\<exists>c \<in> cs. cmd_tx c = tx \<and> cmd_url c = url)"

definition own :: "quic_command set \<Rightarrow> ('q, 'x, 'd, 'h) driver \<Rightarrow> bool" where
  "own cs d \<longleftrightarrow>
     (\<forall>sid p. map_of (drv_pending d) sid = Some p \<longrightarrow> asked cs (pr_tx p) (pr_url p)) \<and>
     (\<forall>tx r. (tx, Some (Inr r)) \<in> set (drv_log d) \<longrightarrow> asked cs tx (rs_url r))"

lemma asked_mono: "asked cs tx url \<Longrightarrow> cs \<subseteq> cs' \<Longrightarrow> asked cs' tx url"
  by (auto simp: asked_def)

lemma own_mono: "own cs d \<Longrightarrow> cs \<subseteq> cs' \<Longrightarrow> own cs' d"
  unfolding own_def by (meson asked_mono)

lemma log_simps [simp]:
  "drv_log (reply tx r d) = (tx, Some r) # drv_log d"
  "drv_log (drop_sender tx d) = (tx, None) # drv_log d"
  "drv_log (set_h3 x q d) = drv_log d"
  "drv_log (set_pending sid p d) = drv_log d"
  "drv_log (remove_pending sid d) = drv_log d"
  by (simp_all add: reply_def drop_sender_def set_h3_def set_pending_def remove_pending_def)

lemma log_insert: "e \<in> set (drv_log (insert_pending sid p d)) \<longleftrightarrow>
    e \<in> set (drv_log d) \<or> (\<exists>old. map_of (drv_pending d) sid = Some old \<and> e = (pr_tx old, None))"
  by (auto simp: insert_pending_def Let_def split: option.split)

lemma own_steps:
  "own cs (set_h3 x q d) = own cs d"
  "own cs (d\<lparr>drv_conn := q\<rparr>) = own cs d"
  "own cs d \<Longrightarrow> own cs (reply tx (Inl e) d)"
  "own cs d \<Longrightarrow> own cs (remove_pending sid d)"
  "own cs d \<Longrightarrow> own cs (stop_driver d)"
  "own cs d \<Longrightarrow> asked cs (pr_tx p) (pr_url p) \<Longrightarrow> own cs (set_pending sid p d)"
  "own cs d \<Longrightarrow> asked cs (pr_tx p) (pr_url p) \<Longrightarrow> own cs (insert_pending sid p d)"
  "own cs d \<Longrightarrow> asked cs tx (rs_url r) \<Longrightarrow> own cs (reply tx (Inr r) d)"
  by (auto simp: own_def log_insert stop_driver_def split: if_splits)

lemma own_pending: "own cs d \<Longrightarrow> map_of (drv_pending d) sid = Some p \<Longrightarrow> asked cs (pr_tx p) (pr_url p)"
  by (simp add: own_def)

lemma own_command:
  assumes "own cs d" "c \<in> cs"
  shows "own cs (handle_command Q H c d)"
proof -
  have "asked cs (cmd_tx c) (cmd_url c)" using assms(2) by (auto simp: asked_def)
  with assms(1) show ?thesis
    by (auto simp: handle_command_def Let_def own_steps split: option.split prod.split sum.split)
qed

lemma own_event:
  assumes "handle_event Q H sid ev x d = Some d'" "own cs d"
  shows "own cs d'"
proof (cases "map_of (drv_pending d) sid")
  case None
  with assms show ?thesis by (cases ev) auto
next
  case (Some req)
  from own_pending[OF assms(2) this] have "asked cs (pr_tx req) (pr_url req)" .
  with assms Some show ?thesis
    by (cases ev) (auto simp: own_steps fold_add_header finish_request_def response_new_def)
qed

lemma own_poll:
  assumes "poll_loop Q H d = Some d'" "own cs d"
  shows "own cs d'"
proof -
  have "own cs d \<longrightarrow> own cs d'"
  proof (rule poll_loop.raw_induct[OF _ assms(1), where P = "\<lambda>Q H d d'. own cs d \<longrightarrow> own cs d'"], intro impI)
    fix f and Q :: "('a, 'b, 'c) quiche_ops" and H :: "'d header_ops" and d d'
    assume IH: "\<And>Q H d d'. f Q H d = Some d' \<Longrightarrow> own cs d \<longrightarrow> own cs d'"
      and body: "(case drv_h3 d of
       None \<Rightarrow> Some d
     | Some x \<Rightarrow>
         (case h3_poll Q x (drv_conn d) of
            (Inl e, x', q') \<Rightarrow> Some (set_h3 x' q' d)
          | (Inr (sid, ev), x', q') \<Rightarrow>
              Option.bind (handle_event Q H sid ev x' (set_h3 x' q' d)) (f Q H))) = Some d'"
      and own: "own cs d"
    show "own cs d'"
      using body own
      by (auto dest!: IH own_event[where cs = cs] simp: own_steps bind_eq_Some_conv
          split: option.splits prod.splits sum.splits)
  qed
  with assms(2) show ?thesis by blast
qed

lemma own_packet: "handle_packet Q H p d = Some r \<Longrightarrow> own cs d \<Longrightarrow> own cs (run_driver r)"
  by (auto simp: handle_packet_def Let_def own_steps dest!: own_poll[where cs = cs]
      split: sum.splits prod.splits if_splits)

lemma own_iter:
  assumes "driver_iter Q H ev d = Some r" "own cs d" "\<forall>c. ev = Command c \<longrightarrow> c \<in> cs"
  shows "own cs (run_driver r)"
  using assms
  by (auto simp: driver_iter_def Let_def own_steps own_command dest!: own_packet[where cs = cs]
      split: option.splits driver_event.splits)

section \<open>In the system\<close>

definition answers_own where
  "answers_own s \<longleftrightarrow> own (set (sy_sent s)) (run_driver (fst (sy_driver s))) \<and> set (sy_queue s) \<subseteq> set (sy_sent s)"

lemma after_sent [simp]: "sy_sent (after dr cs s) = sy_sent s"
  by (simp add: after_def)

lemma after_queue: "set (sy_queue (after dr cs s)) \<subseteq> set cs"
  by (simp add: after_def)

interpretation answers: machine_invariant "system_start C" "system_step Q H" answers_own
proof unfold_locales
  fix s :: "('c, 'd, 'b, 'e) quic_system"
  assume start: "system_start C s"
  then obtain conn where "run_quic_driver C conn = Some (fst (sy_driver s))"
    unfolding system_start_def driver_start_def by blast
  then obtain cfg where "Running (new_driver cfg conn) = fst (sy_driver s)"
    by (auto simp: run_quic_driver_def split: sum.splits)
  then have "run_driver (fst (sy_driver s)) = new_driver cfg conn" by (metis run_driver.simps(1))
  with start show "answers_own s" by (simp add: system_start_def answers_own_def own_def new_driver_def)
next
  fix s s' :: "('c, 'd, 'b, 'e) quic_system"
  assume inv: "answers_own s" and step: "system_step Q H s s'"
  from step show "answers_own s'"
  proof cases
    case (submit c)
    with inv show ?thesis by (auto simp: answers_own_def intro: own_mono)
  next
    case (take_command d taken c cs r)
    with inv own_iter[OF take_command(5), of "set (sy_sent s)"] after_queue[of "(r, cmd_tx c # taken)" cs s]
    show ?thesis by (auto simp: answers_own_def)
  next
    case (other_event d taken ev r)
    then have "\<forall>c. ev \<noteq> Command c" by auto
    with other_event inv own_iter[OF other_event(5), of "set (sy_sent s)"] after_queue[of "(r, taken)" "sy_queue s" s]
    show ?thesis by (auto simp: answers_own_def)
  next
    case (ended d taken)
    with inv after_queue[of "(Stopped (stop_driver d), taken)" "sy_queue s" s]
    show ?thesis by (auto simp: answers_own_def own_steps)
  qed
qed

lemma system_step_sent: "system_step Q H s s' \<Longrightarrow> set (sy_sent s) \<subseteq> set (sy_sent s')"
  by (auto elim!: system_step.cases)

lemma system_steps_sent: "(system_step Q H)\<^sup>*\<^sup>* s s' \<Longrightarrow> set (sy_sent s) \<subseteq> set (sy_sent s')"
  by (induction rule: rtranclp_induct) (use system_step_sent in fast)+

lemma outcome_answer:
  assumes "answers_own s" "outcome s tx = Some (Some (Inr r))"
  shows "asked (set (sy_sent s)) tx (rs_url r)"
  using assms map_of_SomeD[of "drv_log (run_driver (fst (sy_driver s)))" tx]
  by (auto simp: outcome_def answers_own_def own_def split: if_splits)

lemma one_command:
  assumes "system_inv s" "c \<in> set (sy_sent s)" "asked (set (sy_sent s)) (cmd_tx c) url"
  shows "cmd_url c = url"
proof -
  have "inj_on cmd_tx (set (sy_sent s))" using assms(1) by (simp add: system_inv_def distinct_map)
  with assms(2,3) show ?thesis by (auto simp: asked_def dest: inj_onD)
qed

section \<open>A channel that leads to the driver\<close>

text \<open>
  What the two halves of \<open>QuicSession::send\<close> rely on; \<open>sys t\<close> is the system of the session with the
  sender \<open>t\<close>. A new one-shot channel is not in use; while a caller waits to send or for its answer
  the systems make steps; a sent command is in the channel; and an answer is the one that the
  driver has put into the caller's one-shot channel.
\<close>

locale session_channel =
  fixes X :: "('h, 'w) channel_ops" and Q :: "('q, 'x, 'd) quiche_ops" and H :: "'h header_ops"
    and sys :: "nat \<Rightarrow> 'w \<Rightarrow> ('q, 'x, 'd, 'h) quic_system"
  assumes oneshot_new: "ch_oneshot X w = (tx, w') \<Longrightarrow> sys t w' = sys t w \<and> tx \<notin> set (sy_issued (sys t w))"
    and send_steps: "ch_send X t c w = (sent, w') \<Longrightarrow> cmd_tx c \<notin> set (sy_issued (sys t w)) \<Longrightarrow>
      (system_step Q H)\<^sup>*\<^sup>* (sys u w) (sys u w') \<and> (sent = Inr () \<longrightarrow> c \<in> set (sy_sent (sys t w')))"
    and await_steps: "ch_await X tx w = (answer, w') \<Longrightarrow>
      (system_step Q H)\<^sup>*\<^sup>* (sys u w) (sys u w') \<and>
      (\<forall>x. answer = Inr x \<longrightarrow> tx \<in> set (sy_issued (sys t w)) \<longrightarrow> outcome (sys t w') tx = Some (Some x))"
begin

lemma session_begin_command:
  assumes "session_begin R H X session request body w = (r, w')"
  shows "(system_step Q H)\<^sup>*\<^sup>* (sys u w) (sys u w')"
    "r = Inr tx \<Longrightarrow> \<lparr>cmd_headers = session_headers R H request, cmd_body = body,
       cmd_url = uri_text R (rq_uri request), cmd_tx = tx\<rparr> \<in> set (sy_sent (sys (qs_tx session) w'))"
proof -
  obtain tx1 w1 where one: "ch_oneshot X w = (tx1, w1)" by fastforce
  define c where "c = \<lparr>cmd_headers = session_headers R H request, cmd_body = body,
    cmd_url = uri_text R (rq_uri request), cmd_tx = tx1\<rparr>"
  have tx: "cmd_tx c = tx1" by (simp add: c_def)
  obtain r2 w2 where send: "ch_send X (qs_tx session) c w1 = (r2, w2)" by fastforce
  have steps: "(system_step Q H)\<^sup>*\<^sup>* (sys v w) (sys v w2)" "r2 = Inr () \<longrightarrow> c \<in> set (sy_sent (sys (qs_tx session) w2))" for v
    using send_steps[OF send, of v] oneshot_new[OF one] tx by simp_all
  have "w' = w2" "r = (case r2 of Inl e \<Rightarrow> Inl (connect_other e) | Inr u \<Rightarrow> Inr tx1)"
    using assms one send
    by (auto simp: session_begin_def c_def Let_def try_st_def map_err_st_def split: sum.splits)
  with steps show "(system_step Q H)\<^sup>*\<^sup>* (sys u w) (sys u w')"
    "r = Inr tx \<Longrightarrow> \<lparr>cmd_headers = session_headers R H request, cmd_body = body,
       cmd_url = uri_text R (rq_uri request), cmd_tx = tx\<rparr> \<in> set (sy_sent (sys (qs_tx session) w'))"
    by (auto simp: c_def split: sum.splits)
qed

lemma session_begin_new:
  assumes "session_begin R H X session request body w = (Inr tx, w')"
  shows "tx \<notin> set (sy_issued (sys t w))"
  using assms oneshot_new[of w] by (auto simp: session_begin_def Let_def try_st_Inr_iff split: prod.splits)

lemma session_finish_answer:
  assumes "session_finish X tx w = (r, w')"
  shows "(system_step Q H)\<^sup>*\<^sup>* (sys u w) (sys u w')"
    "r = Inr resp \<Longrightarrow> tx \<in> set (sy_issued (sys t w)) \<Longrightarrow> outcome (sys t w') tx = Some (Some (Inr resp))"
proof -
  obtain a w1 where await: "ch_await X tx w = (a, w1)" by fastforce
  have "w' = w1" "r = (case a of Inl e \<Rightarrow> Inl (connect_other e) | Inr x \<Rightarrow> x)"
    using assms await by (auto simp: session_finish_def try_st_def map_err_st_def split: sum.splits)
  with await_steps[OF await] show "(system_step Q H)\<^sup>*\<^sup>* (sys u w) (sys u w')"
    "r = Inr resp \<Longrightarrow> tx \<in> set (sy_issued (sys t w)) \<Longrightarrow> outcome (sys t w') tx = Some (Some (Inr resp))"
    by (auto split: sum.splits)
qed

lemma session_send_answer:
  assumes "system_start C s0" "(system_step Q H)\<^sup>*\<^sup>* s0 (sys (qs_tx session) w)"
    and "session_send R H X session request body w = (r, w')"
  shows "(system_step Q H)\<^sup>*\<^sup>* s0 (sys (qs_tx session) w') \<and>
    (\<forall>resp. r = Inr resp \<longrightarrow> rs_url resp = uri_text R (rq_uri request) \<and>
      (\<exists>c \<in> set (sy_sent (sys (qs_tx session) w')).
         cmd_headers c = session_headers R H request \<and> cmd_body c = body \<and>
         caller_result (sys (qs_tx session) w') (cmd_tx c) = Some (Inr resp)))"
proof -
  let ?s = "sys (qs_tx session)"
  obtain r1 w1 where sent: "session_begin R H X session request body w = (r1, w1)" by fastforce
  note steps1 = rtranclp_trans[OF assms(2) session_begin_command(1)[OF sent]]
  show ?thesis
  proof (cases r1)
    case (Inl e)
    with assms(3) sent have "r = Inl e" "w' = w1" by (simp_all add: session_send_parts)
    with steps1 show ?thesis by simp
  next
    case (Inr tx)
    define c where "c = \<lparr>cmd_headers = session_headers R H request, cmd_body = body,
      cmd_url = uri_text R (rq_uri request), cmd_tx = tx\<rparr>"
    have c: "c \<in> set (sy_sent (?s w1))" "cmd_tx c = tx"
      using session_begin_command(2)[OF sent Inr] by (simp_all add: c_def)
    from assms(3) sent Inr have fin: "session_finish X tx w1 = (r, w')" by (simp add: session_send_parts)
    note steps2 = rtranclp_trans[OF steps1 session_finish_answer(1)[OF fin]]
    have c': "c \<in> set (sy_sent (?s w'))"
      using c(1) system_steps_sent[OF session_finish_answer(1)[OF fin]] by blast
    have "rs_url resp = cmd_url c \<and> caller_result (?s w') tx = Some (Inr resp)" if "r = Inr resp" for resp
    proof -
      have out: "outcome (?s w') tx = Some (Some (Inr resp))"
        using session_finish_answer(2)[OF fin that] c by force
      with outcome_answer[OF answers.run_inv[OF assms(1) steps2] out] one_command[OF sys.run_inv[OF assms(1) steps2] c'] c(2)
      show ?thesis by (auto simp: caller_result_def)
    qed
    with steps2 c' c(2) show ?thesis by (auto simp: c_def intro!: bexI[of _ c])
  qed
qed

end

section \<open>The channel of the model's driver\<close>

text \<open>
  The world of a caller that runs the driver while it waits: the system, and what \<open>select!\<close> will
  pick, \<open>None\<close> for the next command of the channel. Where the list ends the caller stops waiting.
\<close>

type_synonym ('q, 'x, 'd, 'h) driven = "('q, 'x, 'd, 'h) quic_system \<times> driver_event option list"

definition drive where
  "drive Q H m s =
    (case sy_driver s of
       (Stopped d, taken) \<Rightarrow> s
     | (Running d, taken) \<Rightarrow>
         if q_is_closed Q (drv_conn d) then after (Stopped (stop_driver d), taken) (sy_queue s) s
         else (case m of
             None \<Rightarrow> (case sy_queue s of
                 [] \<Rightarrow> s
               | c # cs \<Rightarrow> (case driver_iter Q H (Command c) d of
                     Some r \<Rightarrow> after (r, cmd_tx c # taken) cs s | None \<Rightarrow> s))
           | Some ev \<Rightarrow>
               if event_senders ev \<noteq> [] then s
               else (case driver_iter Q H ev d of Some r \<Rightarrow> after (r, taken) (sy_queue s) s | None \<Rightarrow> s)))"

fun drive_until where
  "drive_until Q H P (s, []) = (s, [])"
| "drive_until Q H P (s, m # ms) = (if P s then (s, m # ms) else drive_until Q H P (drive Q H m s, ms))"

definition room :: "('q, 'x, 'd, 'h) quic_system \<Rightarrow> bool" where
  "room s \<longleftrightarrow> length (sy_queue s) < channel_capacity \<or> \<not> running (fst (sy_driver s))"

definition settled :: "nat \<Rightarrow> ('q, 'x, 'd, 'h) quic_system \<Rightarrow> bool" where
  "settled tx s \<longleftrightarrow> outcome s tx \<noteq> None"

definition driven_channel ::
  "('q, 'x, 'd) quiche_ops \<Rightarrow> 'h header_ops \<Rightarrow> ('h, ('q, 'x, 'd, 'h) driven) channel_ops" where
  "driven_channel Q H = \<lparr>
     ch_oneshot = (\<lambda>w. (Suc (fold max (sy_issued (fst w)) 0), w)),
     ch_send = (\<lambda>t c w.
       let (s, ms) = drive_until Q H room w
       in if running (fst (sy_driver s)) \<and> length (sy_queue s) < channel_capacity
          then (Inr (), (s\<lparr>sy_queue := sy_queue s @ [c], sy_sent := c # sy_sent s\<rparr>, ms))
          else (Inl ''channel closed'', (s, ms))),
     ch_await = (\<lambda>tx w.
       let (s, ms) = drive_until Q H (settled tx) w
       in (case outcome s tx of
             Some (Some r) \<Rightarrow> (Inr r, (s, ms))
           | _ \<Rightarrow> (Inl ''channel closed'', (s, ms)))) \<rparr>"

lemma drive_steps: "(system_step Q H)\<^sup>*\<^sup>* s (drive Q H m s)"
proof (cases "sy_driver s")
  case (Pair dr taken)
  show ?thesis
  proof (cases dr)
    case (Running d)
    note s = Pair[unfolded Running]
    show ?thesis
    proof (cases "q_is_closed Q (drv_conn d)")
      case True
      with ended[OF s True] s show ?thesis by (auto simp: drive_def)
    next
      case False
      with take_command[OF s False] other_event[OF s False] s show ?thesis
        by (auto simp: drive_def split: option.split list.split)
    qed
  qed (use Pair in \<open>simp add: drive_def\<close>)
qed

lemma drive_sent: "sy_sent (drive Q H m s) = sy_sent s"
  by (auto simp: drive_def split: prod.split driver_run.split option.split list.split)

lemma drive_until_steps:
  "(system_step Q H)\<^sup>*\<^sup>* (fst w) (fst (drive_until Q H P w)) \<and> sy_sent (fst (drive_until Q H P w)) = sy_sent (fst w)"
proof (induction Q H P w rule: drive_until.induct)
  case (2 Q H P s m ms)
  then show ?case using drive_steps[of Q H s m] by (auto simp: drive_sent intro: rtranclp_trans)
qed simp

lemma fold_max_bound: "x \<in> set xs \<Longrightarrow> x \<le> fold max xs (n :: nat)" "n \<le> fold max xs n"
proof (induction xs arbitrary: n)
  case (Cons y xs)
  { case 1 with Cons.IH(1)[of "max y n"] Cons.IH(2)[of "max y n"] show ?case by auto }
  { case 2 from Cons.IH(2)[of "max y n"] show ?case by simp }
qed simp_all

interpretation driven: session_channel "driven_channel Q H" Q H "\<lambda>t. fst"
proof unfold_locales
  fix w w' :: "('a, 'b, 'c, 'd) driven" and tx
  assume "ch_oneshot (driven_channel Q H) w = (tx, w')"
  then show "fst w' = fst w \<and> tx \<notin> set (sy_issued (fst w))"
    using fold_max_bound(1)[of _ "sy_issued (fst w)" 0] by (fastforce simp: driven_channel_def)
next
  fix w w' :: "('a, 'b, 'c, 'd) driven" and c t r
  assume send: "ch_send (driven_channel Q H) t c w = (r, w')" and new: "cmd_tx c \<notin> set (sy_issued (fst w))"
  obtain s ms where d: "drive_until Q H room w = (s, ms)" by fastforce
  have steps: "(system_step Q H)\<^sup>*\<^sup>* (fst w) s" "sy_sent s = sy_sent (fst w)"
    using drive_until_steps[of Q H w room] d by simp_all
  show "(system_step Q H)\<^sup>*\<^sup>* (fst w) (fst w') \<and> (r = Inr () \<longrightarrow> c \<in> set (sy_sent (fst w')))"
    using send steps new submit[of s c Q H]
    by (auto simp: driven_channel_def d split: if_splits intro: rtranclp.rtrancl_into_rtrancl)
next
  fix w w' :: "('a, 'b, 'c, 'd) driven" and tx r
  assume await: "ch_await (driven_channel Q H) tx w = (r, w')"
  obtain s ms where d: "drive_until Q H (settled tx) w = (s, ms)" by fastforce
  have "(system_step Q H)\<^sup>*\<^sup>* (fst w) s"
    using drive_until_steps[of Q H w "settled tx"] d by simp
  then show "(system_step Q H)\<^sup>*\<^sup>* (fst w) (fst w') \<and> 
       (\<forall>x. r = Inr x \<longrightarrow> tx \<in> set (sy_issued (fst w)) \<longrightarrow> outcome (fst w') tx = Some (Some x))"
    using await by (auto simp: driven_channel_def d split: option.splits)
qed

section \<open>Properties\<close>

text \<open>
  C3 (safety). A request over HTTP/3 gets its own answer: whatever other callers send over the
  session, in whatever order commands, packets and timeouts come to the driver and however the peer mixes
  the frames of their streams, the response that \<open>send\<close> returns is the one the driver gave to
  the command that this \<open>send\<close> put into the channel, with this request's headers and body, and it carries the
  request's URL. The driver and the channel stay in a state they can reach.
\<close>

theorem session_answer_is_own:
  assumes "session_channel X Q H sys" "system_start C s0" "(system_step Q H)\<^sup>*\<^sup>* s0 (sys (qs_tx session) w)"
    and "session_send R H X session request body w = (r, w')"
  shows "(system_step Q H)\<^sup>*\<^sup>* s0 (sys (qs_tx session) w') \<and>
    (\<forall>resp. r = Inr resp \<longrightarrow> rs_url resp = uri_text R (rq_uri request) \<and>
      (\<exists>c \<in> set (sy_sent (sys (qs_tx session) w')).
         cmd_headers c = session_headers R H request \<and> cmd_body c = body \<and>
         caller_result (sys (qs_tx session) w') (cmd_tx c) = Some (Inr resp)))"
  by (rule session_channel.session_send_answer[OF assms])

text \<open>
  A driver whose peer answers two streams at once when a datagram with the byte 1 comes in, and whose
  body comes two bytes at a time. The first stream is another caller's, whose command is in the channel before.
\<close>

definition answer_frames :: "(u64 \<times> h3_frame) list" where
  "answer_frames = [(0, FHeaders [(''server'', ''q'')]), (4, FData [9]), (4, FFinished), (0, FFinished)]"

definition answering :: "(mem_quic, unit, h3_call list) quiche_ops" where
  "answering = mem_quiche
     \<lparr>q_recv := \<lambda>bs q. (Inr (), (if bs = [1] then answer_frames else fst q, snd q)),
      h3_recv_body := \<lambda>sid m. mem_recv_body sid 2\<rparr>"

definition fresh_driver :: "(mem_quic, unit, h3_call list, assoc_map) driver" where
  "fresh_driver = new_driver (projr (configure_chrome_h3 recording_quic)) ([], (1, []), 0)"

definition answering_start :: "(mem_quic, unit, h3_call list, assoc_map) quic_system" where
  "answering_start = \<lparr>sy_driver = (Running fresh_driver, []), sy_queue = [], sy_dropped = [], sy_sent = []\<rparr>"

lemma answering_system: "system_start recording_quic answering_start"
proof -
  have "run_quic_driver recording_quic ([], (1, []), 0) = Some (Running fresh_driver)"
    by (simp add: run_quic_driver_def fresh_driver_def configure_chrome_h3_def recording_quic_def)
  then have "\<exists>conn. run_quic_driver recording_quic conn = Some (Running fresh_driver)" by blast
  then show ?thesis by (simp add: system_start_def driver_start_def answering_start_def)
qed

definition other_asked :: "(mem_quic, unit, h3_call list, assoc_map) quic_system" where
  "other_asked = answering_start\<lparr>sy_queue := [sample_cmd], sy_sent := [sample_cmd]\<rparr>"

lemma other_asks: "(system_step answering assoc_headers)\<^sup>*\<^sup>* answering_start other_asked"
  using submit[of answering_start sample_cmd answering assoc_headers]
  by (simp add: answering_start_def other_asked_def channel_capacity_def r_into_rtranclp)

definition answering_moves :: "driver_event option list" where
  "answering_moves = [Some (Packet (Inr [0])), None, None, Some (Packet (Inr [1]))]"

definition plain_uri :: "string uri_ops" where
  "plain_uri = \<lparr>uri_parse = Inr, uri_text = (\<lambda>u. u), uri_scheme = (\<lambda>u. None), uri_authority = (\<lambda>u. None),
     uri_path_and_query = (\<lambda>u. None), method_error = (\<lambda>m. None)\<rparr>"

definition answered_send where
  "answered_send p = session_send plain_uri assoc_headers (driven_channel answering assoc_headers)
     \<lparr>qs_tx = 0, qs_profile = p\<rparr>
     \<lparr>rq_method = ''GET'', rq_uri = ''https://quik.rs/own'', rq_headers = []\<rparr> None
     (other_asked, answering_moves)"

theorem session_answer_is_own_witness:
  "\<forall>p. \<exists>resp s. answered_send p = (Inr resp, (s, [])) \<and> rs_body resp = BodyHttp3 [9] \<and> rs_url resp = ''https://quik.rs/own'' \<and>
     (\<exists>c \<in> set (sy_sent s). cmd_body c = None \<and> caller_result s (cmd_tx c) = Some (Inr resp))"
proof
  fix p
  have "(case answered_send p of (Inr resp, (s, ms)) \<Rightarrow> rs_body resp = BodyHttp3 [9] \<and> ms = [] | _ \<Rightarrow> False)" by code_simp
  then obtain resp s where run: "answered_send p = (Inr resp, (s, []))" "rs_body resp = BodyHttp3 [9]"
    by (auto split: prod.splits sum.splits)
  have asked: "(system_step answering assoc_headers)\<^sup>*\<^sup>* answering_start (fst (other_asked, answering_moves))"
    using other_asks by simp
  from session_answer_is_own[OF driven.session_channel_axioms answering_system asked
      run(1)[unfolded answered_send_def]] run
  show "\<exists>resp s. answered_send p = (Inr resp, (s, [])) \<and> rs_body resp = BodyHttp3 [9] \<and> rs_url resp = ''https://quik.rs/own'' \<and>
      (\<exists>c \<in> set (sy_sent s). cmd_body c = None \<and> caller_result s (cmd_tx c) = Some (Inr resp))"
    by (auto simp: plain_uri_def)
qed

end
