(* ===== verification/Quic_World.thy ===== *)
theory Quic_World imports Quic_Answers begin

text \<open>
  Many QUIC sessions in one world (\<open>src/client/quic.rs\<close>): how the systems of their drivers may move
  while a client does anything at all, and what stays true of a command that has been sent.
\<close>

section \<open>Answers stay\<close>

lemma log_command: "set (drv_log d) \<subseteq> set (drv_log (handle_command Q H c d))"
  by (auto simp: handle_command_def Let_def log_insert split: option.split prod.split sum.split)

lemma log_event: "handle_event Q H sid ev x d = Some d' \<Longrightarrow> set (drv_log d) \<subseteq> set (drv_log d')"
  by (cases ev) (auto split: option.splits)

lemma log_poll:
  assumes "poll_loop Q H d = Some d'"
  shows "set (drv_log d) \<subseteq> set (drv_log d')"
proof (rule poll_loop.raw_induct[OF _ assms, where P = "\<lambda>Q H d d'. set (drv_log d) \<subseteq> set (drv_log d')"])
  fix f and Q :: "('a, 'b, 'c) quiche_ops" and H :: "'d header_ops" and d d'
  assume IH: "\<And>Q H d d'. f Q H d = Some d' \<Longrightarrow> set (drv_log d) \<subseteq> set (drv_log d')"
    and body: "(case drv_h3 d of
     None \<Rightarrow> Some d
   | Some x \<Rightarrow>
       (case h3_poll Q x (drv_conn d) of
          (Inl e, x', q') \<Rightarrow> Some (set_h3 x' q' d)
        | (Inr (sid, ev), x', q') \<Rightarrow>
            Option.bind (handle_event Q H sid ev x' (set_h3 x' q' d)) (f Q H))) = Some d'"
  show "set (drv_log d) \<subseteq> set (drv_log d')"
    using body
    by (fastforce dest!: IH log_event simp: bind_eq_Some_conv split: option.splits prod.splits sum.splits)
qed

lemma log_packet: "handle_packet Q H p d = Some r \<Longrightarrow> set (drv_log d) \<subseteq> set (drv_log (run_driver r))"
  by (auto simp: handle_packet_def Let_def stop_driver_def dest!: log_poll split: sum.splits prod.splits if_splits)

lemma log_iter: "driver_iter Q H ev d = Some r \<Longrightarrow> set (drv_log d) \<subseteq> set (drv_log (run_driver r))"
  using log_command
  by (fastforce simp: driver_iter_def Let_def dest!: log_packet split: option.splits driver_event.splits)

definition answers_of where
  "answers_of s = set (drv_log (run_driver (fst (sy_driver s))))"

lemma system_step_answers: "system_step Q H s s' \<Longrightarrow> answers_of s \<subseteq> answers_of s'"
  by (auto simp: answers_of_def stop_driver_def dest: subsetD[OF log_iter] elim!: system_step.cases)

lemma system_steps_answers: "(system_step Q H)\<^sup>*\<^sup>* s s' \<Longrightarrow> answers_of s \<subseteq> answers_of s'"
  by (induction rule: rtranclp_induct) (auto dest: system_step_answers)

lemma outcome_in_answers: "outcome s tx = Some (Some r) \<Longrightarrow> (tx, Some r) \<in> answers_of s"
  by (auto simp: outcome_def answers_of_def split: if_splits dest: map_of_SomeD)

lemma outcome_of_answer:
  assumes "system_inv s" "(tx, r) \<in> answers_of s"
  shows "outcome s tx = Some r"
proof -
  let ?log = "drv_log (run_driver (fst (sy_driver s)))"
  have "distinct (map fst ?log @ in_flight s @ map cmd_tx (sy_queue s) @ sy_dropped s)"
    using system_counts[OF assms(1)] assms(1) unfolding system_inv_def
    by (metis append.assoc mset_append mset_eq_imp_distinct_iff)
  with assms(2) show ?thesis
    by (auto simp: outcome_def answers_of_def image_iff)
qed

section \<open>How the sessions move\<close>

text \<open>
  Each session's system makes steps. A session that has not been opened counts as a driver that
  has not begun; it may be replaced by what \<open>tokio::spawn\<close> starts.
\<close>

definition live where
  "live Q H C s \<longleftrightarrow> (\<exists>s0. system_start C s0 \<and> (system_step Q H)\<^sup>*\<^sup>* s0 s)"

definition evolves where
  "evolves Q H C sys w w' \<longleftrightarrow>
     (\<forall>t. (system_step Q H)\<^sup>*\<^sup>* (sys t w) (sys t w') \<or> sy_sent (sys t w) = [] \<and> live Q H C (sys t w'))"

lemma evolves_refl: "evolves Q H C sys w w"
  by (simp add: evolves_def)

lemma live_steps: "live Q H C s \<Longrightarrow> (system_step Q H)\<^sup>*\<^sup>* s s' \<Longrightarrow> live Q H C s'"
  by (auto simp: live_def intro: rtranclp_trans)

lemma evolves_steps: "(\<And>t. (system_step Q H)\<^sup>*\<^sup>* (sys t w) (sys t w')) \<Longrightarrow> evolves Q H C sys w w'"
  by (simp add: evolves_def)

lemma evolves_trans:
  assumes "evolves Q H C sys w1 w2" "evolves Q H C sys w2 w3"
  shows "evolves Q H C sys w1 w3"
  unfolding evolves_def
proof
  fix t
  have "sy_sent (sys t w1) = [] \<or> sy_sent (sys t w2) \<noteq> []" if "(system_step Q H)\<^sup>*\<^sup>* (sys t w1) (sys t w2)"
    using system_steps_sent[OF that] by auto
  then show "(system_step Q H)\<^sup>*\<^sup>* (sys t w1) (sys t w3) \<or> sy_sent (sys t w1) = [] \<and> live Q H C (sys t w3)"
    using assms[unfolded evolves_def, rule_format, of t] by (auto intro: live_steps rtranclp_trans)
qed

lemma evolves_live: "evolves Q H C sys w w' \<Longrightarrow> \<forall>t. live Q H C (sys t w) \<Longrightarrow> live Q H C (sys t w')"
  by (auto simp: evolves_def intro: live_steps)

text \<open>A command that has been sent stays sent, and its answer stays its answer.\<close>

lemma evolves_sent:
  assumes "evolves Q H C sys w w'" "c \<in> set (sy_sent (sys t w))"
  shows "c \<in> set (sy_sent (sys t w'))" "answers_of (sys t w) \<subseteq> answers_of (sys t w')"
proof -
  have "(system_step Q H)\<^sup>*\<^sup>* (sys t w) (sys t w')"
    using assms by (auto simp: evolves_def dest: spec[of _ t])
  with assms(2) show "c \<in> set (sy_sent (sys t w'))" "answers_of (sys t w) \<subseteq> answers_of (sys t w')"
    using system_steps_sent system_steps_answers by blast+
qed

lemma live_inv: "live Q H C s \<Longrightarrow> system_inv s" "live Q H C s \<Longrightarrow> answers_own s"
  using sys.run_inv answers.run_inv by (fastforce simp: live_def)+

text \<open>In a live session an answer carries the URL of its command and is what the caller finds.\<close>

lemma live_answer:
  assumes "live Q H C s" "c \<in> set (sy_sent s)" "(cmd_tx c, Some (Inr resp)) \<in> answers_of s"
  shows "caller_result s (cmd_tx c) = Some (Inr resp) \<and> rs_url resp = cmd_url c"
proof -
  have out: "outcome s (cmd_tx c) = Some (Some (Inr resp))"
    using outcome_of_answer[OF live_inv(1)[OF assms(1)] assms(3)] .
  with one_command[OF live_inv(1)[OF assms(1)] assms(2)] outcome_answer[OF live_inv(2)[OF assms(1)] out]
  show ?thesis by (auto simp: caller_result_def)
qed

end
