(* ===== verification/Client_State.thy ===== *)
theory Client_State imports Quic_Session begin

text \<open>
  The state a \<open>Client\<close> and its clones share (\<open>src/client/pool.rs\<close>): the connection pool, the
  cookie store, the client-hint cache and the Alt-Svc cache, each behind a lock of the standard
  library, and the operations on them.
\<close>

section \<open>Locks\<close>

text \<open>
  A \<open>Mutex\<close> or \<open>RwLock\<close> of the standard library is poisoned when a holder panicked; \<open>lock\<close>,
  \<open>read\<close> and \<open>write\<close> then return an error (\<open>None\<close>).
\<close>

record 'a std_lock =
  lk_value :: 'a
  lk_poisoned :: bool

definition lk_get :: "'a std_lock \<Rightarrow> 'a option" where
  "lk_get l = (if lk_poisoned l then None else Some (lk_value l))"

definition lk_modify :: "('a \<Rightarrow> 'a) \<Rightarrow> 'a std_lock \<Rightarrow> 'a std_lock" where
  "lk_modify f l = (if lk_poisoned l then l else l\<lparr>lk_value := f (lk_value l)\<rparr>)"

definition new_lock :: "'a \<Rightarrow> 'a std_lock" where
  "new_lock x = \<lparr>lk_value = x, lk_poisoned = False\<rparr>"

lemma lk_modify_poisoned [simp]: "lk_poisoned (lk_modify f l) = lk_poisoned l"
  by (simp add: lk_modify_def)

lemma lk_get_modify: "lk_get (lk_modify f l) = map_option f (lk_get l)"
  by (simp add: lk_get_def lk_modify_def)

section \<open>The Alt-Svc cache\<close>

type_synonym alt_svc_cache = "(string \<Rightarrow> string option) std_lock"

definition alt_svc_new :: alt_svc_cache where
  "alt_svc_new = new_lock (\<lambda>k. None)"

definition alt_svc_get :: "alt_svc_cache \<Rightarrow> string \<Rightarrow> string option" where
  "alt_svc_get c origin = (case lk_get c of None \<Rightarrow> None | Some entries \<Rightarrow> entries origin)"

definition alt_svc_insert :: "string \<Rightarrow> string \<Rightarrow> alt_svc_cache \<Rightarrow> alt_svc_cache" where
  "alt_svc_insert origin alt_svc c = lk_modify (\<lambda>entries. entries(origin := Some alt_svc)) c"

definition alt_svc_remove :: "string \<Rightarrow> alt_svc_cache \<Rightarrow> alt_svc_cache" where
  "alt_svc_remove origin c = lk_modify (\<lambda>entries. entries(origin := None)) c"

text \<open>
  What the request runner relies on: after an eviction the origin is not found, whatever the state
  of the lock; an insertion is found as long as the cache is usable; other origins do not change.
\<close>

locale origin_cache =
  fixes new :: 'c and get :: "'c \<Rightarrow> string \<Rightarrow> string option"
    and put :: "string \<Rightarrow> string \<Rightarrow> 'c \<Rightarrow> 'c" and evict :: "string \<Rightarrow> 'c \<Rightarrow> 'c"
    and usable :: "'c \<Rightarrow> bool"
  assumes new_empty: "get new k = None" "usable new"
    and get_put: "get (put k v c) k' = (if k' = k \<and> usable c then Some v else get c k')"
    and get_evict: "get (evict k c) k' = (if k' = k then None else get c k')"
    and usable_put: "usable (put k v c) = usable c"
    and usable_evict: "usable (evict k c) = usable c"
begin

lemma evicted_until_put:
  "get (evict k c) k = None" "k' \<noteq> k \<Longrightarrow> get (evict k (put k' v c)) k = None"
  "usable c \<Longrightarrow> get (put k v (evict k c)) k = Some v"
  by (simp_all add: get_put get_evict usable_evict)

text \<open>A history of operations: what is found is the last thing put and not evicted since.\<close>

fun replay :: "(string \<times> string option) list \<Rightarrow> 'c \<Rightarrow> 'c" where
  "replay [] c = c"
| "replay ((k, Some v) # ops) c = replay ops (put k v c)"
| "replay ((k, None) # ops) c = replay ops (evict k c)"

lemma usable_replay: "usable (replay ops c) = usable c"
  by (induction ops c rule: replay.induct) (simp_all add: usable_put usable_evict)

lemma replay_append: "replay (xs @ ys) c = replay ys (replay xs c)"
  by (induction xs c rule: replay.induct) simp_all

lemma get_replay_new: "get (replay ops new) k = (case map_of (rev ops) k of Some ov \<Rightarrow> ov | None \<Rightarrow> None)"
proof (induction ops rule: rev_induct)
  case Nil
  show ?case by (simp add: new_empty)
next
  case (snoc op ops)
  obtain k' ov where "op = (k', ov)" by fastforce
  with snoc show ?case
    by (cases ov) (auto simp: replay_append get_put get_evict usable_replay new_empty)
qed

end

interpretation alt_svc: origin_cache alt_svc_new alt_svc_get alt_svc_insert alt_svc_remove
  "\<lambda>c. \<not> lk_poisoned c"
  by unfold_locales (auto simp: alt_svc_new_def alt_svc_get_def alt_svc_insert_def alt_svc_remove_def
      lk_get_def lk_modify_def new_lock_def)

section \<open>The client and its state\<close>

datatype pooled_connection = Http2 quik_connection | Http3 quic_session

record client =
  cl_profile :: chrome_profile
  cl_proxy :: "proxy option"

text \<open>
  A pool entry is a slot, \<open>Arc<tokio::Mutex<Option<..>>>\<close>: entries are never removed, so a slot is
  named by its key. \<open>cs_world\<close> is everything outside the client.
\<close>

record ('k, 'w) client_state =
  cs_pool :: "(string \<Rightarrow> pooled_connection option option) std_lock"
  cs_cookies :: "'k std_lock"
  cs_hints :: "string set std_lock"
  cs_alt_svc :: alt_svc_cache
  cs_world :: 'w

definition pool_poisoned :: quik_error where
  "pool_poisoned = connect_other ''connection pool poisoned''"

text \<open>\<open>pool.lock()?.entry(key).or_insert_with(..)\<close>.\<close>

definition pool_entry :: "string \<Rightarrow> ('k, 'w) client_state \<Rightarrow> (quik_error + unit) \<times> ('k, 'w) client_state" where
  "pool_entry key st =
    (if lk_poisoned (cs_pool st) then (Inl pool_poisoned, st)
     else (Inr (), st\<lparr>cs_pool := lk_modify
            (\<lambda>m. if m key = None then m(key := Some None) else m) (cs_pool st)\<rparr>))"

definition slot :: "string \<Rightarrow> ('k, 'w) client_state \<Rightarrow> pooled_connection option" where
  "slot key st = (case lk_value (cs_pool st) key of Some c \<Rightarrow> c | None \<Rightarrow> None)"

definition set_slot ::
  "string \<Rightarrow> pooled_connection option \<Rightarrow> ('k, 'w) client_state \<Rightarrow> ('k, 'w) client_state" where
  "set_slot key c st =
    st\<lparr>cs_pool := (cs_pool st)\<lparr>lk_value := (lk_value (cs_pool st))(key := Some c)\<rparr>\<rparr>"

definition set_world :: "'w \<Rightarrow> ('k, 'w) client_state \<Rightarrow> ('k, 'w) client_state" where
  "set_world w st = st\<lparr>cs_world := w\<rparr>"

definition evict_origin :: "string \<Rightarrow> ('k, 'w) client_state \<Rightarrow> ('k, 'w) client_state" where
  "evict_origin origin st = st\<lparr>cs_alt_svc := alt_svc_remove origin (cs_alt_svc st)\<rparr>"

text \<open>A computation on the world, run inside the client's state.\<close>

definition on_world ::
  "('w \<Rightarrow> (('e + 'a) \<times> 'w) option) \<Rightarrow> ('k, 'w) client_state \<Rightarrow> (('e + 'a) \<times> ('k, 'w) client_state) option" where
  "on_world f st = map_option (\<lambda>(r, w). (r, set_world w st)) (f (cs_world st))"

lemma slot_simps [simp]:
  "slot key (set_slot key' c st) = (if key = key' then c else slot key st)"
  "slot key (set_world w st) = slot key st"
  "slot key (evict_origin k' st) = slot key st"
  by (auto simp: slot_def set_slot_def set_world_def evict_origin_def)

lemma pool_entry_slot [simp]: "slot key (snd (pool_entry key' st)) = slot key st"
  by (auto simp: pool_entry_def slot_def lk_modify_def)

lemma state_simps [simp]:
  "cs_world (set_world w st) = w" "cs_world (set_slot key c st) = cs_world st"
  "cs_world (evict_origin k st) = cs_world st" "cs_world (snd (pool_entry key st)) = cs_world st"
  "cs_alt_svc (set_world w st) = cs_alt_svc st" "cs_alt_svc (set_slot key c st) = cs_alt_svc st"
  "cs_alt_svc (evict_origin k st) = alt_svc_remove k (cs_alt_svc st)"
  "cs_alt_svc (snd (pool_entry key st)) = cs_alt_svc st"
  "cs_cookies (set_world w st) = cs_cookies st" "cs_cookies (set_slot key c st) = cs_cookies st"
  "cs_cookies (evict_origin k st) = cs_cookies st" "cs_cookies (snd (pool_entry key st)) = cs_cookies st"
  "cs_hints (set_world w st) = cs_hints st" "cs_hints (set_slot key c st) = cs_hints st"
  "cs_hints (evict_origin k st) = cs_hints st" "cs_hints (snd (pool_entry key st)) = cs_hints st"
  by (auto simp: set_world_def set_slot_def evict_origin_def pool_entry_def)

lemma pool_entry_Inr:
  "pool_entry key st = (r, st') \<Longrightarrow> (r = Inr () \<and> \<not> lk_poisoned (cs_pool st)) \<or>
     (r = Inl pool_poisoned \<and> lk_poisoned (cs_pool st) \<and> st' = st)"
  by (auto simp: pool_entry_def split: if_splits)

end
