(* ===== verification/Client.thy ===== *)
theory Client imports Client_State begin

text \<open>
  The request engine of \<open>src/client/pool.rs\<close>: dialling, the acquisition loop with its fallback, the
  construction of a request, sending with mid-flight fallback, the stores fed by a response, the
  redirect loop, and the builder. One task runs here on its own; where tasks meet, at the slot of
  a key, is the subject of \<open>Pool_Race\<close>.
\<close>

section \<open>Everything outside the client\<close>

text \<open>
  \<open>env_dns\<close> is \<open>to_socket_addrs\<close>; \<open>env_spawn\<close> makes the command channel and spawns the driver,
  and returns the sender; \<open>env_matches\<close> and \<open>env_store\<close> are \<open>CookieStore::matches\<close> (names and
  values) and \<open>CookieStore::parse\<close>, whose result the source ignores.
\<close>

record ('b, 'tc, 'qc, 'hc, 'q, 'u, 'r, 'h, 'k, 'w) client_env =
  env_ssl :: "'b ssl_ops"
  env_stack :: "('b, 'tc, 'r, 'h, 'w) h2_stack"
  env_tcp :: "'w tcp_ops"
  env_quic :: "('qc, 'hc) quic_config_ops"
  env_url :: "'u url_ops"
  env_uri :: "'r uri_ops"
  env_headers :: "'h header_ops"
  env_channel :: "('h, 'w) channel_ops"
  env_dns :: "string \<Rightarrow> 'w \<Rightarrow> (io_error + sockaddr list) \<times> 'w"
  env_udp_bind :: "sockaddr \<Rightarrow> 'w \<Rightarrow> (io_error + nat) \<times> 'w"
  env_udp_connect :: "nat \<Rightarrow> sockaddr \<Rightarrow> 'w \<Rightarrow> (io_error + unit) \<times> 'w"
  env_quiche_connect :: "string \<Rightarrow> sockaddr \<Rightarrow> sockaddr \<Rightarrow> 'qc \<Rightarrow> string + 'q"
  env_spawn :: "nat \<Rightarrow> 'q \<Rightarrow> sockaddr \<Rightarrow> 'w \<Rightarrow> nat \<times> 'w"
  env_matches :: "'k \<Rightarrow> 'u \<Rightarrow> (string \<times> string) list"
  env_store :: "string \<Rightarrow> 'u \<Rightarrow> 'k \<Rightarrow> 'k"

section \<open>dial\<close>

definition resolve where
  "resolve E addr_str w =
    (case env_dns E addr_str w of
       (Inl e, w) \<Rightarrow> (Inl (Connect e), w)
     | (Inr [], w) \<Rightarrow> (Inl (Connect \<lparr>io_kind = NotFound, io_msg = ''could not resolve host''\<rparr>), w)
     | (Inr (addr # _), w) \<Rightarrow> (Inr addr, w))"

definition quic_client_config where
  "quic_client_config C profile =
    and_then (configure_chrome_quic_transport C) (\<lambda>config.
      Inr (if \<not> tls_verify_peer (cp_tls profile) then qcfg_do C (VerifyPeer False) config else config))"

definition dial_h3 where
  "dial_h3 E profile authority port w =
    try_st (resolve E (authority @ '':'' @ show_word port) w) (\<lambda>addr w.
    let local_addr = (if is_ipv6 addr then SockV6 ''::'' 0 else SockV4 ''0.0.0.0'' 0) in
    try_st (io_try (env_udp_bind E local_addr w)) (\<lambda>socket w.
    try_st (io_try (env_udp_connect E socket addr w)) (\<lambda>_ w.
    try_st (quic_client_config (env_quic E) profile, w) (\<lambda>config w.
    try_st (map_err connect_other (env_quiche_connect E authority local_addr addr config), w) (\<lambda>conn w.
    let (cmd_tx, w) = env_spawn E socket conn addr w in
    (Inr (Http3 \<lparr>qs_tx = cmd_tx, qs_profile = profile\<rparr>), w))))))"

definition dial where
  "dial E profile proxy authority port h3 w =
    (if h3 then Some (dial_h3 E profile authority port w)
     else try_opt (Some (resolve E (authority @ '':'' @ show_word port) w)) (\<lambda>addr w.
          try_opt (connect_quik (env_ssl E) (env_stack E) (env_tcp E) authority port addr profile proxy w)
            (\<lambda>conn w. Some (Inr (Http2 conn), w))))"

section \<open>The route of a hop\<close>

definition proxy_prefix :: "proxy option \<Rightarrow> string" where
  "proxy_prefix p =
    (case p of
       Some (HttpProxy a) \<Rightarrow> ''http://'' @ a @ ''@''
     | Some (Socks5Proxy a) \<Rightarrow> ''socks5://'' @ a @ ''@''
     | None \<Rightarrow> [])"

definition pool_key :: "proxy option \<Rightarrow> string \<Rightarrow> u16 \<Rightarrow> string \<Rightarrow> string" where
  "pool_key p authority port proto =
     proxy_prefix p @ authority @ '':'' @ show_word port @ ''#'' @ proto"

record route =
  ro_authority :: string
  ro_port :: u16
  ro_origin_key :: string
  ro_h3 :: bool
  ro_key :: string
  ro_h2_key :: string

definition url_port_or_default where
  "url_port_or_default U u = unwrap_or (url_port U u) (if url_scheme U u = ''http'' then 80 else 443)"

definition route_of where
  "route_of U cl alt_cache parsed_url authority =
    (let port = url_port_or_default U parsed_url;
         origin_key = authority @ '':'' @ show_word port;
         has_alt_svc = (alt_svc_get alt_cache origin_key \<noteq> None);
         transport_proto = (if has_alt_svc then ''h3'' else ''h2'')
     in \<lparr>ro_authority = authority, ro_port = port, ro_origin_key = origin_key, ro_h3 = has_alt_svc,
         ro_key = pool_key (cl_proxy cl) authority port transport_proto,
         ro_h2_key = pool_key (cl_proxy cl) authority port ''h2''\<rparr>)"

section \<open>Acquiring a connection\<close>

definition dial_route where
  "dial_route E cl ro h3 st =
     on_world (dial E (cl_profile cl) (cl_proxy cl) (ro_authority ro) (ro_port ro) h3) st"

text \<open>The branch that finds the slot empty: dial, and fall back to HTTP/2 when an HTTP/3 dial fails.\<close>

definition establish where
  "establish E cl ro st =
    (case dial_route E cl ro (ro_h3 ro) st of
       None \<Rightarrow> None
     | Some (Inr new_conn, st) \<Rightarrow> Some (Inr new_conn, set_slot (ro_key ro) (Some new_conn) st)
     | Some (Inl e, st) \<Rightarrow>
         (if ro_h3 ro
          then try_opt (Some (pool_entry (ro_h2_key ro) (evict_origin (ro_origin_key ro) st))) (\<lambda>_ st.
               (case slot (ro_h2_key ro) st of
                  None \<Rightarrow>
                    try_opt (dial_route E cl ro False st) (\<lambda>h2_conn st.
                      Some (Inr h2_conn, set_slot (ro_h2_key ro) (Some h2_conn) st))
                | Some c \<Rightarrow> Some (Inr c, st)))
          else Some (Inl e, st)))"

text \<open>
  The loop: a dead HTTP/2 connection empties the slot and the loop goes round. The measure says it
  does so at most once.
\<close>

function acquire_loop where
  "acquire_loop E cl ro st =
    (case slot (ro_key ro) st of
       Some (Http2 conn) \<Rightarrow>
         (case h2_ready (env_stack E) (qc_h2 conn) (cs_world st) of
            (Inr h2, w) \<Rightarrow> Some (Inr (Http2 (conn\<lparr>qc_h2 := h2\<rparr>)), set_world w st)
          | (Inl e, w) \<Rightarrow> acquire_loop E cl ro (set_slot (ro_key ro) None (set_world w st)))
     | Some (Http3 session) \<Rightarrow> Some (Inr (Http3 session), st)
     | None \<Rightarrow> establish E cl ro st)"
  by pat_completeness auto
termination
  by (relation "measure (\<lambda>(E, cl, ro, st). if slot (ro_key ro) st = None then 0 else 1)") auto

declare acquire_loop.simps [simp del]

definition acquire where
  "acquire E cl ro st = try_opt (Some (pool_entry (ro_key ro) st)) (\<lambda>_ st. acquire_loop E cl ro st)"

section \<open>Building and sending a request\<close>

record 'u request_parts =
  rp_method :: string
  rp_url :: 'u
  rp_cookie :: "string option"
  rp_site :: string
  rp_initial :: bool
  rp_context :: request_context
  rp_accept_ch :: bool
  rp_referer :: "string option"

definition body_method :: "string \<Rightarrow> bool" where
  "body_method m \<longleftrightarrow> m = ''POST'' \<or> m = ''PUT'' \<or> m = ''PATCH''"

definition request_headers where
  "request_headers E profile parts =
    (let H = env_headers E;
         headers = hm_new H;
         headers = (case rp_cookie parts of
             Some c \<Rightarrow> insert_if_valid H ''cookie'' c headers | None \<Rightarrow> headers);
         headers = (if body_method (rp_method parts)
             then insert_if_valid H ''origin'' (url_origin_ascii (env_url E) (rp_url parts)) headers
             else headers)
     in inject_chrome_headers H headers profile (rp_site parts) (rp_initial parts) (rp_context parts)
          (rp_accept_ch parts) (rp_referer parts))"

definition build_request where
  "build_request E profile parts =
    (case method_error (env_uri E) (rp_method parts) of
       Some e \<Rightarrow> Inl (InvalidUrl e)
     | None \<Rightarrow>
         and_then (map_err InvalidUrl (uri_parse (env_uri E) (url_as_str (env_url E) (rp_url parts)))) (\<lambda>uri.
           Inr \<lparr>rq_method = rp_method parts, rq_uri = uri, rq_headers = request_headers E profile parts\<rparr>))"

text \<open>\<open>PooledConnection::send\<close>.\<close>

definition pooled_send where
  "pooled_send E conn request body w =
    (case conn of
       Http2 c \<Rightarrow> conn_send (env_uri E) (env_stack E) c request body w
     | Http3 s \<Rightarrow> session_send (env_uri E) (env_headers E) (env_channel E) s request body w)"

definition send_pooled where
  "send_pooled E conn request body st = on_world (\<lambda>w. Some (pooled_send E conn request body w)) st"

text \<open>The HTTP/2 connection of the mid-flight fallback: the one in the slot if it is alive.\<close>

definition fallback_connection where
  "fallback_connection E cl ro st =
    (let redial = (\<lambda>st. try_opt (dial_route E cl ro False st) (\<lambda>new_conn st.
           Some (Inr new_conn, set_slot (ro_h2_key ro) (Some new_conn) st)))
     in case slot (ro_h2_key ro) st of
          Some (Http2 conn) \<Rightarrow>
            (case h2_ready (env_stack E) (qc_h2 conn) (cs_world st) of
               (Inr h2, w) \<Rightarrow>
                 (let conn = conn\<lparr>qc_h2 := h2\<rparr>
                  in Some (Inr (Http2 conn), set_slot (ro_h2_key ro) (Some (Http2 conn)) (set_world w st)))
             | (Inl e, w) \<Rightarrow> redial (set_world w st))
        | _ \<Rightarrow> redial st)"

definition send_with_fallback where
  "send_with_fallback E cl ro conn parts body st =
    try_opt (Some (build_request E (cl_profile cl) parts, st)) (\<lambda>request st.
      case send_pooled E conn request body st of
        None \<Rightarrow> None
      | Some (Inr resp, st) \<Rightarrow> Some (Inr resp, st)
      | Some (Inl e, st) \<Rightarrow>
          (case conn of
             Http3 _ \<Rightarrow>
               try_opt (Some (pool_entry (ro_h2_key ro) (evict_origin (ro_origin_key ro) st))) (\<lambda>_ st.
               try_opt (fallback_connection E cl ro st) (\<lambda>h2_conn st.
               try_opt (Some (build_request E (cl_profile cl) parts, st)) (\<lambda>fallback_request st.
               send_pooled E h2_conn fallback_request body st)))
           | Http2 _ \<Rightarrow> Some (Inl e, st)))"

section \<open>What a response feeds\<close>

fun store_cookie_values where
  "store_cookie_values E url [] k = k"
| "store_cookie_values E url (v # vs) k =
    store_cookie_values E url vs
      (case hv_to_str (env_headers E) v of Some s \<Rightarrow> env_store E s url k | None \<Rightarrow> k)"

definition store_cookies where
  "store_cookies E resp url st =
     st\<lparr>cs_cookies := lk_modify
          (store_cookie_values E url (hm_get_all (env_headers E) (rs_headers resp) ''set-cookie''))
          (cs_cookies st)\<rparr>"

definition header_text where
  "header_text H h name = Option.bind (hm_get H h name) (hv_to_str H)"

definition store_hints where
  "store_hints E resp url st =
    (case header_text (env_headers E) (rs_headers resp) ''accept-ch'' of
       Some ch_str \<Rightarrow>
         (if str_contains (to_lowercase ch_str) ''sec-ch-ua-platform-version''
          then st\<lparr>cs_hints := lk_modify (insert (url_origin_ascii (env_url E) url)) (cs_hints st)\<rparr>
          else st)
     | None \<Rightarrow> st)"

definition store_alt_svc where
  "store_alt_svc E resp url st =
    (case header_text (env_headers E) (rs_headers resp) ''alt-svc'' of
       Some alt_str \<Rightarrow>
         (if str_contains alt_str ''h3''
          then let origin_key = unwrap_or (url_host_str (env_url E) url) [] @ '':'' @
                     show_word (unwrap_or (url_port (env_url E) url) 443)
               in st\<lparr>cs_alt_svc := alt_svc_insert origin_key alt_str (cs_alt_svc st)\<rparr>
          else st)
     | None \<Rightarrow> st)"

section \<open>The redirect loop\<close>

record redirect =
  rd_url :: string
  rd_method :: string
  rd_body :: "byte list option"
  rd_prev :: "string option"
  rd_site :: string
  rd_cross :: bool

definition rotates :: "u16 \<Rightarrow> bool" where
  "rotates status \<longleftrightarrow> status = 301 \<or> status = 302 \<or> status = 303"

definition classify_site where
  "classify_site U rd parsed_url next_url =
    (if rd_cross rd then rd
     else if url_same_origin U next_url parsed_url then rd\<lparr>rd_site := ''same-origin''\<rparr>
     else if url_domain U next_url = url_domain U parsed_url then rd\<lparr>rd_site := ''same-site''\<rparr>
     else rd\<lparr>rd_site := ''cross-site'', rd_cross := True\<rparr>)"

definition follow_redirect where
  "follow_redirect U rd status parsed_url next_url =
    (let rd = (if rotates status then rd\<lparr>rd_method := ''GET'', rd_body := None\<rparr> else rd);
         rd = classify_site U rd parsed_url next_url
     in rd\<lparr>rd_prev := Some (rd_url rd), rd_url := url_as_str U next_url\<rparr>)"

definition referer_to_send where
  "referer_to_send U rd =
    map_option (\<lambda>prev. if rd_cross rd
        then (case url_parse U prev of Inr prev_url \<Rightarrow> url_origin_ascii U prev_url @ ''/'' | Inl e \<Rightarrow> prev)
        else prev) (rd_prev rd)"

definition cookie_text :: "(string \<times> string) list \<Rightarrow> string option" where
  "cookie_text cookies =
    (if cookies = [] then None
     else Some (str_join ''; '' (map (\<lambda>(n, v). n @ ''='' @ v) cookies)))"

datatype 'h hop_result = Follow redirect | Done "'h response"

text \<open>Errors of the source as an \<open>abort\<close>: the read of the hint cache panics on a poisoned lock.\<close>

definition lift_fail :: "((quik_error + 'a) \<times> 's) option \<Rightarrow> ((abort + 'a) \<times> 's) option" where
  "lift_fail r = map_option (map_err_st Fail) r"

definition hop_parts where
  "hop_parts E ctx hop rd parsed_url cookie accept_ch =
    \<lparr>rp_method = rd_method rd, rp_url = parsed_url, rp_cookie = cookie, rp_site = rd_site rd,
     rp_initial = (hop = (0 :: nat)), rp_context = ctx, rp_accept_ch = accept_ch,
     rp_referer = referer_to_send (env_url E) rd\<rparr>"

definition hop_outcome where
  "hop_outcome E rd parsed_url resp st =
    (let st = store_alt_svc E resp parsed_url (store_hints E resp parsed_url
                (store_cookies E resp parsed_url st));
         status = rs_status resp;
         finished = (Some (Inr (Done (set_url (rd_url rd) resp)), st))
     in if 300 \<le> status \<and> status < 400
        then (case hm_get (env_headers E) (rs_headers resp) ''location'' of
                Some location \<Rightarrow>
                  (let loc_str = unwrap_or (hv_to_str (env_headers E) location) []
                   in case url_join (env_url E) parsed_url loc_str of
                        Inl e \<Rightarrow> Some (Inl (Fail (InvalidUrl e)), st)
                      | Inr next_url \<Rightarrow>
                          Some (Inr (Follow (follow_redirect (env_url E) rd status parsed_url next_url)), st))
              | None \<Rightarrow> finished)
        else finished)"

definition run_hop where
  "run_hop E cl ctx hop rd st =
    try_opt (Some (map_err (Fail \<circ> InvalidUrl) (url_parse (env_url E) (rd_url rd)), st)) (\<lambda>parsed_url st.
    try_opt (Some (case url_host_str (env_url E) parsed_url of
        Some a \<Rightarrow> Inr a | None \<Rightarrow> Inl (Fail (InvalidUrl ''missing host'')), st)) (\<lambda>authority st.
    let ro = route_of (env_url E) cl (cs_alt_svc st) parsed_url authority in
    try_opt (Some (case lk_get (cs_cookies st) of
        Some store \<Rightarrow> Inr (cookie_text (env_matches E store parsed_url))
      | None \<Rightarrow> Inl (Fail (connect_other ''cookie store poisoned'')), st)) (\<lambda>cookie st.
    try_opt (Some (case lk_get (cs_hints st) of
        Some cache \<Rightarrow> Inr (url_origin_ascii (env_url E) parsed_url \<in> cache)
      | None \<Rightarrow> Inl (Panic ''hint cache poisoned''), st)) (\<lambda>accept_ch st.
    let parts = hop_parts E ctx hop rd parsed_url cookie accept_ch in
    try_opt (lift_fail (acquire E cl ro st)) (\<lambda>conn st.
    try_opt (lift_fail (send_with_fallback E cl ro conn parts (rd_body rd) st)) (\<lambda>resp st.
    hop_outcome E rd parsed_url resp st))))))"

text \<open>\<open>for hop in 0..10\<close>, counted down.\<close>

definition redirect_limit :: nat where
  "redirect_limit = 10"

fun run_hops where
  "run_hops E cl ctx 0 rd st =
     Some (Inl (Fail (connect_other ''Redirect limit exceeded (max 10)'')), st)"
| "run_hops E cl ctx (Suc left) rd st =
     try_opt (run_hop E cl ctx (redirect_limit - Suc left) rd st) (\<lambda>r st.
       case r of Done resp \<Rightarrow> Some (Inr resp, st) | Follow rd' \<Rightarrow> run_hops E cl ctx left rd' st)"

definition first_request :: "string \<Rightarrow> string \<Rightarrow> byte list option \<Rightarrow> redirect" where
  "first_request method url body =
    \<lparr>rd_url = url, rd_method = method, rd_body = body, rd_prev = None, rd_site = ''none'',
     rd_cross = False\<rparr>"

definition execute_with_redirects where
  "execute_with_redirects E cl method url body ctx st =
     run_hops E cl ctx redirect_limit (first_request method url body) st"

definition client_get where
  "client_get E cl url st = execute_with_redirects E cl ''GET'' url None Navigate st"

definition client_post where
  "client_post E cl url body st = execute_with_redirects E cl ''POST'' url (Some body) Navigate st"

section \<open>The builder\<close>

record 'k client_builder =
  bd_profile :: "chrome_profile option"
  bd_proxy :: "proxy option"
  bd_cookie_store :: "'k std_lock option"
  bd_danger :: bool

definition builder_default :: "'k client_builder" where
  "builder_default = \<lparr>bd_profile = None, bd_proxy = None, bd_cookie_store = None, bd_danger = False\<rparr>"

definition danger_accept_invalid_certs :: "bool \<Rightarrow> 'k client_builder \<Rightarrow> 'k client_builder" where
  "danger_accept_invalid_certs b bd = bd\<lparr>bd_danger := b\<rparr>"

definition with_profile :: "chrome_profile \<Rightarrow> 'k client_builder \<Rightarrow> 'k client_builder" where
  "with_profile p bd = bd\<lparr>bd_profile := Some p\<rparr>"

definition with_proxy :: "proxy \<Rightarrow> 'k client_builder \<Rightarrow> 'k client_builder" where
  "with_proxy p bd = bd\<lparr>bd_proxy := Some p\<rparr>"

definition with_cookie_store :: "'k std_lock \<Rightarrow> 'k client_builder \<Rightarrow> 'k client_builder" where
  "with_cookie_store k bd = bd\<lparr>bd_cookie_store := Some k\<rparr>"

definition new_state :: "'k std_lock \<Rightarrow> 'w \<Rightarrow> ('k, 'w) client_state" where
  "new_state cookies w =
    \<lparr>cs_pool = new_lock (\<lambda>k. None), cs_cookies = cookies, cs_hints = new_lock {},
     cs_alt_svc = alt_svc_new, cs_world = w\<rparr>"

text \<open>
  \<open>build\<close>: the default profile is drawn with the random source; \<open>dflt\<close> is \<open>CookieStore::default\<close>.
\<close>

definition build_client where
  "build_client os r g dflt bd w =
    map_option (\<lambda>(profile, g').
      let profile = (if bd_danger bd
            then profile\<lparr>cp_tls := (cp_tls profile)\<lparr>tls_verify_peer := False\<rparr>\<rparr> else profile)
      in (\<lparr>cl_profile = profile, cl_proxy = bd_proxy bd\<rparr>,
          new_state (unwrap_or (bd_cookie_store bd) (new_lock dflt)) w, g'))
    (case bd_profile bd of Some p \<Rightarrow> Some (p, g) | None \<Rightarrow> profile_auto_148 os r g)"

definition client_new where
  "client_new os r g dflt w = build_client os r g dflt builder_default w"

end
