(* ===== verification/Client_Sample.thy ===== *)
theory Client_Sample imports Client begin

text \<open>
  A complete environment in memory, on which the witnesses of the client's properties run: a
  scripted HTTP/2 server, a QUIC path whose driver is gone, the URL and header types of the
  earlier theories. The world is the script of responses still to come and the requests received.
\<close>

type_synonym toy_world = "(u16 \<times> assoc_map) list \<times> (string, assoc_map) http_request list"

definition toy_uri :: "string uri_ops" where
  "toy_uri = \<lparr>uri_parse = Inr, uri_text = (\<lambda>u. u), uri_scheme = (\<lambda>u. Some ''https''),
     uri_authority = (\<lambda>u. Some u), uri_path_and_query = (\<lambda>u. None), method_error = (\<lambda>m. None)\<rparr>"

fun toy_response :: "nat \<Rightarrow> toy_world \<Rightarrow> (string + u16 \<times> assoc_map \<times> nat) \<times> toy_world" where
  "toy_response f ([], log) = (Inl ''closed'', ([], log))"
| "toy_response f ((s, h) # rs, log) = (Inr (s, h, 0), (rs, log))"

definition toy_stack :: "(ssl_call list, ssl_call list, string, assoc_map, toy_world) h2_stack" where
  "toy_stack = \<lparr>
     tls_configure = Inr,
     tls_status_ocsp = Inr,
     enable_ech_grease = (\<lambda>c. c),
     add_application_settings = (\<lambda>n d c. (1, c)),
     tls_handshake = (\<lambda>c h s w. (Inr 1, w)),
     h2_handshake = (\<lambda>cs t w. (Inr 2, w)),
     h2_ready = (\<lambda>h w. (Inr h, w)),
     h2_send_request = (\<lambda>h r e w. (Inr (3, 4), (fst w, snd w @ [r]))),
     h2_send_data = (\<lambda>s d e w. (Inr (), w)),
     h2_response = toy_response \<rparr>"

definition toy_tcp :: "toy_world tcp_ops" where
  "toy_tcp = \<lparr>
     tcp_connect = (\<lambda>a w. (Inr 0, w)),
     tcp_connect_addr = (\<lambda>a w. (Inr 0, w)),
     tcp_write_all = (\<lambda>s bs w. (Inr (), w)),
     tcp_read = (\<lambda>s n w. (Inr [], w)),
     tcp_read_exact = (\<lambda>s n w. (Inr (replicate n 0), w)) \<rparr>"

definition toy_channel :: "(assoc_map, toy_world) channel_ops" where
  "toy_channel = \<lparr>
     ch_oneshot = (\<lambda>w. (0, w)),
     ch_send = (\<lambda>t c w. (Inl ''channel closed'', w)),
     ch_await = (\<lambda>t w. (Inl ''channel closed'', w)) \<rparr>"

type_synonym toy_env =
  "(ssl_call list, ssl_call list, quic_call list, h3_call list, unit, web_url, string, assoc_map,
    (string \<times> string) list, toy_world) client_env"

definition toy_env :: toy_env where
  "toy_env = \<lparr>
     env_ssl = recording_ssl,
     env_stack = toy_stack,
     env_tcp = toy_tcp,
     env_quic = recording_quic,
     env_url = web_urls,
     env_uri = toy_uri,
     env_headers = assoc_headers,
     env_channel = toy_channel,
     env_dns = (\<lambda>a w. (Inr [SockV4 ''192.0.2.1'' 443], w)),
     env_udp_bind = (\<lambda>a w. (Inr 0, w)),
     env_udp_connect = (\<lambda>s a w. (Inr (), w)),
     env_quiche_connect = (\<lambda>n l a c. Inr ()),
     env_spawn = (\<lambda>s c a w. (9, w)),
     env_matches = (\<lambda>k u. k),
     env_store = (\<lambda>s u k. k @ [(''raw'', s)]) \<rparr>"

definition toy_client :: client where
  "toy_client = \<lparr>cl_profile = sample_profile, cl_proxy = None\<rparr>"

definition toy_state :: "(u16 \<times> assoc_map) list \<Rightarrow> ((string \<times> string) list, toy_world) client_state" where
  "toy_state script = new_state (new_lock [(''sid'', ''1'')]) (script, [])"

end
