(* ===== verification/Client_Redirect.thy ===== *)
theory Client_Redirect imports Client_Sample begin

text \<open>
  The redirect loop as a state machine: what a hop may do to the method, the body, the fetch site
  and the referer, and how many hops there are.
\<close>

section \<open>Inversion of a hop\<close>

text \<open>One redirect: the current URL parses, the location resolves against it.\<close>

inductive redirect_step :: "'u url_ops \<Rightarrow> redirect \<Rightarrow> redirect \<Rightarrow> bool" for U where
  follow: "url_parse U (rd_url rd) = Inr parsed \<Longrightarrow> url_join U parsed loc = Inr next_url \<Longrightarrow>
    redirect_step U rd (follow_redirect U rd status parsed next_url)"

inductive_cases redirect_stepE: "redirect_step U rd rd'"

lemma hop_outcome_cases:
  assumes "hop_outcome E rd parsed resp st = Some (r, st')"
  obtains (finish) "r = Inr (Done (set_url (rd_url rd) resp))"
    | (follow) loc next_url where "url_join (env_url E) parsed loc = Inr next_url"
        "r = Inr (Follow (follow_redirect (env_url E) rd (rs_status resp) parsed next_url))"
        "300 \<le> rs_status resp" "rs_status resp < 400"
    | (bad_location) e where "r = Inl (Fail (InvalidUrl e))"
  using assms by (auto simp: hop_outcome_def Let_def split: if_splits option.splits sum.splits)

lemma run_hop_outcome:
  assumes "run_hop E cl ctx hop rd st = Some (Inr x, st')"
  obtains parsed resp st1 where "url_parse (env_url E) (rd_url rd) = Inr parsed"
    "hop_outcome E rd parsed resp st1 = Some (Inr x, st')"
  using assms by (auto simp: run_hop_def try_opt_Inr_iff Let_def)

lemma run_hop_follow:
  assumes "run_hop E cl ctx hop rd st = Some (Inr (Follow rd'), st')"
  shows "redirect_step (env_url E) rd rd'"
  using assms
proof (rule run_hop_outcome)
  fix parsed resp st1
  assume "url_parse (env_url E) (rd_url rd) = Inr parsed"
    "hop_outcome E rd parsed resp st1 = Some (Inr (Follow rd'), st')"
  then show ?thesis by (elim hop_outcome_cases) (auto intro: redirect_step.follow)
qed

section \<open>The number of hops\<close>

text \<open>\<open>hops i .. j\<close>: the hops with these indices were made and each was answered with a redirect.\<close>

inductive hops for E cl ctx where
  no_hop: "hops E cl ctx i rd st i rd st"
| one_hop: "run_hop E cl ctx i rd st = Some (Inr (Follow rd1), st1) \<Longrightarrow>
    hops E cl ctx (Suc i) rd1 st1 j rd2 st2 \<Longrightarrow> hops E cl ctx i rd st j rd2 st2"

lemma hops_redirects: "hops E cl ctx i rd st j rd' st' \<Longrightarrow> (redirect_step (env_url E))\<^sup>*\<^sup>* rd rd'"
  by (induction rule: hops.induct) (auto intro: run_hop_follow converse_rtranclp_into_rtranclp)

lemma hops_mono: "hops E cl ctx i rd st j rd' st' \<Longrightarrow> i \<le> j"
  by (induction rule: hops.induct) auto

text \<open>How a run ends after the hops \<open>.. j\<close>: with hop \<open>j\<close>, or because there is none left.\<close>

definition run_end where
  "run_end E cl ctx j rd1 st1 r st' \<longleftrightarrow>
    (case r of
       Inr resp \<Rightarrow> j < redirect_limit \<and> run_hop E cl ctx j rd1 st1 = Some (Inr (Done resp), st')
     | Inl e \<Rightarrow> (j < redirect_limit \<and> run_hop E cl ctx j rd1 st1 = Some (Inl e, st')) \<or>
         (j = redirect_limit \<and> st' = st1 \<and>
          e = Fail (connect_other ''Redirect limit exceeded (max 10)'')))"

lemma run_hops_trace:
  assumes "run_hops E cl ctx n rd st = Some (r, st')" "n \<le> redirect_limit"
  shows "\<exists>j rd1 st1. hops E cl ctx (redirect_limit - n) rd st j rd1 st1 \<and> run_end E cl ctx j rd1 st1 r st'"
  using assms
proof (induction n arbitrary: rd st)
  case 0
  then have "run_end E cl ctx redirect_limit rd st r st'" by (auto simp: run_end_def)
  with hops.no_hop[of E cl ctx redirect_limit rd st] show ?case by auto
next
  case (Suc n)
  let ?i = "redirect_limit - Suc n"
  have i: "?i < redirect_limit" "Suc ?i = redirect_limit - n" using Suc.prems(2) by auto
  note here = hops.no_hop[of E cl ctx ?i rd st]
  from Suc.prems(1) have "try_opt (run_hop E cl ctx ?i rd st) (\<lambda>r st.
       case r of Done resp \<Rightarrow> Some (Inr resp, st) | Follow rd' \<Rightarrow> run_hops E cl ctx n rd' st) = Some (r, st')"
    by simp
  then show ?case
  proof (cases rule: try_opt_Some_cases)
    case (stop e)
    with i(1) have "run_end E cl ctx ?i rd st r st'" by (simp add: run_end_def)
    with here show ?thesis by blast
  next
    case (go x st1)
    show ?thesis
    proof (cases x)
      case (Done resp)
      with go have "r = Inr resp" "st' = st1" by simp_all
      with go(1) i(1) Done have "run_end E cl ctx ?i rd st r st'" by (simp add: run_end_def)
      with here show ?thesis by blast
    next
      case (Follow rd1)
      with go(2) have "run_hops E cl ctx n rd1 st1 = Some (r, st')" by simp
      from Suc.IH[OF this] Suc.prems(2) obtain j rd2 st2 where
        "hops E cl ctx (Suc ?i) rd1 st1 j rd2 st2" "run_end E cl ctx j rd2 st2 r st'"
        using i(2) by auto
      with one_hop[OF go(1)[unfolded Follow]] show ?thesis by blast
    qed
  qed
qed

section \<open>The state along a chain of redirects\<close>

definition redirect_inv :: "string \<Rightarrow> byte list option \<Rightarrow> redirect \<Rightarrow> bool" where
  "redirect_inv m b rd \<longleftrightarrow>
     (rd_method rd = m \<and> rd_body rd = b \<or> rd_method rd = ''GET'' \<and> rd_body rd = None) \<and>
     rd_site rd \<in> {''none'', ''same-origin'', ''same-site'', ''cross-site''} \<and>
     (rd_cross rd \<longleftrightarrow> rd_site rd = ''cross-site'') \<and> (rd_prev rd = None \<longleftrightarrow> rd_site rd = ''none'')"

lemma follow_redirect_simps:
  "rd_method (follow_redirect U rd s p n) = (if rotates s then ''GET'' else rd_method rd)"
  "rd_body (follow_redirect U rd s p n) = (if rotates s then None else rd_body rd)"
  "rd_prev (follow_redirect U rd s p n) = Some (rd_url rd)"
  "rd_url (follow_redirect U rd s p n) = url_as_str U n"
  "rd_cross (follow_redirect U rd s p n) \<longleftrightarrow>
     rd_cross rd \<or> \<not> url_same_origin U n p \<and> url_domain U n \<noteq> url_domain U p"
  "rd_site (follow_redirect U rd s p n) =
     (if rd_cross rd then rd_site rd else if url_same_origin U n p then ''same-origin''
      else if url_domain U n = url_domain U p then ''same-site'' else ''cross-site'')"
  by (auto simp: follow_redirect_def classify_site_def Let_def)

interpretation rdm: machine_invariant "\<lambda>rd. \<exists>url. rd = first_request m url b" "redirect_step U"
  "redirect_inv m b"
proof unfold_locales
  fix rd
  assume "\<exists>url. rd = first_request m url b"
  then show "redirect_inv m b rd" by (auto simp: redirect_inv_def first_request_def)
next
  fix rd rd'
  assume "redirect_inv m b rd" "redirect_step U rd rd'"
  then show "redirect_inv m b rd'"
    by (elim redirect_stepE) (auto simp: redirect_inv_def follow_redirect_simps)
qed

lemma cross_absorbing: "(redirect_step U)\<^sup>*\<^sup>* rd rd' \<Longrightarrow> rd_cross rd \<Longrightarrow> rd_cross rd'"
  by (induction rule: rtranclp_induct) (auto elim!: redirect_stepE simp: follow_redirect_simps)

lemma get_absorbing:
  "(redirect_step U)\<^sup>*\<^sup>* rd rd' \<Longrightarrow> rd_method rd = ''GET'' \<Longrightarrow> rd_body rd = None \<Longrightarrow>
   rd_method rd' = ''GET'' \<and> rd_body rd' = None"
  by (induction rule: rtranclp_induct) (auto elim!: redirect_stepE simp: follow_redirect_simps)

text \<open>The previous URL of a redirect has been parsed.\<close>

definition prev_parses :: "'u url_ops \<Rightarrow> redirect \<Rightarrow> bool" where
  "prev_parses U rd \<longleftrightarrow> (\<forall>p. rd_prev rd = Some p \<longrightarrow> (\<exists>u. url_parse U p = Inr u))"

lemma prev_parses_step: "redirect_step U rd rd' \<Longrightarrow> prev_parses U rd'"
  by (elim redirect_stepE) (simp add: prev_parses_def follow_redirect_simps)

lemma prev_parses_steps: "(redirect_step U)\<^sup>*\<^sup>* rd rd' \<Longrightarrow> prev_parses U rd \<Longrightarrow> prev_parses U rd'"
  by (induction rule: rtranclp_induct) (simp_all add: prev_parses_step)

lemma run_hops_limit:
  "hops E cl ctx i rd st j rd' st' \<Longrightarrow> j = redirect_limit \<Longrightarrow> i \<le> redirect_limit \<Longrightarrow>
   run_hops E cl ctx (redirect_limit - i) rd st =
     Some (Inl (Fail (connect_other ''Redirect limit exceeded (max 10)'')), st')"
proof (induction rule: hops.induct)
  case (no_hop i rd st)
  then show ?case by simp
next
  case (one_hop i rd st rd1 st1 j rd2 st2)
  show ?case
  proof (cases "i = redirect_limit")
    case True
    have "i < j" using hops_mono[OF one_hop(2)] by simp
    with True one_hop.prems show ?thesis by simp
  next
    case False
    then obtain n where n: "redirect_limit - i = Suc n" "redirect_limit - Suc i = n"
      "redirect_limit - Suc n = i"
      using one_hop.prems(2) by (metis Suc_diff_Suc diff_diff_cancel le_neq_implies_less)
    with one_hop False show ?thesis by simp
  qed
qed

section \<open>Properties\<close>

text \<open>
  C14 (bounds). A request makes at most ten hops: a response is handed out only by a hop with
  an index below ten after that many redirects; an error is that of such a hop, or, after ten
  redirects, the limit error, for which no eleventh request is sent.
\<close>

theorem redirects_bounded:
  assumes "execute_with_redirects E cl m url b ctx st = Some (r, st')"
  shows "\<exists>j rd1 st1. hops E cl ctx 0 (first_request m url b) st j rd1 st1 \<and>
    (case r of
       Inr resp \<Rightarrow> j < 10 \<and> run_hop E cl ctx j rd1 st1 = Some (Inr (Done resp), st')
     | Inl e \<Rightarrow> (j < 10 \<and> run_hop E cl ctx j rd1 st1 = Some (Inl e, st')) \<or>
         (j = 10 \<and> st' = st1 \<and> e = Fail (connect_other ''Redirect limit exceeded (max 10)'')))"
  using run_hops_trace[OF assms[unfolded execute_with_redirects_def]]
  unfolding run_end_def redirect_limit_def by simp

text \<open>A server that redirects three times and then answers.\<close>

definition loop_script :: "(u16 \<times> assoc_map) list" where
  "loop_script = replicate 3 (302, [(''location'', plain_value ''/again'')]) @ [(200, [])]"

text \<open>The observable end of a run: the error or the final URL, and the number of requests sent.\<close>

definition toy_end where
  "toy_end run = map_option (\<lambda>(r, st). (map_sum id rs_url r, length (snd (cs_world st)))) run"

theorem redirects_bounded_witness:
  "\<exists>j rd1 st1 resp st'. j < 10 \<and> rs_url resp = ''https://a.example/again'' \<and>
      hops toy_env toy_client Navigate 0 (first_request ''GET'' ''https://a.example/'' None)
        (toy_state loop_script) j rd1 st1 \<and>
      run_hop toy_env toy_client Navigate j rd1 st1 = Some (Inr (Done resp), st')"
proof -
  let ?run = "execute_with_redirects toy_env toy_client ''GET'' ''https://a.example/'' None Navigate
      (toy_state loop_script)"
  have "toy_end ?run = Some (Inr ''https://a.example/again'', 4)" by code_simp
  then obtain resp st' where run: "?run = Some (Inr resp, st')" "rs_url resp = ''https://a.example/again''"
    by (cases ?run) (auto simp: toy_end_def map_sum_def split: sum.splits)
  obtain j rd1 st1 where "j < 10"
    "hops toy_env toy_client Navigate 0 (first_request ''GET'' ''https://a.example/'' None) (toy_state loop_script) j rd1 st1"
    "run_hop toy_env toy_client Navigate j rd1 st1 = Some (Inr (Done resp), st')"
    using redirects_bounded[OF run(1)] by auto
  with run(2) show ?thesis by blast
qed

text \<open>
  C5 (invariant). Along any chain of redirects a request body is only sent with the method it came
  with: each hop has the caller's method and body, or is a GET without a body, and once a 301, 302
  or 303 has made it a GET it stays one; the fetch site is one of the four tokens, and
  cross-site is absorbing.
\<close>

theorem redirect_chain_invariant:
  assumes "hops E cl ctx 0 (first_request m url b) st i rd st1" "hops E cl ctx i rd st1 j rd' st2"
  shows "(rd_method rd' = m \<and> rd_body rd' = b \<or> rd_method rd' = ''GET'' \<and> rd_body rd' = None) \<and>
    (rd_method rd = ''GET'' \<and> rd_body rd = None \<longrightarrow> rd_method rd' = ''GET'' \<and> rd_body rd' = None) \<and>
    rd_site rd' \<in> {''none'', ''same-origin'', ''same-site'', ''cross-site''} \<and>
    (rd_site rd = ''cross-site'' \<longrightarrow> rd_site rd' = ''cross-site'')"
proof -
  note chain = hops_redirects[OF assms(1)] hops_redirects[OF assms(2)]
  have inv: "redirect_inv m b rd" "redirect_inv m b rd'"
    by (rule rdm.run_inv[OF _ chain(1)], blast) (rule rdm.run_inv[OF _ rtranclp_trans[OF chain]], blast)
  moreover have "rd_cross rd \<Longrightarrow> rd_cross rd'" by (rule cross_absorbing[OF chain(2)])
  moreover have "rd_method rd = ''GET'' \<Longrightarrow> rd_body rd = None \<Longrightarrow> rd_method rd' = ''GET'' \<and> rd_body rd' = None"
    by (rule get_absorbing[OF chain(2)])
  ultimately show ?thesis unfolding redirect_inv_def by blast
qed

lemma toy_hop: "\<exists>st1. run_hop toy_env toy_client Navigate 0
    (first_request ''POST'' ''https://a.example/'' (Some [1])) (toy_state [(303, [(''location'', plain_value ''https://b.example/'')])]) =
    Some (Inr (Follow \<lparr>rd_url = ''https://b.example/'', rd_method = ''GET'', rd_body = None,
      rd_prev = Some ''https://a.example/'', rd_site = ''cross-site'', rd_cross = True\<rparr>), st1)"
proof -
  have "map_option fst (run_hop toy_env toy_client Navigate 0
    (first_request ''POST'' ''https://a.example/'' (Some [1])) (toy_state [(303, [(''location'', plain_value ''https://b.example/'')])])) =
    Some (Inr (Follow \<lparr>rd_url = ''https://b.example/'', rd_method = ''GET'', rd_body = None,
      rd_prev = Some ''https://a.example/'', rd_site = ''cross-site'', rd_cross = True\<rparr>))"
    by code_simp
  then show ?thesis by auto
qed

theorem redirect_chain_invariant_witness:
  "\<exists>rd st1. hops toy_env toy_client Navigate 0 (first_request ''POST'' ''https://a.example/'' (Some [1]))
      (toy_state [(303, [(''location'', plain_value ''https://b.example/'')])]) 1 rd st1 \<and>
    rd_method rd = ''GET'' \<and> rd_body rd = None"
proof -
  from toy_hop obtain st1 rd where hop: "run_hop toy_env toy_client Navigate 0
    (first_request ''POST'' ''https://a.example/'' (Some [1])) (toy_state [(303, [(''location'', plain_value ''https://b.example/'')])]) =
    Some (Inr (Follow rd), st1)" "rd_method rd \<noteq> ''POST''"
    by fastforce
  have chain: "hops toy_env toy_client Navigate 0 (first_request ''POST'' ''https://a.example/'' (Some [1]))
      (toy_state [(303, [(''location'', plain_value ''https://b.example/'')])]) 1 rd st1"
    using one_hop[OF hop(1) no_hop] by simp
  from redirect_chain_invariant[OF chain no_hop] hop(2) chain show ?thesis by auto
qed



text \<open>
  How a redirect is classified when neither URL has a domain, as between two IP
  addresses: the hosts count as the same site however different they are, so the target gets the
  full previous URL as referer and the token \<open>same-site\<close>.
\<close>

theorem ip_redirect_is_same_site:
  assumes "url_domain U parsed = None" "url_domain U next_url = None"
    and "\<not> url_same_origin U next_url parsed" "\<not> rd_cross rd"
  shows "rd_site (follow_redirect U rd s parsed next_url) = ''same-site'' \<and>
    referer_to_send U (follow_redirect U rd s parsed next_url) = Some (rd_url rd)"
  using assms by (simp add: follow_redirect_simps referer_to_send_def)

theorem ip_redirect_is_same_site_witness:
  "referer_to_send web_urls (follow_redirect web_urls
      (first_request ''GET'' ''https://10.0.0.1/token=7'' None) 302
      (projr (web_parse ''https://10.0.0.1/token=7'')) (projr (web_parse ''http://203.0.113.9/''))) =
    Some ''https://10.0.0.1/token=7''"
proof -
  let ?p = "projr (web_parse ''https://10.0.0.1/token=7'')" and ?n = "projr (web_parse ''http://203.0.113.9/'')"
  have "url_domain web_urls ?p = None \<and> url_domain web_urls ?n = None \<and> \<not> url_same_origin web_urls ?n ?p"
    by code_simp
  then show ?thesis
    using ip_redirect_is_same_site[of web_urls ?p ?n "first_request ''GET'' ''https://10.0.0.1/token=7'' None" 302]
    by (simp add: first_request_def)
qed

end
