(* ===== verification/Client_Pool.thy ===== *)
theory Client_Pool imports Client_Sample begin

text \<open>
  The pool of a \<open>Client\<close> (\<open>src/client/pool.rs\<close>): its keys, the connections that fit them
  (\<open>slots_ok\<close>), and how a step of a request may change a slot (\<open>pool_step\<close>).
\<close>

section \<open>Keys\<close>

lemma rev_takeWhile_last:
  assumes "c \<notin> set xs" "c \<notin> set ys" "us @ c # xs = vs @ c # ys"
  shows "xs = ys"
proof -
  have "takeWhile (\<lambda>d. d \<noteq> c) (rev (us @ c # zs)) = rev zs" if "c \<notin> set zs" for us zs
    using that by (simp, intro takeWhile_stop) auto
  from this[OF assms(1), of us] this[OF assms(2), of vs] assms(3) have "rev xs = rev ys" by simp
  then show ?thesis by simp
qed

definition plain_authority :: "string \<Rightarrow> bool" where
  "plain_authority a \<longleftrightarrow> CHR ''@'' \<notin> set a"

fun plain_proxy :: "proxy option \<Rightarrow> bool" where
  "plain_proxy None = True"
| "plain_proxy (Some (HttpProxy a)) = plain_authority a"
| "plain_proxy (Some (Socks5Proxy a)) = plain_authority a"

lemma show_word_chars: "CHR ''@'' \<notin> set (show_word w)" "CHR '':'' \<notin> set (show_word w)"
  using show_nat_digits[of "unat w"] by (auto simp: show_word_def is_digit_def)

lemma proxy_prefix_inject:
  assumes "plain_proxy p" "plain_proxy p'" "plain_authority xs" "plain_authority ys"
    and eq: "proxy_prefix p @ xs = proxy_prefix p' @ ys"
  shows "p = p' \<and> xs = ys"
proof -
  have at: "CHR ''@'' \<in> set (proxy_prefix q @ zs) \<longleftrightarrow> q \<noteq> None" if "plain_authority zs" for q zs
    using that by (cases q; cases "the q") (auto simp: proxy_prefix_def plain_authority_def)
  have none: "p = None \<longleftrightarrow> p' = None"
    using at[OF assms(3), of p] at[OF assms(4), of p'] eq by auto
  show ?thesis
  proof (cases p)
    case None
    with none eq show ?thesis by (simp add: proxy_prefix_def)
  next
    case (Some q)
    then obtain q' where q': "p' = Some q'" using none by auto
    obtain s where s: "proxy_prefix p = s @ [CHR ''@'']" "proxy_prefix p = proxy_prefix (Some q)"
      using Some by (cases q) (auto simp: proxy_prefix_def)
    obtain s' where s': "proxy_prefix p' = s' @ [CHR ''@'']"
      using q' by (cases q') (auto simp: proxy_prefix_def)
    have xs: "xs = ys"
      using rev_takeWhile_last[of "CHR ''@''" xs ys s s'] assms(3,4) eq s s'
      by (simp add: plain_authority_def)
    with eq have "proxy_prefix (Some q) = proxy_prefix (Some q')" using Some q' by simp
    then have "q = q'" by (cases q; cases q') (simp_all add: proxy_prefix_def)
    with xs Some q' show ?thesis by simp
  qed
qed

lemma host_port_inject:
  assumes "a @ '':'' @ show_word n = a' @ '':'' @ show_word n'"
  shows "a = a' \<and> n = n'"
proof -
  have "show_word n = show_word n'"
    using rev_takeWhile_last[of "CHR '':''" "show_word n" "show_word n'" a a'] assms show_word_chars by auto
  with assms show ?thesis by simp
qed

section \<open>What the slots hold\<close>

definition key_proto :: "string \<Rightarrow> string" where
  "key_proto key = drop (length key - 2) key"

lemma key_proto_pool_key [simp]:
  "key_proto (pool_key p a n ''h2'') = ''h2''" "key_proto (pool_key p a n ''h3'') = ''h3''"
  by (simp_all add: key_proto_def pool_key_def)

lemma pool_keys_differ: "key_proto k = ''h3'' \<Longrightarrow> pool_key p a n ''h2'' \<noteq> k"
  by auto

text \<open>
  A connection fits a key when its kind agrees with the protocol of the key; it is to carry the
  identity \<open>p\<close>, the profile it was negotiated with.
\<close>

fun conn_proto :: "pooled_connection \<Rightarrow> string" where
  "conn_proto (Http2 c) = ''h2''"
| "conn_proto (Http3 s) = ''h3''"

fun conn_profile :: "pooled_connection \<Rightarrow> chrome_profile" where
  "conn_profile (Http2 c) = qc_profile c"
| "conn_profile (Http3 s) = qs_profile s"

definition fits :: "chrome_profile \<Rightarrow> string \<Rightarrow> pooled_connection \<Rightarrow> bool" where
  "fits p key c \<longleftrightarrow> conn_proto c = key_proto key \<and> conn_profile c = p"

definition slots_ok where
  "slots_ok p st \<longleftrightarrow> (\<forall>key c. slot key st = Some c \<longrightarrow> fits p key c)"

lemma slots_ok_simps [simp]:
  "slots_ok p (set_world w st) = slots_ok p st" "slots_ok p (evict_origin k st) = slots_ok p st"
  "slots_ok p (snd (pool_entry key st)) = slots_ok p st"
  "slots_ok p st \<Longrightarrow> slots_ok p (set_slot key None st)"
  "slots_ok p st \<Longrightarrow> fits p key c \<Longrightarrow> slots_ok p (set_slot key (Some c) st)"
  by (auto simp: slots_ok_def)

lemma slots_ok_pool_entry: "pool_entry key st = (r, st') \<Longrightarrow> slots_ok p st \<Longrightarrow> slots_ok p st'"
  using slots_ok_simps(3)[of p key st] by simp

lemma slot_pool_entry: "pool_entry key st = (r, st') \<Longrightarrow> slot k st' = slot k st"
  using pool_entry_slot[of k key st] by simp

lemma dial_h3_proto: "dial_h3 E profile a n w = (Inr c, w') \<Longrightarrow> conn_proto c = ''h3'' \<and> conn_profile c = profile"
  by (auto simp: dial_h3_def try_st_Inr_iff Let_def case_prod_beta)

lemma connect_quik_profile: "connect_quik B S T host port addr profile p w = Some (Inr conn, w') \<Longrightarrow> qc_profile conn = profile"
  by (auto simp: connect_quik_def try_st_Inr_iff split: option.splits sum.splits prod.splits)

lemma dial_proto:
  "dial E profile p a n h3 w = Some (Inr c, w') \<Longrightarrow>
   conn_proto c = (if h3 then ''h3'' else ''h2'') \<and> conn_profile c = profile"
  by (auto simp: dial_def try_opt_Inr_iff dest: dial_h3_proto connect_quik_profile split: if_splits)

lemma dial_route_slots:
  assumes "dial_route E cl ro h3 st = Some (r, st')"
  shows "slot k st' = slot k st" "slots_ok p st' = slots_ok p st"
    "r = Inr c \<Longrightarrow> conn_proto c = (if h3 then ''h3'' else ''h2'') \<and> conn_profile c = cl_profile cl"
  using assms by (auto simp: dial_route_def on_world_def dest: dial_proto)

text \<open>A route as \<open>route_of\<close> makes it: its two keys carry their protocols.\<close>

definition route_ok :: "route \<Rightarrow> bool" where
  "route_ok ro \<longleftrightarrow> key_proto (ro_key ro) = (if ro_h3 ro then ''h3'' else ''h2'') \<and>
     key_proto (ro_h2_key ro) = ''h2''"

lemma route_of_ok: "route_ok (route_of (env_url E) cl c u a)"
  by (simp add: route_ok_def route_of_def Let_def)

text \<open>
  What every operation does to the pool: the kinds stay right, and a slot that holds an HTTP/3
  session keeps it.
\<close>

definition pool_step where
  "pool_step p st st' \<longleftrightarrow> (slots_ok p st \<longrightarrow> slots_ok p st') \<and>
     (\<forall>k s. key_proto k = ''h3'' \<longrightarrow> slot k st = Some (Http3 s) \<longrightarrow> slot k st' = Some (Http3 s))"

lemma pool_step_refl [simp]: "pool_step p st st"
  by (simp add: pool_step_def)

lemma pool_step_trans [trans]: "pool_step p a b \<Longrightarrow> pool_step p b c \<Longrightarrow> pool_step p a c"
  by (auto simp: pool_step_def)

lemma pool_step_simps [simp]:
  "pool_step p st (set_world w st)" "pool_step p st (evict_origin k st)"
  "pool_step p st (snd (pool_entry key st))"
  by (auto simp: pool_step_def)

lemma pool_step_entry: "pool_entry key st = (r, st') \<Longrightarrow> pool_step p st st'"
  using pool_step_simps(3)[of p st key] by simp

lemma pool_step_dial: "dial_route E cl ro h3 st = Some (r, st') \<Longrightarrow> pool_step p st st'"
  using dial_route_slots(1,2)[of E cl ro h3 st r st'] by (simp add: pool_step_def)

text \<open>Writing a slot: allowed when the kind fits and no HTTP/3 session is overwritten.\<close>

lemma pool_step_set_h2:
  "key_proto key = ''h2'' \<Longrightarrow> (slots_ok p st \<Longrightarrow> fits p key c) \<Longrightarrow> pool_step p st (set_slot key (Some c) st)"
  by (auto simp: pool_step_def slots_ok_def)

lemma pool_step_set_empty:
  "slot key st = None \<Longrightarrow> fits p key c \<Longrightarrow> pool_step p st (set_slot key (Some c) st)"
  by (auto simp: pool_step_def slots_ok_def)

lemma send_pooled_step: "send_pooled E conn req body st = Some (r, st') \<Longrightarrow> pool_step p st st'"
  by (auto simp: send_pooled_def on_world_def split: prod.splits)

text \<open>The stores touch neither the pool nor its slots.\<close>

lemma stores_pool [simp]:
  "cs_pool (store_cookies E resp u st) = cs_pool st" "cs_pool (store_hints E resp u st) = cs_pool st"
  "cs_pool (store_alt_svc E resp u st) = cs_pool st"
  by (auto simp: store_cookies_def store_hints_def store_alt_svc_def Let_def split: option.splits)

section \<open>Properties\<close>

text \<open>A client that learns of HTTP/3 with its first response; its QUIC driver never answers.\<close>

definition toy_key :: "string \<Rightarrow> string" where
  "toy_key proto = pool_key None ''a.example'' 443 proto"

definition toy_session :: quic_session where
  "toy_session = \<lparr>qs_tx = 9, qs_profile = sample_profile\<rparr>"

text \<open>
  C24 (safety). Two requests share a pooled connection only when they agree on the proxy, the host,
  the port and the protocol: the keys of the pool tell them apart, for proxies and hosts without
  an at sign.
\<close>

theorem pool_key_injective:
  assumes "plain_proxy p" "plain_proxy p'" "plain_authority a" "plain_authority a'"
    and "q \<in> {''h2'', ''h3''}" "q' \<in> {''h2'', ''h3''}" "pool_key p a n q = pool_key p' a' n' q'"
  shows "p = p' \<and> a = a' \<and> n = n' \<and> q = q'"
proof -
  have "key_proto (pool_key p a n q) = q" "key_proto (pool_key p' a' n' q') = q'"
    using assms(5,6) by auto
  with assms(7) have q: "q = q'" by simp
  with assms(7) have eq: "proxy_prefix p @ (a @ '':'' @ show_word n) = proxy_prefix p' @ (a' @ '':'' @ show_word n')"
    by (simp add: pool_key_def)
  have "plain_authority (a @ '':'' @ show_word n)" "plain_authority (a' @ '':'' @ show_word n')"
    using assms(3,4) show_word_chars by (auto simp: plain_authority_def)
  from proxy_prefix_inject[OF assms(1,2) this eq] have "p = p'" "a @ '':'' @ show_word n = a' @ '':'' @ show_word n'"
    by simp_all
  with host_port_inject[OF this(2)] q show ?thesis by simp
qed

theorem pool_key_injective_witness:
  "pool_key (Some (HttpProxy ''p:1080'')) ''a.example'' 443 ''h2'' \<noteq>
     pool_key (Some (Socks5Proxy ''p:1080'')) ''a.example'' 443 ''h2'' \<and>
   pool_key None ''a.example'' 443 ''h2'' \<noteq> pool_key None ''a.example'' 443 ''h3''"
  using pool_key_injective[of "Some (HttpProxy ''p:1080'')" "Some (Socks5Proxy ''p:1080'')" "''a.example''"
      "''a.example''" "''h2''" "''h2''" 443 443]
    pool_key_injective[of None None "''a.example''" "''a.example''" "''h2''" "''h3''" 443 443]
  by (auto simp: plain_authority_def)

text \<open>A pooled HTTP/3 session whose driver is gone, and an advertisement that leads to it.\<close>

definition dead_session_state :: "((string \<times> string) list, toy_world) client_state" where
  "dead_session_state = set_slot (toy_key ''h3'') (Some (Http3 toy_session))
     ((toy_state [(200, [])])\<lparr>cs_alt_svc := alt_svc_insert ''a.example:443'' ''h3'' alt_svc_new\<rparr>)"

end
