(* ===== verification/Client_Fallback.thy ===== *)
theory Client_Fallback imports Client_Pool begin

text \<open>
  What a hop sends and over which transport: the header map of a request, the two fallbacks from
  HTTP/3 to HTTP/2, the Alt-Svc cache between a response and the next request, totality, and the
  builder's switches.
\<close>

section \<open>Totality\<close>

text \<open>Only the CONNECT loop may fail to end: when it does not, every step of the client returns.\<close>

definition returns :: "'a option \<Rightarrow> bool" where
  "returns m \<longleftrightarrow> m \<noteq> None"

lemma returns_intros [intro!]:
  "returns (Some x)" "returns r \<Longrightarrow> returns (map_option f r)"
  "returns r \<Longrightarrow> (\<And>x s. returns (k x s)) \<Longrightarrow> returns (try_opt r k)"
  by (auto simp: returns_def try_opt_def split: option.splits prod.splits sum.splits)

lemma returns_cases:
  "(c \<Longrightarrow> returns m) \<Longrightarrow> (\<not> c \<Longrightarrow> returns m') \<Longrightarrow> returns (if c then m else m')"
  by simp

definition proxy_returns :: "'w tcp_ops \<Rightarrow> proxy option \<Rightarrow> bool" where
  "proxy_returns T p \<longleftrightarrow> (\<forall>a host port w. p = Some (HttpProxy a) \<longrightarrow> returns (dial_http_proxy T a host port w))"

lemma connect_returns: "proxy_returns T p \<Longrightarrow> returns (connect_quik B S T host port addr profile p w)"
proof (cases p)
  case (Some q)
  assume "proxy_returns T p"
  with Some have "returns (dial_proxy T q host port w)"
    by (cases q) (auto simp: dial_proxy_def proxy_returns_def)
  with Some show ?thesis by (auto simp: connect_quik_def returns_def)
qed (auto simp: connect_quik_def)

lemma dial_route_returns: "proxy_returns (env_tcp E) (cl_proxy cl) \<Longrightarrow> returns (dial_route E cl ro h3 st)"
  unfolding dial_route_def on_world_def dial_def
  by (auto intro!: connect_returns)

lemma establish_returns:
  assumes "proxy_returns (env_tcp E) (cl_proxy cl)"
  shows "returns (establish E cl ro st)"
proof -
  note dial = dial_route_returns[OF assms]
  obtain r st1 where d: "dial_route E cl ro (ro_h3 ro) st = Some (r, st1)"
    using dial[of ro "ro_h3 ro" st] by (auto simp: returns_def)
  show ?thesis
    using d by (cases r) (auto simp: establish_def intro!: dial split: option.split)
qed

lemma acquire_loop_returns:
  assumes "proxy_returns (env_tcp E) (cl_proxy cl)"
  shows "returns (acquire_loop E cl ro st)"
proof -
  have empty: "returns (acquire_loop E cl ro st)" if "slot (ro_key ro) st = None" for st
    using that establish_returns[OF assms] by (simp add: acquire_loop.simps[of E cl ro st])
  show ?thesis
    by (subst acquire_loop.simps)
      (auto intro!: empty establish_returns[OF assms] split: option.split pooled_connection.split prod.split sum.split)
qed

lemma fallback_connection_returns: "proxy_returns (env_tcp E) (cl_proxy cl) \<Longrightarrow> returns (fallback_connection E cl ro st)"
  unfolding fallback_connection_def Let_def
  by (auto intro!: dial_route_returns split: option.split pooled_connection.split prod.split sum.split)

lemma send_pooled_returns: "returns (send_pooled E conn req body st)"
  unfolding send_pooled_def on_world_def by auto

lemma send_with_fallback_returns:
  assumes "proxy_returns (env_tcp E) (cl_proxy cl)"
  shows "returns (send_with_fallback E cl ro conn parts body st)"
proof -
  have "returns (case send_pooled E conn req body st of
        None \<Rightarrow> None
      | Some (Inr resp, st) \<Rightarrow> Some (Inr resp, st)
      | Some (Inl e, st) \<Rightarrow>
          (case conn of
             Http3 _ \<Rightarrow>
               try_opt (Some (pool_entry (ro_h2_key ro) (evict_origin (ro_origin_key ro) st))) (\<lambda>_ st.
               try_opt (fallback_connection E cl ro st) (\<lambda>h2_conn st.
               try_opt (Some (build_request E (cl_profile cl) parts, st)) (\<lambda>fallback_request st.
               send_pooled E h2_conn fallback_request body st)))
           | Http2 _ \<Rightarrow> Some (Inl e, st)))" for req st
  proof -
    obtain r st1 where "send_pooled E conn req body st = Some (r, st1)"
      using send_pooled_returns[of E conn req body st] by (auto simp: returns_def)
    then show ?thesis
      by (cases r; cases conn) (auto intro!: fallback_connection_returns[OF assms] send_pooled_returns)
  qed
  then show ?thesis unfolding send_with_fallback_def by blast
qed

lemma hop_outcome_returns: "returns (hop_outcome E rd parsed resp st)"
  unfolding hop_outcome_def Let_def by (auto split: option.split sum.split)

lemma run_hop_returns: "proxy_returns (env_tcp E) (cl_proxy cl) \<Longrightarrow> returns (run_hop E cl ctx hop rd st)"
  unfolding run_hop_def Let_def lift_fail_def acquire_def
  by (auto intro!: acquire_loop_returns send_with_fallback_returns hop_outcome_returns)

lemma run_hops_returns: "proxy_returns (env_tcp E) (cl_proxy cl) \<Longrightarrow> returns (run_hops E cl ctx n rd st)"
  by (induction n arbitrary: rd st)
    (auto intro!: run_hop_returns split: hop_result.split)

section \<open>Sending\<close>

lemma send_h3_failure:
  assumes "build_request E (cl_profile cl) parts = Inr req"
    and "session_send (env_uri E) (env_headers E) (env_channel E) s req body (cs_world st) = (Inl e, w1)"
    and "\<not> lk_poisoned (cs_pool st)"
  shows "\<exists>st2. send_with_fallback E cl ro (Http3 s) parts body st =
      try_opt (fallback_connection E cl ro st2) (\<lambda>c st. send_pooled E c req body st) \<and>
    alt_svc_get (cs_alt_svc st2) (ro_origin_key ro) = None \<and> cs_world st2 = w1 \<and>
    (\<forall>k. slot k st2 = slot k st)"
proof -
  let ?st1 = "evict_origin (ro_origin_key ro) (set_world w1 st)"
  obtain st2 where entry: "pool_entry (ro_h2_key ro) ?st1 = (Inr (), st2)"
    using assms(3) by (auto simp: pool_entry_def evict_origin_def set_world_def)
  have st2: "st2 = snd (pool_entry (ro_h2_key ro) ?st1)" by (simp add: entry)
  have "send_with_fallback E cl ro (Http3 s) parts body st =
      try_opt (fallback_connection E cl ro st2) (\<lambda>c st. send_pooled E c req body st)"
    using assms(1,2) entry
    by (simp add: send_with_fallback_def send_pooled_def on_world_def pooled_send_def)
  then show ?thesis
    by (intro exI[of _ st2]) (simp add: st2 alt_svc.get_evict)
qed

lemma peer_proxy_returns:
  assumes "\<forall>a w s w1. p = Some (HttpProxy a) \<longrightarrow> tcp_connect T a w = (Inr s, w1) \<longrightarrow>
    (\<exists>pend sent. tcp_peer T s pend sent)"
  shows "proxy_returns T p"
  unfolding proxy_returns_def
proof (intro allI impI)
  fix a host port w
  assume p: "p = Some (HttpProxy a)"
  obtain r w1 where c: "tcp_connect T a w = (r, w1)" by fastforce
  show "returns (dial_http_proxy T a host port w)"
  proof (cases r)
    case (Inl e)
    with c show ?thesis by (auto simp: dial_http_proxy_def)
  next
    case (Inr s)
    with assms p c obtain pend sent where peer: "tcp_peer T s pend sent" by blast
    from tcp_peer.dial_http_verdict[OF peer c[unfolded Inr], of host port] show ?thesis
      by (auto simp: returns_def)
  qed
qed

text \<open>The headers of a request before the Chrome headers are written over them.\<close>

lemma request_header_values:
  assumes "header_map H" "env_headers E = H"
  shows "hm_get_all H (request_headers E profile parts) n =
    map (mark_sensitive n)
      (case chrome_header (cp_headers profile) (rp_site parts) (rp_initial parts) (rp_context parts)
            (rp_accept_ch parts) (rp_referer parts) n of
         Some t \<Rightarrow> [plain_value t]
       | None \<Rightarrow>
           (if n = ''origin'' \<and> body_method (rp_method parts) \<and>
               visible_text (url_origin_ascii (env_url E) (rp_url parts))
            then [plain_value (url_origin_ascii (env_url E) (rp_url parts))]
            else if n = ''cookie'' then
              (case rp_cookie parts of Some c \<Rightarrow> if visible_text c then [plain_value c] else [] | None \<Rightarrow> [])
            else []))"
  using assms(2)
  by (auto simp: request_headers_def Let_def header_map.get_all_inject[OF assms(1)] insert_if_valid_def
      header_map.from_str[OF assms(1)] header_map.get_all_insert[OF assms(1)]
      header_map.get_all_new[OF assms(1)] split: option.splits)

section \<open>Properties\<close>





text \<open>A \<open>POST\<close> on an HTTP/3 session whose driver is gone, with an HTTP/2 connection in the pool.\<close>

definition toy_url :: web_url where
  "toy_url = projr (web_parse ''https://a.example/'')"

definition toy_route :: route where
  "toy_route = route_of web_urls toy_client (alt_svc_insert ''a.example:443'' ''h3'' alt_svc_new) toy_url ''a.example''"

definition toy_parts :: "web_url request_parts" where
  "toy_parts = hop_parts toy_env Navigate 0 (first_request ''POST'' ''https://a.example/'' (Some [1])) toy_url None False"

definition toy_h2 :: quik_connection where
  "toy_h2 = \<lparr>qc_h2 = 2, qc_profile = sample_profile\<rparr>"

definition toy_pool :: "((string \<times> string) list, toy_world) client_state" where
  "toy_pool = set_slot (ro_h2_key toy_route) (Some (Http2 toy_h2)) (toy_state [(200, [])])"

text \<open>
  C28 (error). A request that fails on an HTTP/3 session is repeated over HTTP/2, whatever its
  method: the origin leaves the Alt-Svc cache, and the same request with the same body goes out on
  the HTTP/2 connection of the origin when there is a live one; its outcome is the outcome.
\<close>

theorem h3_send_failure_repeats_on_h2:
  assumes "build_request E (cl_profile cl) parts = Inr req"
    and "session_send (env_uri E) (env_headers E) (env_channel E) s req body (cs_world st) = (Inl e, w1)"
    and "\<not> lk_poisoned (cs_pool st)" "slot (ro_h2_key ro) st = Some (Http2 c)"
    and "h2_ready (env_stack E) (qc_h2 c) w1 = (Inr h2, w2)"
    and "conn_send (env_uri E) (env_stack E) (c\<lparr>qc_h2 := h2\<rparr>) req body w2 = (r, w3)"
  shows "\<exists>st'. send_with_fallback E cl ro (Http3 s) parts body st = Some (r, st') \<and> cs_world st' = w3 \<and>
    alt_svc_get (cs_alt_svc st') (ro_origin_key ro) = None"
proof -
  obtain st2 where st2: "send_with_fallback E cl ro (Http3 s) parts body st =
      try_opt (fallback_connection E cl ro st2) (\<lambda>c st. send_pooled E c req body st)"
    "alt_svc_get (cs_alt_svc st2) (ro_origin_key ro) = None" "cs_world st2 = w1"
    "slot (ro_h2_key ro) st2 = Some (Http2 c)"
    using send_h3_failure[OF assms(1-3), of ro] assms(4) by auto
  then show ?thesis
    using assms(5,6)
    by (simp add: fallback_connection_def Let_def send_pooled_def on_world_def pooled_send_def)
qed

theorem h3_send_failure_repeats_on_h2_witness:
  "\<exists>r st'. send_with_fallback toy_env toy_client toy_route (Http3 toy_session) toy_parts (Some [1]) toy_pool =
      Some (r, st') \<and> length (snd (cs_world st')) = 1 \<and> \<not> isl r"
proof -
  let ?B = "build_request toy_env (cl_profile toy_client) toy_parts"
  let ?S = "session_send (env_uri toy_env) (env_headers toy_env) (env_channel toy_env) toy_session (projr ?B) (Some [1])
      (cs_world toy_pool)"
  let ?R = "h2_ready (env_stack toy_env) (qc_h2 toy_h2) (snd ?S)"
  let ?C = "conn_send (env_uri toy_env) (env_stack toy_env) (toy_h2\<lparr>qc_h2 := projr (fst ?R)\<rparr>) (projr ?B) (Some [1])
      (snd ?R)"
  have b: "?B = Inr (projr ?B)" by code_simp
  have s: "?S = (Inl (projl (fst ?S)), snd ?S)" by code_simp
  have p: "\<not> lk_poisoned (cs_pool toy_pool)" by code_simp
  have h: "slot (ro_h2_key toy_route) toy_pool = Some (Http2 toy_h2)" by code_simp
  have r: "?R = (Inr (projr (fst ?R)), snd ?R)" by code_simp
  have c: "?C = (fst ?C, snd ?C)" by simp
  have out: "length (snd (snd ?C)) = 1" "\<not> isl (fst ?C)" by code_simp+
  from h3_send_failure_repeats_on_h2[OF b s p h r c] out show ?thesis by metis
qed


text \<open>An environment whose name resolution works and whose UDP sockets cannot be bound.\<close>

definition tcp_only_env :: toy_env where
  "tcp_only_env = toy_env\<lparr>env_udp_bind :=
     (\<lambda>a w. (Inl (io_other ''UDP blocked''), w))\<rparr>"


end
