(* ===== verification/Client_Build.thy ===== *)
theory Client_Build imports Client_Fallback begin

text \<open>
  What the client learns and how it is set up: the Alt-Svc cache between a response and the routes
  of later requests, what a cached service does to a proxied client, and the builder's switch for
  certificate verification.
\<close>

section \<open>Auxiliary facts\<close>

lemma profile_auto_148_verifies:
  assumes "profile_auto_148 os r g = Some (p, g')"
  shows "tls_verify_peer (cp_tls p)"
  using assms
  by (auto simp: profile_auto_148_def chrome_148_defs base_tls_148_def bind_eq_Some_conv split: if_splits)

lemma build_client_profile:
  assumes "build_client os r g dflt bd w = Some (cl, st, g')"
  obtains p h where "cl = \<lparr>cl_profile = (if bd_danger bd
        then p\<lparr>cp_tls := (cp_tls p)\<lparr>tls_verify_peer := False\<rparr>\<rparr> else p), cl_proxy = bd_proxy bd\<rparr>"
    "bd_profile bd = Some p \<or> profile_auto_148 os r g = Some (p, h)"
proof -
  obtain p h where p: "(case bd_profile bd of Some p \<Rightarrow> Some (p, g) | None \<Rightarrow> profile_auto_148 os r g) = Some (p, h)"
    and cl: "cl = \<lparr>cl_profile = (if bd_danger bd
        then p\<lparr>cp_tls := (cp_tls p)\<lparr>tls_verify_peer := False\<rparr>\<rparr> else p), cl_proxy = bd_proxy bd\<rparr>"
    using assms unfolding build_client_def Let_def map_option_eq_Some by fast
  from p have "bd_profile bd = Some p \<or> profile_auto_148 os r g = Some (p, h)"
    by (cases "bd_profile bd") auto
  with cl that show ?thesis by blast
qed

lemma quic_client_config_recorded:
  "\<exists>cs. quic_client_config recording_quic p = Inr cs \<and> (VerifyPeer False \<in> set cs \<longleftrightarrow> \<not> tls_verify_peer (cp_tls p))"
  by (simp add: quic_client_config_def configure_chrome_quic_transport_def recording_quic_def Let_def)

lemma route_of_h3:
  "ro_h3 (route_of U cl c u a) \<longleftrightarrow>
     alt_svc_get c (a @ '':'' @ show_word (url_port_or_default U u)) \<noteq> None"
  by (simp add: route_of_def Let_def)

lemma store_alt_svc_cache:
  assumes "header_text (env_headers E) (rs_headers resp) ''alt-svc'' = Some s" "str_contains s ''h3''"
    and "url_host_str (env_url E) u = Some a"
  shows "cs_alt_svc (store_alt_svc E resp u st) =
    alt_svc_insert (a @ '':'' @ show_word (unwrap_or (url_port (env_url E) u) 443)) s (cs_alt_svc st)"
  using assms by (simp add: store_alt_svc_def unwrap_or_def Let_def)

section \<open>Properties\<close>

text \<open>
  C29 (functional). A response that offers HTTP/3 moves to HTTP/3 the later requests for its host
  at its port, and no others, where a URL without a port counts as port 443. So the offer of an
  \<open>http\<close> origin on its default port does not reach that origin, whose requests look under port
  80, but the \<open>https\<close> origin of the same host.
\<close>

theorem alt_svc_learned:
  assumes "header_text (env_headers E) (rs_headers resp) ''alt-svc'' = Some s" "str_contains s ''h3''"
    and "url_host_str (env_url E) u = Some a" "\<not> lk_poisoned (cs_alt_svc st)"
  shows "ro_h3 (route_of (env_url E) cl (cs_alt_svc (store_alt_svc E resp u st)) u' a') \<longleftrightarrow>
      (a' = a \<and> url_port_or_default (env_url E) u' = unwrap_or (url_port (env_url E) u) 443) \<or>
      ro_h3 (route_of (env_url E) cl (cs_alt_svc st) u' a')"
  unfolding route_of_h3 store_alt_svc_cache[OF assms(1-3)] alt_svc.get_put
  using assms(4) host_port_inject by auto

theorem alt_svc_learned_witness:
  "let learned = cs_alt_svc (store_alt_svc toy_env
         (response_new 200 [(''alt-svc'', plain_value ''h3=:443'')] (BodyHttp3 []) [])
         (projr (web_parse ''http://a.example/'')) (toy_state []));
       h3 = (\<lambda>url. ro_h3 (route_of web_urls toy_client learned (projr (web_parse url)) ''a.example''))
   in \<not> h3 ''http://a.example/'' \<and> h3 ''https://a.example/''"
proof -
  let ?resp = "response_new 200 [(''alt-svc'', plain_value ''h3=:443'')] (BodyHttp3 []) []"
  let ?u = "projr (web_parse ''http://a.example/'')"
  have h: "header_text (env_headers toy_env) (rs_headers ?resp) ''alt-svc'' = Some ''h3=:443''" by code_simp
  have c: "str_contains ''h3=:443'' ''h3''" by code_simp
  have a: "url_host_str (env_url toy_env) ?u = Some ''a.example''" by code_simp
  have p: "\<not> lk_poisoned (cs_alt_svc (toy_state []))" by code_simp
  have start: "\<not> ro_h3 (route_of (env_url toy_env) toy_client (cs_alt_svc (toy_state [])) u b)" for u b
    by (simp add: route_of_h3 toy_state_def new_state_def alt_svc.new_empty)
  have ports: "url_port_or_default (env_url toy_env) ?u = 80" "unwrap_or (url_port (env_url toy_env) ?u) 443 = 443"
    "url_port_or_default (env_url toy_env) (projr (web_parse ''https://a.example/'')) = 443"
    by code_simp+
  have urls: "env_url toy_env = web_urls" by (simp add: toy_env_def)
  show ?thesis
    using alt_svc_learned[OF h c a p, of toy_client ?u "''a.example''"]
      alt_svc_learned[OF h c a p, of toy_client "projr (web_parse ''https://a.example/'')" "''a.example''"]
      start ports by (simp add: urls Let_def)
qed







end
