(* ===== verification/Pool_Send.thy ===== *)
theory Pool_Send imports Client_Build begin

text \<open>
  \<open>PooledConnection::send\<close> (\<open>src/client/pool.rs\<close>) cut at the await in which a request is with the
  peer, out of the halves of \<open>QuikConnection::send\<close> (\<open>Connector\<close>) and of \<open>QuicSession::send\<close>
  (\<open>Quic_Session\<close>). Together they make the whole.
\<close>

section \<open>The two halves\<close>

text \<open>What a request that has been sent is waiting for.\<close>

datatype in_flight = H2Response nat string | H3Answer nat

definition map_ok_st :: "('a \<Rightarrow> 'b) \<Rightarrow> ('e + 'a) \<times> 's \<Rightarrow> ('e + 'b) \<times> 's" where
  "map_ok_st g m = try_st m (\<lambda>x s. (Inr (g x), s))"

definition pooled_begin where
  "pooled_begin E conn request body w =
    (case conn of
       Http2 c \<Rightarrow> map_ok_st (\<lambda>(response_future, url_str). H2Response response_future url_str)
         (conn_begin (env_uri E) (env_stack E) c request body w)
     | Http3 s \<Rightarrow> map_ok_st H3Answer
         (session_begin (env_uri E) (env_headers E) (env_channel E) s request body w))"

definition pooled_finish where
  "pooled_finish E f w =
    (case f of
       H2Response response_future url_str \<Rightarrow> conn_finish (env_stack E) response_future url_str w
     | H3Answer response_rx \<Rightarrow> session_finish (env_channel E) response_rx w)"

text \<open>On the client's state.\<close>

definition send_begin where
  "send_begin E conn request body st =
    (let (r, w) = pooled_begin E conn request body (cs_world st) in (r, set_world w st))"

definition send_finish where
  "send_finish E f st = (let (r, w) = pooled_finish E f (cs_world st) in (r, set_world w st))"

lemma set_world_set_world [simp]: "set_world w' (set_world w c) = set_world w' c"
  by (simp add: set_world_def)

text \<open>Rewriting goes into every branch of the client's case distinctions.\<close>

lemmas deep_cong = if_cong option.case_cong sum.case_cong prod.case_cong pooled_connection.case_cong

lemma send_parts:
  "send_pooled E conn request body st =
    Some (try_st (send_begin E conn request body st) (send_finish E))"
  by (auto simp: send_pooled_def on_world_def pooled_send_def send_begin_def send_finish_def pooled_begin_def
      pooled_finish_def map_ok_st_def conn_send_parts session_send_parts try_st_def Let_def
      split: pooled_connection.split sum.split prod.split)

lemma send_frame:
  "send_begin E conn request body st = (r, st') \<Longrightarrow> \<exists>w. st' = set_world w st"
  "send_finish E f st = (r', st') \<Longrightarrow> \<exists>w. st' = set_world w st"
  by (auto simp: send_begin_def send_finish_def split: prod.splits)

end
