(* ===== verification/Pool_Race.thy ===== *)
theory Pool_Race imports Pool_Send begin

text \<open>
  Tasks that meet at the slots of the pool: the acquisition loop, the sending of the request and its
  mid-flight fallback in \<open>execute_with_redirects\<close> (\<open>src/client/pool.rs\<close>), as they run interleaved. A slot is behind a
  \<open>tokio::sync::Mutex\<close>, and a task may be suspended at every \<open>await\<close>: at a \<open>lock\<close>, while it
  probes a connection with \<open>ready\<close>, while it dials and while it sends. A stretch of code between two awaits is one
  step, and the sequential functions of \<open>Client\<close> are the runs in which one task moves alone.
\<close>

section \<open>Program points\<close>

text \<open>
  \<open>AtLoop\<close>, \<open>SawEmpty\<close>, \<open>Evicting\<close>, \<open>Falling\<close> and \<open>Resending\<close> wait for a mutex; \<open>Probing\<close> and
  \<open>ResendProbing\<close> for \<open>ready\<close>; \<open>Dialling\<close>, \<open>Redialling\<close> and \<open>ResendDialling\<close> for \<open>dial\<close>;
  \<open>Acquired\<close> and \<open>ResendSending\<close>, with a connection, for their turn to send the request (on HTTP/3,
  for room in the driver's channel); \<open>Sending\<close> and \<open>ResendAwaiting\<close> for the response.
  \<open>Answered\<close> is the end of the hop's network part, with its outcome.
\<close>

datatype 'h point =
    AtLoop
  | Probing quik_connection
  | Evicting
  | SawEmpty
  | Dialling
  | Falling
  | Redialling
  | Resending
  | ResendProbing quik_connection
  | ResendDialling
  | ResendSending pooled_connection
  | ResendAwaiting in_flight
  | Acquired pooled_connection
  | Sending pooled_connection in_flight
  | Answered "quik_error + 'h response"

text \<open>
  The guards a task holds while it is suspended at a point. The fallback's guard on the HTTP/2 slot
  lives to the end of its block, so it is held until the repeated request is answered.
\<close>

fun holds :: "route \<Rightarrow> 'h point \<Rightarrow> string list" where
  "holds ro Dialling = [ro_key ro]"
| "holds ro Falling = [ro_key ro]"
| "holds ro Redialling = [ro_key ro, ro_h2_key ro]"
| "holds ro (ResendProbing c) = [ro_h2_key ro]"
| "holds ro ResendDialling = [ro_h2_key ro]"
| "holds ro (ResendSending c) = [ro_h2_key ro]"
| "holds ro (ResendAwaiting f) = [ro_h2_key ro]"
| "holds ro _ = []"

text \<open>\<open>rc_holder\<close> names the task that holds the mutex of a slot.\<close>

record ('k, 'w, 'h) race =
  rc_client :: "('k, 'w) client_state"
  rc_holder :: "string \<Rightarrow> nat option"
  rc_point :: "nat \<Rightarrow> 'h point"

text \<open>
  Task \<open>t\<close> goes on to its next suspension with the client's state \<open>st\<close>: it takes the guards it
  holds there and drops the others.
\<close>

definition goto :: "route \<Rightarrow> nat \<Rightarrow> 'h point \<Rightarrow> ('k, 'w) client_state \<Rightarrow> ('k, 'w, 'h) race \<Rightarrow> ('k, 'w, 'h) race" where
  "goto ro t p st s =
    \<lparr>rc_client = st,
     rc_holder = (\<lambda>k. if k \<in> set (holds ro p) then Some t
                      else if k \<in> set (holds ro (rc_point s t)) then None else rc_holder s k),
     rc_point = (rc_point s)(t := p)\<rparr>"

section \<open>One step of one task\<close>

definition lock_free :: "string \<Rightarrow> ('k, 'w, 'h) race \<Rightarrow> bool" where
  "lock_free k s \<longleftrightarrow> rc_holder s k = None"

definition look_step where
  "look_step ro t s =
    (if \<not> lock_free (ro_key ro) s then None
     else Some (goto ro t
       (case slot (ro_key ro) (rc_client s) of
          Some (Http2 conn) \<Rightarrow> Probing conn
        | Some (Http3 conn) \<Rightarrow> Acquired (Http3 conn)
        | None \<Rightarrow> SawEmpty) (rc_client s) s))"

definition probe_step where
  "probe_step E ro t conn s =
    (case h2_ready (env_stack E) (qc_h2 conn) (cs_world (rc_client s)) of
       (Inr h2, w) \<Rightarrow> Some (goto ro t (Acquired (Http2 (conn\<lparr>qc_h2 := h2\<rparr>))) (set_world w (rc_client s)) s)
     | (Inl e, w) \<Rightarrow> Some (goto ro t Evicting (set_world w (rc_client s)) s))"

definition evict_step where
  "evict_step ro t s =
    (if \<not> lock_free (ro_key ro) s then None
     else Some (goto ro t AtLoop (set_slot (ro_key ro) None (rc_client s)) s))"

definition claim_step where
  "claim_step ro t s =
    (if \<not> lock_free (ro_key ro) s then None
     else if slot (ro_key ro) (rc_client s) = None then Some (goto ro t Dialling (rc_client s) s)
     else Some (goto ro t AtLoop (rc_client s) s))"

definition dial_step where
  "dial_step E cl ro t s =
    (case dial_route E cl ro (ro_h3 ro) (rc_client s) of
       None \<Rightarrow> None
     | Some (Inr new_conn, st) \<Rightarrow>
         Some (goto ro t (Acquired new_conn) (set_slot (ro_key ro) (Some new_conn) st) s)
     | Some (Inl e, st) \<Rightarrow>
         Some (if ro_h3 ro
           then case pool_entry (ro_h2_key ro) (evict_origin (ro_origin_key ro) st) of
                  (Inr _, st) \<Rightarrow> goto ro t Falling st s
                | (Inl e, st) \<Rightarrow> goto ro t (Answered (Inl e)) st s
           else goto ro t (Answered (Inl e)) st s))"

definition fall_step where
  "fall_step ro t s =
    (if \<not> lock_free (ro_h2_key ro) s then None
     else Some (case slot (ro_h2_key ro) (rc_client s) of
         None \<Rightarrow> goto ro t Redialling (rc_client s) s
       | Some c \<Rightarrow> goto ro t (Acquired c) (rc_client s) s))"

text \<open>The HTTP/2 dial of a fallback: what it opens goes into the HTTP/2 slot, then \<open>k\<close> follows.\<close>

definition redial_step where
  "redial_step E cl ro t kok kerr s =
    (case dial_route E cl ro False (rc_client s) of
       None \<Rightarrow> None
     | Some (Inr conn, st) \<Rightarrow>
         Some (goto ro t (kok conn) (set_slot (ro_h2_key ro) (Some conn) st) s)
     | Some (Inl e, st) \<Rightarrow> Some (goto ro t (kerr e) st s))"

text \<open>A failure on an HTTP/3 session leads to the mid-flight fallback.\<close>

definition send_failed where
  "send_failed ro t conn e st s =
    (case conn of
       Http3 _ \<Rightarrow>
         (case pool_entry (ro_h2_key ro) (evict_origin (ro_origin_key ro) st) of
            (Inr _, st) \<Rightarrow> goto ro t Resending st s
          | (Inl e, st) \<Rightarrow> goto ro t (Answered (Inl e)) st s)
     | Http2 _ \<Rightarrow> goto ro t (Answered (Inl e)) st s)"

text \<open>
  Building the request and sending it; \<open>job\<close> is the request of the task, the parts it is built from
  and its body. Then the response.
\<close>

definition send_step where
  "send_step E cl ro t conn job s =
    Some (case build_request E (cl_profile cl) (fst job) of
        Inl e \<Rightarrow> goto ro t (Answered (Inl e)) (rc_client s) s
      | Inr request \<Rightarrow>
          (case send_begin E conn request (snd job) (rc_client s) of
             (Inr f, st) \<Rightarrow> goto ro t (Sending conn f) st s
           | (Inl e, st) \<Rightarrow> send_failed ro t conn e st s))"

definition await_step where
  "await_step E ro t conn f s =
    Some (case send_finish E f (rc_client s) of
        (Inr resp, st) \<Rightarrow> goto ro t (Answered (Inr resp)) st s
      | (Inl e, st) \<Rightarrow> send_failed ro t conn e st s)"

definition resend_step where
  "resend_step ro t s =
    (if \<not> lock_free (ro_h2_key ro) s then None
     else Some (goto ro t
       (case slot (ro_h2_key ro) (rc_client s) of
          Some (Http2 conn) \<Rightarrow> ResendProbing conn | _ \<Rightarrow> ResendDialling) (rc_client s) s))"

definition resend_probe_step where
  "resend_probe_step E ro t conn s =
    (case h2_ready (env_stack E) (qc_h2 conn) (cs_world (rc_client s)) of
       (Inr h2, w) \<Rightarrow>
         (let conn = conn\<lparr>qc_h2 := h2\<rparr>
          in Some (goto ro t (ResendSending (Http2 conn))
               (set_slot (ro_h2_key ro) (Some (Http2 conn)) (set_world w (rc_client s))) s))
     | (Inl e, w) \<Rightarrow> Some (goto ro t ResendDialling (set_world w (rc_client s)) s))"

definition resend_send_step where
  "resend_send_step E cl ro t conn job s =
    Some (case try_st (build_request E (cl_profile cl) (fst job), rc_client s) (\<lambda>fallback_request st.
          send_begin E conn fallback_request (snd job) st) of
        (Inr f, st) \<Rightarrow> goto ro t (ResendAwaiting f) st s
      | (Inl e, st) \<Rightarrow> goto ro t (Answered (Inl e)) st s)"

definition resend_await_step where
  "resend_await_step E ro t f s =
    (let (r, st) = send_finish E f (rc_client s) in Some (goto ro t (Answered r) st s))"

text \<open>\<open>None\<close> when the task has finished, waits for a mutex, or dials for ever.\<close>

definition task_step where
  "task_step E cl ro job t s =
    (case rc_point s t of
       AtLoop \<Rightarrow> look_step ro t s
     | Probing conn \<Rightarrow> probe_step E ro t conn s
     | Evicting \<Rightarrow> evict_step ro t s
     | SawEmpty \<Rightarrow> claim_step ro t s
     | Dialling \<Rightarrow> dial_step E cl ro t s
     | Falling \<Rightarrow> fall_step ro t s
     | Redialling \<Rightarrow> redial_step E cl ro t Acquired (\<lambda>e. Answered (Inl e)) s
     | Resending \<Rightarrow> resend_step ro t s
     | ResendProbing conn \<Rightarrow> resend_probe_step E ro t conn s
     | ResendDialling \<Rightarrow> redial_step E cl ro t ResendSending (\<lambda>e. Answered (Inl e)) s
     | ResendSending conn \<Rightarrow> resend_send_step E cl ro t conn job s
     | ResendAwaiting f \<Rightarrow> resend_await_step E ro t f s
     | Acquired conn \<Rightarrow> send_step E cl ro t conn job s
     | Sending conn f \<Rightarrow> await_step E ro t conn f s
     | Answered r \<Rightarrow> None)"

text \<open>The tasks, each with its route and its request, interleaved in any order.\<close>

inductive race_step for E cl and ro :: "nat \<Rightarrow> route" and job where
  task_moves: "task_step E cl (ro t) (job t) t s = Some s' \<Longrightarrow> race_step E cl ro job s s'"

inductive_cases race_stepE: "race_step E cl ro job s s'"

fun finished :: "'h point \<Rightarrow> bool" where
  "finished (Answered r) = True"
| "finished _ = False"

text \<open>
  At the start every mutex is free and every task is at the loop; a number that stands for no
  task is finished.
\<close>

definition race_start :: "('k, 'w, 'h) race \<Rightarrow> bool" where
  "race_start s \<longleftrightarrow> (\<forall>k. rc_holder s k = None) \<and> (\<forall>t. rc_point s t = AtLoop \<or> finished (rc_point s t))"

lemmas step_defs = look_step_def probe_step_def evict_step_def claim_step_def dial_step_def fall_step_def
  send_step_def send_failed_def await_step_def redial_step_def resend_step_def resend_probe_step_def
  resend_send_step_def resend_await_step_def

lemma goto_simps [simp]:
  "rc_client (goto ro t p st s) = st"
  "rc_point (goto ro t p st s) = (rc_point s)(t := p)"
  by (simp_all add: goto_def)

section \<open>The locks\<close>

text \<open>A move that takes a guard finds the mutex free.\<close>

definition moves where
  "moves ro t s s' \<longleftrightarrow> (\<exists>p st. s' = goto ro t p st s \<and> (p = Falling \<longrightarrow> ro_h3 ro) \<and>
     (\<forall>k \<in> set (holds ro p). k \<in> set (holds ro (rc_point s t)) \<or> rc_holder s k = None))"

lemma moves_goto:
  "(p = Falling \<longrightarrow> ro_h3 ro) \<Longrightarrow>
   (\<forall>k \<in> set (holds ro p). k \<in> set (holds ro (rc_point s t)) \<or> rc_holder s k = None) \<Longrightarrow>
   moves ro t s (goto ro t p st s)"
  unfolding moves_def by blast

lemma task_step_moves: "task_step E cl ro job t s = Some s' \<Longrightarrow> moves ro t s s'"
  by (cases "rc_point s t")
    (auto simp: task_step_def step_defs lock_free_def Let_def intro!: moves_goto
      split: option.splits sum.splits if_splits prod.splits pooled_connection.splits)

definition locks_ok where
  "locks_ok ro s \<longleftrightarrow>
     (\<forall>k t. rc_holder s k = Some t \<longleftrightarrow> k \<in> set (holds (ro t) (rc_point s t))) \<and>
     (\<forall>t. rc_point s t = Falling \<longrightarrow> ro_h3 (ro t))"

lemma locks_okD:
  "locks_ok ro s \<Longrightarrow> rc_holder s k = Some t \<longleftrightarrow> k \<in> set (holds (ro t) (rc_point s t))"
  by (simp add: locks_ok_def)

lemma locks_ok_moves:
  assumes "locks_ok ro s" "moves (ro t) t s s'"
  shows "locks_ok ro s'"
proof -
  obtain p st where s': "s' = goto (ro t) t p st s" and fall: "p = Falling \<longrightarrow> ro_h3 (ro t)"
    and free: "\<forall>k \<in> set (holds (ro t) p). k \<in> set (holds (ro t) (rc_point s t)) \<or> rc_holder s k = None"
    using assms(2) unfolding moves_def by blast
  have "rc_holder s' k = Some u \<longleftrightarrow> k \<in> set (holds (ro u) (rc_point s' u))" for k u
    using locks_okD[OF assms(1), of k u] locks_okD[OF assms(1), of k t] free
    by (cases "u = t") (auto simp: goto_def s')
  with assms(1) fall s' show ?thesis by (auto simp: locks_ok_def)
qed

lemma race_start_points: "race_start s \<Longrightarrow> holds (ro t) (rc_point s t) = [] \<and> rc_point s t \<noteq> Falling"
  by (cases "rc_point s t") (auto simp: race_start_def dest: spec[of _ t])

interpretation race: machine_invariant race_start "race_step E cl ro job" "locks_ok ro"
proof unfold_locales
  fix s
  assume "race_start s"
  with race_start_points[OF this, of ro] show "locks_ok ro s"
    by (auto simp: locks_ok_def race_start_def)
next
  fix s s'
  assume inv: "locks_ok ro s" and "race_step E cl ro job s s'"
  then obtain t where "task_step E cl (ro t) (job t) t s = Some s'" by (auto elim: race_stepE)
  then show "locks_ok ro s'" using task_step_moves locks_ok_moves[OF inv] by blast
qed

end
