(* ===== verification/Pool_Flight.thy ===== *)
theory Pool_Flight imports Pool_Race begin

text \<open>
  What the locks of the pool give (\<open>src/client/pool.rs\<close>): the waiting they cause, some task that can
  always move although two slots of an origin are locked one inside the other, one dial for many
  tasks, and the sequential functions of the client as runs of one task.
\<close>

section \<open>Waiting\<close>

text \<open>The mutex a task waits for.\<close>

fun waits_for where
  "waits_for ro AtLoop = Some (ro_key ro)"
| "waits_for ro Evicting = Some (ro_key ro)"
| "waits_for ro SawEmpty = Some (ro_key ro)"
| "waits_for ro Falling = Some (ro_h2_key ro)"
| "waits_for ro Resending = Some (ro_h2_key ro)"
| "waits_for ro _ = None"

lemma waiting_blocked:
  "waits_for ro (rc_point s t) = Some k \<Longrightarrow> rc_holder s k \<noteq> None \<Longrightarrow> task_step E cl ro job t s = None"
  by (cases "rc_point s t") (auto simp: task_step_def step_defs lock_free_def)

lemma waiting_goes:
  "waits_for ro (rc_point s t) = Some k \<Longrightarrow> rc_holder s k = None \<Longrightarrow> task_step E cl ro job t s \<noteq> None"
  by (cases "rc_point s t") (auto simp: task_step_def step_defs lock_free_def)

lemma running_goes:
  assumes "proxy_returns (env_tcp E) (cl_proxy cl)" "waits_for ro (rc_point s t) = None"
    "\<not> finished (rc_point s t)"
  shows "task_step E cl ro job t s \<noteq> None"
proof -
  have dial: "dial_route E cl ro h3 st \<noteq> None" for h3 st
    using dial_route_returns[OF assms(1), of ro h3 st] by (simp add: returns_def)
  then show ?thesis
    using assms(2,3)
    by (cases "rc_point s t") (auto simp: task_step_def step_defs Let_def split: option.splits sum.splits prod.splits)
qed

text \<open>
  Some task moves while one is not finished. A mutex of an HTTP/2 slot is only held by a task that
  waits for none; one of an HTTP/3 slot only by such a task or by one that waits for an HTTP/2 slot.
\<close>

lemma some_task_goes:
  assumes locks: "locks_ok ro s" and routes: "\<forall>t. route_ok (ro t)"
    and proxy: "proxy_returns (env_tcp E) (cl_proxy cl)" and busy: "\<not> finished (rc_point s t)"
  shows "\<exists>v. task_step E cl (ro v) (job v) v s \<noteq> None"
proof -
  define G where "G \<longleftrightarrow> (\<exists>v. task_step E cl (ro v) (job v) v s \<noteq> None)"
  have go: G if "task_step E cl (ro v) (job v) v s \<noteq> None" for v
    using that unfolding G_def by blast
  have running: G
    if "waits_for (ro v) (rc_point s v) = None" "\<not> finished (rc_point s v)" for v
    using that by (intro go[of v] running_goes[OF proxy])
  have h2: G if "rc_holder s k = Some v" "key_proto k = ''h2''" for k v
  proof -
    have held: "k \<in> set (holds (ro v) (rc_point s v))" using locks_okD[OF locks] that(1) by blast
    have "rc_point s v = Falling \<Longrightarrow> False"
      using held that(2) locks routes[rule_format, of v] by (auto simp: locks_ok_def route_ok_def)
    with held show ?thesis by (intro running[of v]) (cases "rc_point s v"; auto)+
  qed
  have falling: G if "rc_point s v = Falling" for v
  proof (cases "rc_holder s (ro_h2_key (ro v))")
    case None
    with that show ?thesis by (intro go[of v] waiting_goes) auto
  next
    case (Some w)
    then show ?thesis using h2 routes[rule_format, of v] by (auto simp: route_ok_def)
  qed
  have G
  proof (cases "waits_for (ro t) (rc_point s t)")
    case None
    then show ?thesis using running busy by blast
  next
    case (Some k)
    show ?thesis
    proof (cases "rc_holder s k")
      case None
      then show ?thesis by (rule go[OF waiting_goes[OF Some]])
    next
      case (Some v)
      then have "k \<in> set (holds (ro v) (rc_point s v))" using locks_okD[OF locks] by blast
      then show ?thesis using falling[of v] by (cases "rc_point s v") (auto intro: running[of v])
    qed
  qed
  then show ?thesis by (simp add: G_def)
qed

section \<open>One flight\<close>

text \<open>
  What the points of a task say about its slot, when all origins are HTTP/2 ones and every probe
  finds the connection alive.
\<close>

fun at_slot where
  "at_slot AtLoop c = True"
| "at_slot SawEmpty c = True"
| "at_slot (Probing conn) c = (c = Some (Http2 conn))"
| "at_slot Dialling c = (c = None)"
| "at_slot (Acquired conn) c = (c = Some conn)"
| "at_slot (Sending conn f) c = (\<exists>h. conn = Http2 h)"
| "at_slot (Answered r) c = True"
| "at_slot _ c = False"

definition flight_point where
  "flight_point p c \<longleftrightarrow> at_slot p c \<and> (\<forall>q. c \<noteq> Some (Http3 q))"

definition flight_ok where
  "flight_ok ro s \<longleftrightarrow> locks_ok ro s \<and> (\<forall>t. flight_point (rc_point s t) (slot (ro_key (ro t)) (rc_client s)))"

lemma flight_goto:
  assumes "flight_ok ro s" "\<And>k. slot k st = slot k (rc_client s)"
    "at_slot p (slot (ro_key (ro t)) (rc_client s))"
  shows "\<forall>u. flight_point (rc_point (goto (ro t) t p st s) u) (slot (ro_key (ro u)) (rc_client (goto (ro t) t p st s)))"
  using assms by (auto simp: flight_ok_def flight_point_def)

lemma flight_dialled:
  assumes "flight_ok ro s" "rc_point s t = Dialling" "\<And>k. slot k st = slot k (rc_client s)"
    and "\<forall>q. c \<noteq> Http3 q"
  shows "\<forall>u. flight_point (rc_point (goto (ro t) t (Acquired c) (set_slot (ro_key (ro t)) (Some c) st) s) u)
    (slot (ro_key (ro u)) (rc_client (goto (ro t) t (Acquired c) (set_slot (ro_key (ro t)) (Some c) st) s)))"
proof
  fix u
  let ?s = "goto (ro t) t (Acquired c) (set_slot (ro_key (ro t)) (Some c) st) s"
  have pts: "flight_point (rc_point s u) (slot (ro_key (ro u)) (rc_client s))" for u
    using assms(1) by (auto simp: flight_ok_def)
  have locks: "locks_ok ro s" using assms(1) by (simp add: flight_ok_def)
  have empty: "slot (ro_key (ro t)) (rc_client s) = None" using pts[of t] assms(2) by (simp add: flight_point_def)
  show "flight_point (rc_point ?s u) (slot (ro_key (ro u)) (rc_client ?s))"
  proof (cases "u = t \<or> ro_key (ro u) \<noteq> ro_key (ro t)")
    case True
    then show ?thesis using pts[of u] assms(3,4) by (auto simp: flight_point_def)
  next
    case False
    have "rc_point s u \<noteq> Dialling"
      using locks_okD[OF locks, of "ro_key (ro t)" t] locks_okD[OF locks, of "ro_key (ro t)" u] assms(2) False
      by auto
    then show ?thesis using pts[of u] False empty assms(4)
      by (cases "rc_point s u") (auto simp: flight_point_def)
  qed
qed

lemma flight_step:
  assumes alive: "\<And>h w. \<exists>w'. h2_ready (env_stack E) h w = (Inr h, w')" and h2: "\<not> ro_h3 (ro t)"
    and ok: "flight_ok ro s" and step: "task_step E cl (ro t) job t s = Some s'"
  shows "flight_ok ro s'"
proof -
  have pt: "at_slot (rc_point s t) (slot (ro_key (ro t)) (rc_client s))"
    "slot (ro_key (ro t)) (rc_client s) \<noteq> Some (Http3 q)" and locks: "locks_ok ro s" for q
    using ok by (auto simp: flight_ok_def flight_point_def)
  have "\<forall>u. flight_point (rc_point s' u) (slot (ro_key (ro u)) (rc_client s'))"
  proof (cases "rc_point s t")
    case AtLoop
    with step pt show ?thesis
      by (auto simp: task_step_def look_step_def intro!: flight_goto[OF ok, THEN spec]
          split: if_splits option.splits pooled_connection.splits)
  next
    case (Probing conn)
    obtain w where "h2_ready (env_stack E) (qc_h2 conn) (cs_world (rc_client s)) = (Inr (qc_h2 conn), w)"
      using alive by blast
    with Probing step pt show ?thesis
      by (auto simp: task_step_def probe_step_def intro!: flight_goto[OF ok, THEN spec])
  next
    case SawEmpty
    with step pt show ?thesis
      by (auto simp: task_step_def claim_step_def intro!: flight_goto[OF ok, THEN spec] split: if_splits)
  next
    case Dialling
    obtain r st where d: "dial_route E cl (ro t) False (rc_client s) = Some (r, st)"
      using Dialling step h2 by (auto simp: task_step_def dial_step_def split: option.splits)
    have slots: "slot k st = slot k (rc_client s)" for k using dial_route_slots(1)[OF d] .
    have kind: "\<forall>q. c \<noteq> Http3 q" if "r = Inr c" for c
      using dial_route_slots(3)[OF d that] by auto
    show ?thesis
    proof (cases r)
      case (Inl e)
      with Dialling step h2 d show ?thesis
        by (auto simp: task_step_def dial_step_def intro!: flight_goto[OF ok slots, THEN spec])
    next
      case (Inr c)
      with Dialling step h2 d flight_dialled[OF ok Dialling slots kind[OF Inr]] show ?thesis
        by (auto simp: task_step_def dial_step_def)
    qed
  next
    case (Acquired conn)
    then obtain c where c: "conn = Http2 c" using pt by (cases conn) auto
    show ?thesis
    proof (cases "build_request E (cl_profile cl) (fst job)")
      case (Inl e)
      with Acquired step pt show ?thesis
        by (auto simp: task_step_def send_step_def intro!: flight_goto[OF ok, THEN spec])
    next
      case (Inr req)
      obtain r w where send: "send_begin E conn req (snd job) (rc_client s) = (r, set_world w (rc_client s))"
        using send_frame(1) by (metis surj_pair)
      show ?thesis
        using Acquired step Inr send c
        by (cases r) (auto simp: task_step_def send_step_def send_failed_def
            intro!: flight_goto[OF ok, THEN spec])
    qed
  next
    case (Sending conn f)
    obtain r w where finish: "send_finish E f (rc_client s) = (r, set_world w (rc_client s))"
      using send_frame(2) by (metis surj_pair)
    obtain h where "conn = Http2 h" using Sending pt by auto
    with Sending step finish show ?thesis
      by (cases r) (auto simp: task_step_def await_step_def send_failed_def intro!: flight_goto[OF ok, THEN spec])
  qed (use pt step in \<open>auto simp: task_step_def\<close>)
  moreover have "locks_ok ro s'" using task_step_moves[OF step] locks_ok_moves[OF locks] by blast
  ultimately show ?thesis by (simp add: flight_ok_def)
qed

section \<open>Runs of one task\<close>

text \<open>
  Task \<open>t\<close> has gone on from \<open>s\<close> to the point \<open>p\<close> with the client in state \<open>st\<close>, holding the guards
  of \<open>p\<close>; no other task has moved, and none holds a mutex.
\<close>

definition at_point :: "route \<Rightarrow> nat \<Rightarrow> 'h point \<Rightarrow> ('k, 'w) client_state \<Rightarrow> ('k, 'w, 'h) race \<Rightarrow>
    ('k, 'w, 'h) race \<Rightarrow> bool" where
  "at_point ro t p st s s' \<longleftrightarrow> rc_client s' = st \<and> rc_point s' = (rc_point s)(t := p) \<and>
     (\<forall>k. rc_holder s' k = (if k \<in> set (holds ro p) then Some t else None))"

definition solo_step where
  "solo_step E cl ro job t s s' \<longleftrightarrow> task_step E cl ro job t s = Some s'"

definition runs_to where
  "runs_to E cl ro job t s p st \<longleftrightarrow>
     (\<exists>s'. at_point (ro t) t p st s s' \<and> (solo_step E cl (ro t) (job t) t)\<^sup>*\<^sup>* s s')"

lemma runs_start:
  "\<forall>k. rc_holder s k = None \<Longrightarrow> rc_point s t = p \<Longrightarrow> holds (ro t) p = [] \<Longrightarrow>
   runs_to E cl ro job t s p (rc_client s)"
  by (auto simp: runs_to_def at_point_def intro!: exI[of _ s])

lemma runs_step:
  assumes "runs_to E cl ro job t s p st"
    and "\<And>s'. at_point (ro t) t p st s s' \<Longrightarrow>
      task_step E cl (ro t) (job t) t s' = Some (goto (ro t) t p' st' s')"
  shows "runs_to E cl ro job t s p' st'"
proof -
  obtain s' where s': "at_point (ro t) t p st s s'" "(solo_step E cl (ro t) (job t) t)\<^sup>*\<^sup>* s s'"
    using assms(1) by (auto simp: runs_to_def)
  have "solo_step E cl (ro t) (job t) t s' (goto (ro t) t p' st' s')"
    using assms(2)[OF s'(1)] by (simp add: solo_step_def)
  with s'(2) have "(solo_step E cl (ro t) (job t) t)\<^sup>*\<^sup>* s (goto (ro t) t p' st' s')"
    by (rule rtranclp.rtrancl_into_rtrancl)
  moreover have "at_point (ro t) t p' st' s (goto (ro t) t p' st' s')"
    using s'(1) by (auto simp: at_point_def goto_def)
  ultimately show ?thesis by (auto simp: runs_to_def)
qed

lemma at_point_simps:
  assumes "at_point ro t p st s s'"
  shows "rc_client s' = st" "rc_point s' t = p" "lock_free k s' \<longleftrightarrow> k \<notin> set (holds ro p)"
  using assms by (auto simp: at_point_def lock_free_def)

text \<open>Where the acquisition loop leads.\<close>

fun loop_exit :: "quik_error + pooled_connection \<Rightarrow> 'h point" where
  "loop_exit (Inr c) = Acquired c"
| "loop_exit (Inl e) = Answered (Inl e)"

text \<open>The dial of the loop, with the fallback it may make.\<close>

lemma runs_redial:
  assumes "runs_to E cl ro job t s Redialling st"
    "try_opt (dial_route E cl (ro t) False st) (\<lambda>h2_conn st.
       Some (Inr h2_conn, set_slot (ro_h2_key (ro t)) (Some h2_conn) st)) = Some (r, st')"
  shows "runs_to E cl ro job t s (loop_exit r) st'"
  using assms(2)
proof (cases rule: try_opt_Some_cases)
  case (stop e)
  then show ?thesis
    by (intro runs_step[OF assms(1)]) (simp add: task_step_def redial_step_def at_point_simps)
next
  case (go c st1)
  then show ?thesis
    by (intro runs_step[OF assms(1)]) (auto simp: task_step_def redial_step_def at_point_simps)
qed

lemma runs_establish:
  assumes "runs_to E cl ro job t s Dialling st" "establish E cl (ro t) st = Some (r, st')"
    "ro_h3 (ro t) \<longrightarrow> ro_h2_key (ro t) \<noteq> ro_key (ro t)"
  shows "runs_to E cl ro job t s (loop_exit r) st'"
proof -
  obtain r0 st0 where d: "dial_route E cl (ro t) (ro_h3 (ro t)) st = Some (r0, st0)"
    using assms(2) by (auto simp: establish_def split: option.splits)
  consider c where "r0 = Inr c" | e where "r0 = Inl e" "\<not> ro_h3 (ro t)" | e where "r0 = Inl e" "ro_h3 (ro t)"
    by (cases r0) auto
  then show ?thesis
  proof cases
    case 1
    with assms(2) d show ?thesis
      by (intro runs_step[OF assms(1)]) (auto simp: task_step_def dial_step_def establish_def at_point_simps)
  next
    case 2
    with assms(2) d show ?thesis
      by (intro runs_step[OF assms(1)]) (auto simp: task_step_def dial_step_def establish_def at_point_simps)
  next
    case 3
    obtain r1 st1 where entry: "pool_entry (ro_h2_key (ro t)) (evict_origin (ro_origin_key (ro t)) st0) = (r1, st1)"
      by fastforce
    show ?thesis
    proof (cases r1)
      case (Inl e')
      with assms(2) d 3 entry show ?thesis
        by (intro runs_step[OF assms(1)]) (auto simp: task_step_def dial_step_def establish_def at_point_simps)
    next
      case (Inr u)
      have fall: "runs_to E cl ro job t s Falling st1"
        using d 3 entry Inr
        by (intro runs_step[OF assms(1)]) (auto simp: task_step_def dial_step_def at_point_simps)
      have tail: "(case slot (ro_h2_key (ro t)) st1 of
            None \<Rightarrow> try_opt (dial_route E cl (ro t) False st1) (\<lambda>h2_conn st.
              Some (Inr h2_conn, set_slot (ro_h2_key (ro t)) (Some h2_conn) st))
          | Some c \<Rightarrow> Some (Inr c, st1)) = Some (r, st')"
        using assms(2) d 3 entry Inr by (simp add: establish_def)
      show ?thesis
      proof (cases "slot (ro_h2_key (ro t)) st1")
        case None
        have "runs_to E cl ro job t s Redialling st1"
          using None 3 assms(3)
          by (intro runs_step[OF fall]) (auto simp: task_step_def fall_step_def at_point_simps)
        with tail None show ?thesis by (auto intro: runs_redial)
      next
        case (Some c)
        with tail 3 assms(3) show ?thesis
          by (intro runs_step[OF fall]) (auto simp: task_step_def fall_step_def at_point_simps)
      qed
    qed
  qed
qed

lemma runs_empty_slot:
  assumes "runs_to E cl ro job t s AtLoop st" "slot (ro_key (ro t)) st = None"
    "establish E cl (ro t) st = Some (r, st')" "ro_h3 (ro t) \<longrightarrow> ro_h2_key (ro t) \<noteq> ro_key (ro t)"
  shows "runs_to E cl ro job t s (loop_exit r) st'"
proof -
  have "runs_to E cl ro job t s SawEmpty st"
    using assms(2) by (intro runs_step[OF assms(1)]) (simp add: task_step_def look_step_def at_point_simps)
  then have "runs_to E cl ro job t s Dialling st"
    by (rule runs_step) (use assms(2) in \<open>simp add: task_step_def claim_step_def at_point_simps\<close>)
  then show ?thesis using assms(3,4) by (rule runs_establish)
qed

lemma runs_acquire_loop:
  assumes "runs_to E cl ro job t s AtLoop st" "acquire_loop E cl (ro t) st = Some (r, st')"
    "ro_h3 (ro t) \<longrightarrow> ro_h2_key (ro t) \<noteq> ro_key (ro t)"
  shows "runs_to E cl ro job t s (loop_exit r) st'"
proof -
  consider "slot (ro_key (ro t)) st = None" | q where "slot (ro_key (ro t)) st = Some (Http3 q)"
    | conn where "slot (ro_key (ro t)) st = Some (Http2 conn)"
    by (metis option.exhaust pooled_connection.exhaust)
  then show ?thesis
  proof cases
    case 1
    with assms show ?thesis by (auto simp: acquire_loop.simps[of E cl "ro t" st] intro: runs_empty_slot)
  next
    case 2
    with assms(2) show ?thesis
      by (intro runs_step[OF assms(1)])
        (auto simp: acquire_loop.simps[of E cl "ro t" st] task_step_def look_step_def at_point_simps)
  next
    case 3
    obtain hr w where ready: "h2_ready (env_stack E) (qc_h2 conn) (cs_world st) = (hr, w)" by fastforce
    have probing: "runs_to E cl ro job t s (Probing conn) st"
      using 3 by (intro runs_step[OF assms(1)]) (simp add: task_step_def look_step_def at_point_simps)
    show ?thesis
    proof (cases hr)
      case (Inr h)
      with assms(2) 3 ready show ?thesis
        by (intro runs_step[OF probing])
          (auto simp: acquire_loop.simps[of E cl "ro t" st] task_step_def probe_step_def at_point_simps)
    next
      case (Inl e)
      let ?st = "set_slot (ro_key (ro t)) None (set_world w st)"
      have "runs_to E cl ro job t s Evicting (set_world w st)"
        using ready Inl by (intro runs_step[OF probing]) (simp add: task_step_def probe_step_def at_point_simps)
      then have "runs_to E cl ro job t s AtLoop ?st"
        by (rule runs_step) (simp add: task_step_def evict_step_def at_point_simps)
      moreover have "establish E cl (ro t) ?st = Some (r, st')"
        using assms(2) 3 ready Inl by (simp add: acquire_loop.simps[of E cl "ro t" st] acquire_loop.simps[of E cl "ro t" ?st])
      ultimately show ?thesis using assms(3) by (intro runs_empty_slot) auto
    qed
  qed
qed

text \<open>The mid-flight fallback.\<close>

definition resend where
  "resend E cl ro job st =
    try_opt (fallback_connection E cl ro st) (\<lambda>h2_conn st.
    try_opt (Some (build_request E (cl_profile cl) (fst job), st)) (\<lambda>fallback_request st.
    send_pooled E h2_conn fallback_request (snd job) st))"

lemma runs_resend_sending:
  assumes "runs_to E cl ro job t s (ResendSending c) st"
    "try_opt (Some (build_request E (cl_profile cl) (fst (job t)), st)) (\<lambda>fallback_request st.
      send_pooled E c fallback_request (snd (job t)) st) = Some (r, st')"
  shows "runs_to E cl ro job t s (Answered r) st'"
proof -
  let ?sent = "try_st (build_request E (cl_profile cl) (fst (job t)), st) (\<lambda>fallback_request st.
    send_begin E c fallback_request (snd (job t)) st)"
  obtain r0 st0 where sent: "?sent = (r0, st0)" by fastforce
  have whole: "try_st ?sent (send_finish E) = (r, st')"
    using assms(2) by (cases "build_request E (cl_profile cl) (fst (job t))") (auto simp: send_parts)
  show ?thesis
  proof (cases r0)
    case (Inl e)
    with sent whole show ?thesis
      by (intro runs_step[OF assms(1)]) (auto simp: task_step_def resend_send_step_def at_point_simps)
  next
    case (Inr f)
    with sent have "runs_to E cl ro job t s (ResendAwaiting f) st0"
      by (intro runs_step[OF assms(1)]) (simp add: task_step_def resend_send_step_def at_point_simps)
    then show ?thesis
      by (rule runs_step) (use sent whole Inr in \<open>simp add: task_step_def resend_await_step_def at_point_simps\<close>)
  qed
qed

lemma runs_resend_dialling:
  assumes "runs_to E cl ro job t s ResendDialling st"
    "try_opt (try_opt (dial_route E cl (ro t) False st) (\<lambda>new_conn st.
        Some (Inr new_conn, set_slot (ro_h2_key (ro t)) (Some new_conn) st))) (\<lambda>h2_conn st.
      try_opt (Some (build_request E (cl_profile cl) (fst (job t)), st)) (\<lambda>fallback_request st.
      send_pooled E h2_conn fallback_request (snd (job t)) st)) = Some (r, st')"
  shows "runs_to E cl ro job t s (Answered r) st'"
proof -
  obtain r0 st0 where d: "dial_route E cl (ro t) False st = Some (r0, st0)"
    using assms(2) by (cases "dial_route E cl (ro t) False st") auto
  show ?thesis
  proof (cases r0)
    case (Inl e)
    with assms(2) d show ?thesis
      by (intro runs_step[OF assms(1)]) (auto simp: task_step_def redial_step_def at_point_simps)
  next
    case (Inr c)
    with d have "runs_to E cl ro job t s (ResendSending c) (set_slot (ro_h2_key (ro t)) (Some c) st0)"
      by (intro runs_step[OF assms(1)]) (simp add: task_step_def redial_step_def at_point_simps)
    then show ?thesis by (rule runs_resend_sending) (use assms(2) d Inr in simp)
  qed
qed

lemma runs_resend:
  assumes "runs_to E cl ro job t s Resending st" "resend E cl (ro t) (job t) st = Some (r, st')"
  shows "runs_to E cl ro job t s (Answered r) st'"
proof (cases "\<exists>conn. slot (ro_h2_key (ro t)) st = Some (Http2 conn)")
  case False
  then have "runs_to E cl ro job t s ResendDialling st"
    by (intro runs_step[OF assms(1)])
      (auto simp: task_step_def resend_step_def at_point_simps split: option.split pooled_connection.split)
  then show ?thesis
    by (rule runs_resend_dialling)
      (use assms(2) False in \<open>auto simp: resend_def fallback_connection_def split: option.splits pooled_connection.splits\<close>)
next
  case True
  then obtain conn where conn: "slot (ro_h2_key (ro t)) st = Some (Http2 conn)" by blast
  obtain hr w where ready: "h2_ready (env_stack E) (qc_h2 conn) (cs_world st) = (hr, w)" by fastforce
  have probing: "runs_to E cl ro job t s (ResendProbing conn) st"
    using conn by (intro runs_step[OF assms(1)]) (simp add: task_step_def resend_step_def at_point_simps)
  show ?thesis
  proof (cases hr)
    case (Inl e)
    then have "runs_to E cl ro job t s ResendDialling (set_world w st)"
      using ready by (intro runs_step[OF probing]) (simp add: task_step_def resend_probe_step_def at_point_simps)
    then show ?thesis
      by (rule runs_resend_dialling) (use assms(2) conn ready Inl in \<open>simp add: resend_def fallback_connection_def\<close>)
  next
    case (Inr h)
    let ?c = "Http2 (conn\<lparr>qc_h2 := h\<rparr>)"
    have "runs_to E cl ro job t s (ResendSending ?c) (set_slot (ro_h2_key (ro t)) (Some ?c) (set_world w st))"
      using ready Inr by (intro runs_step[OF probing]) (simp add: task_step_def resend_probe_step_def at_point_simps Let_def)
    then show ?thesis
      by (rule runs_resend_sending) (use assms(2) conn ready Inr in \<open>simp add: resend_def fallback_connection_def Let_def\<close>)
  qed
qed

text \<open>From a connection to the outcome: what follows a failed request, then the whole.\<close>

definition recover where
  "recover E cl ro conn job e st =
    (case conn of
       Http3 _ \<Rightarrow> try_opt (Some (pool_entry (ro_h2_key ro) (evict_origin (ro_origin_key ro) st)))
         (\<lambda>_ st. resend E cl ro job st)
     | Http2 _ \<Rightarrow> Some (Inl e, st))"

lemma send_with_fallback_parts:
  "send_with_fallback E cl ro conn (fst job) (snd job) st =
    try_opt (Some (build_request E (cl_profile cl) (fst job), st)) (\<lambda>request st.
      case try_st (send_begin E conn request (snd job) st) (send_finish E) of
        (Inr resp, st) \<Rightarrow> Some (Inr resp, st)
      | (Inl e, st) \<Rightarrow> recover E cl ro conn job e st)"
  unfolding send_with_fallback_def recover_def resend_def[abs_def] by (simp add: send_parts cong: deep_cong)

lemma runs_recover:
  assumes "runs_to E cl ro job t s p st0" "recover E cl (ro t) conn (job t) e st = Some (r, st')"
    and "\<And>s'. at_point (ro t) t p st0 s s' \<Longrightarrow>
      task_step E cl (ro t) (job t) t s' = Some (send_failed (ro t) t conn e st s')"
  shows "runs_to E cl ro job t s (Answered r) st'"
proof (cases conn)
  case (Http2 c)
  with assms(2,3) show ?thesis
    by (intro runs_step[OF assms(1)]) (simp add: send_failed_def recover_def)
next
  case (Http3 q)
  obtain r1 st1 where entry: "pool_entry (ro_h2_key (ro t)) (evict_origin (ro_origin_key (ro t)) st) = (r1, st1)"
    by fastforce
  show ?thesis
  proof (cases r1)
    case (Inl e')
    with assms(2,3) Http3 entry show ?thesis
      by (intro runs_step[OF assms(1)]) (auto simp: send_failed_def recover_def)
  next
    case (Inr u)
    with assms(3) Http3 entry have "runs_to E cl ro job t s Resending st1"
      by (intro runs_step[OF assms(1)]) (simp add: send_failed_def)
    then show ?thesis
      by (rule runs_resend) (use assms(2) Http3 entry Inr in \<open>simp add: recover_def\<close>)
  qed
qed

lemma runs_send:
  assumes start: "runs_to E cl ro job t s (Acquired c) st"
    and "send_with_fallback E cl (ro t) c (fst (job t)) (snd (job t)) st = Some (r, st')"
  shows "runs_to E cl ro job t s (Answered r) st'"
proof (cases "build_request E (cl_profile cl) (fst (job t))")
  case (Inl e)
  with assms(2) show ?thesis
    by (intro runs_step[OF start]) (auto simp: task_step_def send_step_def send_with_fallback_def at_point_simps)
next
  case (Inr req)
  obtain r0 st0 where sent: "send_begin E c req (snd (job t)) st = (r0, st0)" by fastforce
  note whole = assms(2)[unfolded send_with_fallback_parts, simplified Inr]
  show ?thesis
  proof (cases r0)
    case (Inl e)
    show ?thesis
      by (rule runs_recover[OF start, of c e st0])
        (use whole sent Inl Inr in \<open>simp_all add: task_step_def send_step_def at_point_simps\<close>)
  next
    case (Inr f)
    have sending: "runs_to E cl ro job t s (Sending c f) st0"
      using \<open>build_request E (cl_profile cl) (fst (job t)) = Inr req\<close> sent Inr
      by (intro runs_step[OF start]) (simp add: task_step_def send_step_def at_point_simps)
    obtain r1 st1 where finish: "send_finish E f st0 = (r1, st1)" by fastforce
    show ?thesis
    proof (cases r1)
      case (Inl e)
      show ?thesis
        by (rule runs_recover[OF sending, of c e st1])
          (use whole sent Inr finish Inl in \<open>simp_all add: task_step_def await_step_def at_point_simps\<close>)
    next
      case (Inr resp)
      with whole sent \<open>r0 = Inr f\<close> finish have "r = Inr resp" "st' = st1" by auto
      with finish Inr show ?thesis
        by (intro runs_step[OF sending]) (simp add: task_step_def await_step_def at_point_simps)
    qed
  qed
qed

section \<open>Schedules\<close>

text \<open>The run in which the tasks of a list move one after the other.\<close>

fun schedule where
  "schedule E cl ro job [] s = Some s"
| "schedule E cl ro job (t # ts) s = Option.bind (task_step E cl (ro t) (job t) t s) (schedule E cl ro job ts)"

lemma schedule_steps: "schedule E cl ro job ts s = Some s' \<Longrightarrow> (race_step E cl ro job)\<^sup>*\<^sup>* s s'"
  by (induction ts arbitrary: s)
    (auto simp: bind_eq_Some_conv intro: task_moves converse_rtranclp_into_rtranclp)

definition start_at where
  "start_at p st = \<lparr>rc_client = st, rc_holder = (\<lambda>k. None), rc_point = (\<lambda>t. p)\<rparr>"

lemma start_at_simps [simp]:
  "rc_client (start_at p st) = st" "rc_holder (start_at p st) = (\<lambda>k. None)" "rc_point (start_at p st) t = p"
  by (simp_all add: start_at_def)

lemma race_start_at: "p = AtLoop \<or> finished p \<Longrightarrow> race_start (start_at p st)"
  by (auto simp: race_start_def)

text \<open>The route of an HTTP/2 request to the sample origin.\<close>

definition toy_h2_route :: route where
  "toy_h2_route = route_of web_urls toy_client alt_svc_new toy_url ''a.example''"

end
