(* ===== verification/Pool_Claims.thy ===== *)
theory Pool_Claims imports Pool_Flight begin

text \<open>Properties of the tasks that meet at the pool, with their witnesses: one flight, and the eviction that a
  stale probe makes.\<close>

section \<open>Samples\<close>

definition toy_job :: "nat \<Rightarrow> web_url request_parts \<times> byte list option" where
  "toy_job t = (toy_parts, Some [1])"

abbreviation toy_schedule where
  "toy_schedule ts s \<equiv> schedule toy_env toy_client (\<lambda>t. toy_h2_route) toy_job ts s"

text \<open>An HTTP/2 stack on which the connection with handle 7 is dead and all others are alive.\<close>

definition mortal_env :: toy_env where
  "mortal_env = toy_env\<lparr>env_stack := toy_stack\<lparr>h2_ready :=
     (\<lambda>h w. if h = 7 then (Inl ''closed'', w) else (Inr h, w))\<rparr>\<rparr>"

definition dead_pool :: "((string \<times> string) list, toy_world) client_state" where
  "dead_pool = set_slot (toy_key ''h2'') (Some (Http2 (toy_h2\<lparr>qc_h2 := 7\<rparr>))) (toy_state [(200, [])])"

lemma toy_ready: "\<exists>w'. h2_ready (env_stack toy_env) h w = (Inr h, w')"
  by (simp add: toy_env_def toy_stack_def)

lemma toy_h2_route_simps [simp]: "\<not> ro_h3 toy_h2_route" "route_ok toy_h2_route"
  "ro_key toy_h2_route = toy_key ''h2''" "ro_h2_key toy_h2_route = toy_key ''h2''"
  by code_simp+

section \<open>Properties\<close>

text \<open>
  C11 (functional). No connection storm: however many tasks request from HTTP/2 origins at once, as
  long as the pooled connections stay alive all that are served for one origin share one
  connection, the one in its slot, so only one of them has dialled it.
\<close>

theorem single_flight:
  assumes "race_start s0" "\<forall>t. rc_point s0 t = AtLoop" "(race_step E cl ro job)\<^sup>*\<^sup>* s0 s"
    and "\<forall>t. route_ok (ro t) \<and> \<not> ro_h3 (ro t)" "slots_ok p (rc_client s0)" "\<forall>h w. \<exists>w'. h2_ready (env_stack E) h w = (Inr h, w')"
    and "rc_point s t = Acquired c" "rc_point s u = Acquired c'" "ro_key (ro t) = ro_key (ro u)"
  shows "c = c' \<and> slot (ro_key (ro t)) (rc_client s) = Some c"
proof -
  have "locks_ok ro s0" using race.start_inv[OF assms(1)] .
  moreover have "slot (ro_key (ro v)) (rc_client s0) \<noteq> Some (Http3 q)" for v q
  proof
    assume "slot (ro_key (ro v)) (rc_client s0) = Some (Http3 q)"
    with assms(5) have "fits p (ro_key (ro v)) (Http3 q)" by (simp add: slots_ok_def)
    with assms(4)[rule_format, of v] show False by (simp add: fits_def route_ok_def)
  qed
  ultimately have "flight_ok ro s0" using assms(2) by (simp add: flight_ok_def flight_point_def)
  with assms(3) have "flight_ok ro s"
  proof (induction rule: rtranclp_induct)
    case (step s s')
    from step.hyps(2) obtain t where "task_step E cl (ro t) (job t) t s = Some s'" by (rule race_stepE)
    then show ?case using flight_step[of E ro t s cl "job t" s'] assms(4,6) step by blast
  qed
  then have "flight_point (rc_point s v) (slot (ro_key (ro v)) (rc_client s))" for v
    by (simp add: flight_ok_def)
  from this[of t] this[of u] assms(7-9) show ?thesis by (simp add: flight_point_def)
qed

theorem single_flight_witness:
  "\<exists>s c. toy_schedule [0, 1, 0, 0, 1, 1, 1] (start_at AtLoop (toy_state [])) = Some s \<and>
     rc_point s 0 = Acquired c \<and> rc_point s 1 = Acquired c \<and> slot (toy_key ''h2'') (rc_client s) = Some c"
proof -
  let ?run = "toy_schedule [0, 1, 0, 0, 1, 1, 1] (start_at AtLoop (toy_state []))"
  have "map_option (\<lambda>s. (rc_point s 0, rc_point s 1)) ?run =
      Some (Acquired (Http2 toy_h2), Acquired (Http2 toy_h2))" by code_simp
  then obtain s where s: "?run = Some s" "rc_point s 0 = Acquired (Http2 toy_h2)"
    "rc_point s 1 = Acquired (Http2 toy_h2)" by auto
  have start: "race_start (start_at AtLoop (toy_state []))" by (rule race_start_at) simp
  have empty: "slots_ok p (toy_state [])" for p by (simp add: slots_ok_def slot_def toy_state_def new_state_def new_lock_def)
  from single_flight[OF start _ schedule_steps[OF s(1)], of undefined 0 "Http2 toy_h2" 1 "Http2 toy_h2"] s toy_ready empty
  show ?thesis by auto
qed

text \<open>
  C31 (safety). A probe that fails late evicts a live connection: when two tasks find the same dead
  connection, one can replace it and be served by a fresh one before the other clears the slot
  without looking at it again, and the fresh connection is lost to all later requests.
\<close>

theorem stale_probe_evicts_live_connection:
  assumes "t \<noteq> u" "ro t = r" "ro u = r" "\<not> ro_h3 r" "\<forall>k. rc_holder s k = None" "rc_point s t = AtLoop" "rc_point s u = AtLoop"
    and "slot (ro_key r) (rc_client s) = Some (Http2 dead)"
    and "h2_ready (env_stack E) (qc_h2 dead) (cs_world (rc_client s)) = (Inl e, w)"
    and "h2_ready (env_stack E) (qc_h2 dead) w = (Inl e', w')"
    and "dial_route E cl r False (set_slot (ro_key r) None (set_world w' (rc_client s))) = Some (Inr fresh, st)"
  shows "\<exists>s'. (race_step E cl ro job)\<^sup>*\<^sup>* s s' \<and> rc_point s' t = Acquired fresh \<and>
    rc_point s' u = AtLoop \<and> slot (ro_key r) (rc_client s') = None"
proof -
  let ?k = "ro_key r"
  let ?st = "set_slot ?k None (set_world w' (rc_client s))"
  have "\<exists>s'. schedule E cl ro job [t, u, t, u, t, t, t, t, u] s = Some s' \<and> rc_point s' t = Acquired fresh \<and>
    rc_point s' u = AtLoop \<and> slot ?k (rc_client s') = None"
    using assms
    by (simp add: task_step_def step_defs lock_free_def goto_def set_world_set_world)
  then show ?thesis using schedule_steps by blast
qed

theorem stale_probe_evicts_live_connection_witness:
  "\<exists>s'. (race_step mortal_env toy_client (\<lambda>t. toy_h2_route) toy_job)\<^sup>*\<^sup>* (start_at AtLoop dead_pool) s' \<and>
     rc_point s' 0 = Acquired (Http2 toy_h2) \<and> slot (toy_key ''h2'') (rc_client s') = None \<and>
     (\<exists>w. h2_ready (env_stack mortal_env) (qc_h2 toy_h2) (cs_world (rc_client s')) = (Inr 2, w))"
proof -
  let ?s = "start_at AtLoop dead_pool :: ((string \<times> string) list, toy_world, assoc_map) race"
  let ?w = "cs_world dead_pool"
  let ?dead = "toy_h2\<lparr>qc_h2 := 7\<rparr>"
  let ?D = "dial_route mortal_env toy_client toy_h2_route False (set_slot (ro_key toy_h2_route) None (set_world ?w dead_pool))"
  have full: "slot (ro_key toy_h2_route) (rc_client ?s) = Some (Http2 ?dead)"
    by (simp add: dead_pool_def)
  have ready: "h2_ready (env_stack mortal_env) h w = (if h = 7 then (Inl ''closed'', w) else (Inr h, w))" for h w
    by (simp add: mortal_env_def)
  have seven: "qc_h2 ?dead = 7" "qc_h2 toy_h2 = 2" by (simp_all add: toy_h2_def)
  have dead: "h2_ready (env_stack mortal_env) (qc_h2 ?dead) ?w = (Inl ''closed'', ?w)" by (simp add: ready)
  have dead0: "h2_ready (env_stack mortal_env) (qc_h2 ?dead) (cs_world (rc_client ?s)) = (Inl ''closed'', ?w)"
    by (simp add: ready)
  have "map_option fst ?D = Some (Inr (Http2 toy_h2))" by code_simp
  then obtain st where dial: "?D = Some (Inr (Http2 toy_h2), st)" by auto
  have dial0: "dial_route mortal_env toy_client toy_h2_route False (set_slot (ro_key toy_h2_route) None
      (set_world ?w (rc_client ?s))) = Some (Inr (Http2 toy_h2), st)"
    using dial by simp
  have "\<exists>s'. (race_step mortal_env toy_client (\<lambda>t. toy_h2_route) toy_job)\<^sup>*\<^sup>* ?s s' \<and>
      rc_point s' 0 = Acquired (Http2 toy_h2) \<and> rc_point s' 1 = AtLoop \<and> slot (ro_key toy_h2_route) (rc_client s') = None"
    by (rule stale_probe_evicts_live_connection[where t = 0 and u = 1 and ro = "\<lambda>t. toy_h2_route",
          OF _ _ _ _ _ _ _ full dead0 dead dial0]) simp_all
  then show ?thesis using ready seven by auto
qed

end
