(* ===== verification/Client_Calls.thy ===== *)
theory Client_Calls imports Pool_Flight begin

text \<open>
  Whole calls on a shared client, interleaved: every call runs \<open>execute_with_redirects\<close>
  (\<open>src/client/pool.rs\<close>) from its first hop to its outcome, its network part step by step as in
  \<open>Pool_Race\<close>, while other calls do the same on the pool, the cookie store, the hints and the
  Alt-Svc cache they share. A call may start at any time.
\<close>

section \<open>Calls\<close>

text \<open>
  A call is about to begin the hop with an index, is in the network part of a hop to a URL, with the
  route and the request it has fixed at its beginning, or has its outcome.
\<close>

datatype ('u, 'h) call =
    Between nat redirect
  | Exchanging nat redirect 'u route "'u request_parts"
  | Ended "abort + 'h response"

text \<open>\<open>ca_log\<close> is a history variable: the answers in the order in which the calls took them in.\<close>

record ('k, 'w, 'u, 'h) calls =
  ca_race :: "('k, 'w, 'h) race"
  ca_call :: "nat \<Rightarrow> ('u, 'h) call"
  ca_log :: "('u \<times> 'h response) list"

section \<open>The synchronous parts of a hop\<close>

text \<open>From the top of the loop body to the first await: nothing is suspended in between.\<close>

definition begin_hop where
  "begin_hop E cl ctx hop rd st =
    try_st (map_err (Fail \<circ> InvalidUrl) (url_parse (env_url E) (rd_url rd)), st) (\<lambda>parsed_url st.
    try_st (case url_host_str (env_url E) parsed_url of
        Some a \<Rightarrow> Inr a | None \<Rightarrow> Inl (Fail (InvalidUrl ''missing host'')), st) (\<lambda>authority st.
    let ro = route_of (env_url E) cl (cs_alt_svc st) parsed_url authority in
    try_st (case lk_get (cs_cookies st) of
        Some store \<Rightarrow> Inr (cookie_text (env_matches E store parsed_url))
      | None \<Rightarrow> Inl (Fail (connect_other ''cookie store poisoned'')), st) (\<lambda>cookie st.
    try_st (case lk_get (cs_hints st) of
        Some cache \<Rightarrow> Inr (url_origin_ascii (env_url E) parsed_url \<in> cache)
      | None \<Rightarrow> Inl (Panic ''hint cache poisoned''), st) (\<lambda>accept_ch st.
    try_st (map_err_st Fail (pool_entry (ro_key ro) st)) (\<lambda>_ st.
    (Inr (parsed_url, ro, hop_parts E ctx hop rd parsed_url cookie accept_ch), st))))))"

definition start_hop where
  "start_hop E cl ctx hop rd t s =
    (if redirect_limit \<le> hop
     then s\<lparr>ca_call := (ca_call s)(t := Ended (Inl (Fail (connect_other ''Redirect limit exceeded (max 10)''))))\<rparr>
     else case begin_hop E cl ctx hop rd (rc_client (ca_race s)) of
       (Inl e, st) \<Rightarrow>
         s\<lparr>ca_race := (ca_race s)\<lparr>rc_client := st\<rparr>, ca_call := (ca_call s)(t := Ended (Inl e))\<rparr>
     | (Inr (parsed_url, ro, parts), st) \<Rightarrow>
         s\<lparr>ca_race := goto ro t AtLoop st (ca_race s),
           ca_call := (ca_call s)(t := Exchanging hop rd parsed_url ro parts)\<rparr>)"

text \<open>From the outcome of the network part to the next hop or the end of the call.\<close>

fun next_call where
  "next_call hop (Inl e) = Ended (Inl e)"
| "next_call hop (Inr (Done resp)) = Ended (Inr resp)"
| "next_call hop (Inr (Follow rd')) = Between (Suc hop) rd'"

definition finish_hop where
  "finish_hop E hop rd parsed_url r t s =
    (case r of
       Inl e \<Rightarrow> Some (s\<lparr>ca_call := (ca_call s)(t := Ended (Inl (Fail e)))\<rparr>)
     | Inr resp \<Rightarrow>
         map_option (\<lambda>(x, st).
           s\<lparr>ca_race := (ca_race s)\<lparr>rc_client := st\<rparr>,
             ca_call := (ca_call s)(t := next_call hop x),
             ca_log := ca_log s @ [(parsed_url, resp)]\<rparr>)
         (hop_outcome E rd parsed_url resp (rc_client (ca_race s))))"

text \<open>One step of the call \<open>t\<close>, made in the context \<open>ctx\<close>.\<close>

definition call_step where
  "call_step E cl ctx t s =
    (case ca_call s t of
       Between hop rd \<Rightarrow> Some (start_hop E cl ctx hop rd t s)
     | Exchanging hop rd parsed_url ro parts \<Rightarrow>
         (case rc_point (ca_race s) t of
            Answered r \<Rightarrow> finish_hop E hop rd parsed_url r t s
          | _ \<Rightarrow> map_option (\<lambda>r. s\<lparr>ca_race := r\<rparr>) (task_step E cl ro (parts, rd_body rd) t (ca_race s)))
     | Ended r \<Rightarrow> None)"

inductive calls_step for E cl ctx where
  call_moves: "call_step E cl (ctx t) t s = Some s' \<Longrightarrow> calls_step E cl ctx s s'"

inductive_cases calls_stepE: "calls_step E cl ctx s s'"

text \<open>
  At the start every mutex is free, no call is in a network part, and the log is empty. A number
  that stands for no call has ended.
\<close>

definition calls_start where
  "calls_start s \<longleftrightarrow> (\<forall>k. rc_holder (ca_race s) k = None) \<and> (\<forall>t. finished (rc_point (ca_race s) t)) \<and>
     (\<forall>t. (\<exists>m url b. ca_call s t = Between 0 (first_request m url b)) \<or> (\<exists>r. ca_call s t = Ended r)) \<and>
     ca_log s = []"

text \<open>The route and the request of a call, where it has them.\<close>

definition no_route :: route where
  "no_route = \<lparr>ro_authority = [], ro_port = 0, ro_origin_key = [], ro_h3 = False, ro_key = ''h2'', ro_h2_key = ''h2''\<rparr>"

fun route_in :: "('u, 'h) call \<Rightarrow> route" where
  "route_in (Exchanging hop rd u ro parts) = ro"
| "route_in _ = no_route"

fun in_network :: "('u, 'h) call \<Rightarrow> bool" where
  "in_network (Exchanging hop rd u ro parts) = True"
| "in_network _ = False"

fun ended :: "('u, 'h) call \<Rightarrow> bool" where
  "ended (Ended r) = True"
| "ended _ = False"

abbreviation routes_in where
  "routes_in s \<equiv> (\<lambda>t. route_in (ca_call s t))"

section \<open>The kinds of step\<close>

lemma try_opt_assoc: "try_opt (try_opt m f) g = try_opt m (\<lambda>x s. try_opt (f x s) g)"
  by (auto simp: try_opt_def split: option.splits sum.splits prod.splits)

lemma finished_holds: "finished p \<Longrightarrow> holds ro p = []"
  by (cases p) auto

lemma task_step_unfinished: "task_step E cl ro job t s = Some s' \<Longrightarrow> \<not> finished (rc_point s t)"
  by (cases "rc_point s t") (auto simp: task_step_def)

lemma call_step_cases:
  assumes "call_step E cl ctx t s = Some s'"
  obtains
    (start) hop rd where "ca_call s t = Between hop rd" "s' = start_hop E cl ctx hop rd t s"
  | (network) hop rd u ro parts r where "ca_call s t = Exchanging hop rd u ro parts"
      "task_step E cl ro (parts, rd_body rd) t (ca_race s) = Some r" "s' = s\<lparr>ca_race := r\<rparr>"
      "\<not> finished (rc_point (ca_race s) t)"
  | (finish) hop rd u ro parts r where "ca_call s t = Exchanging hop rd u ro parts"
      "rc_point (ca_race s) t = Answered r" "finish_hop E hop rd u r t s = Some s'"
  using assms
  by (auto simp: call_step_def dest: task_step_unfinished split: call.splits point.splits)

lemma hop_outcome_defined: "\<exists>x st'. hop_outcome E rd u resp st = Some (x, st')"
  by (simp add: hop_outcome_def Let_def split: option.split sum.split)

lemma finish_hop_defined: "\<exists>s'. finish_hop E hop rd u r t s = Some s'"
proof (cases r)
  case (Inr resp)
  obtain x st where "hop_outcome E rd u resp (rc_client (ca_race s)) = Some (x, st)"
    using hop_outcome_defined[of E rd u resp "rc_client (ca_race s)"] by blast
  with Inr show ?thesis by (simp add: finish_hop_def)
qed (simp add: finish_hop_def)

lemma begin_hop_route:
  "begin_hop E cl ctx hop rd st = (Inr (u, ro, parts), st') \<Longrightarrow>
   \<exists>a. ro = route_of (env_url E) cl (cs_alt_svc st) u a"
  by (auto simp: begin_hop_def try_st_Inr_iff Let_def)

section \<open>Locks and routes\<close>

text \<open>The locks are those of the network parts; a call outside one is at no point inside one.\<close>

definition calls_ok where
  "calls_ok s \<longleftrightarrow> locks_ok (routes_in s) (ca_race s) \<and>
     (\<forall>t. \<not> in_network (ca_call s t) \<longrightarrow> finished (rc_point (ca_race s) t)) \<and>
     (\<forall>t. route_ok (route_in (ca_call s t)))"

lemma no_route_ok: "route_ok no_route"
  by (simp add: route_ok_def no_route_def key_proto_def)

lemma locks_ok_elsewhere:
  assumes "locks_ok ro s" "rc_holder s' = rc_holder s" "\<And>u. u \<noteq> t \<Longrightarrow> rc_point s' u = rc_point s u \<and> ro' u = ro u"
    and "holds (ro t) (rc_point s t) = []" "holds (ro' t) (rc_point s' t) = []" "rc_point s' t \<noteq> Falling"
  shows "locks_ok ro' s'"
proof -
  have "rc_holder s' k = Some u \<longleftrightarrow> k \<in> set (holds (ro' u) (rc_point s' u))" for k u
    using locks_okD[OF assms(1), of k u] assms(2-5) by (cases "u = t") auto
  moreover have "rc_point s' u = Falling \<longrightarrow> ro_h3 (ro' u)" for u
    using assms(1,3,6) by (cases "u = t") (auto simp: locks_ok_def)
  ultimately show ?thesis by (auto simp: locks_ok_def)
qed

lemma goto_nothing: "holds ro p = [] \<Longrightarrow> holds ro (rc_point s t) = [] \<Longrightarrow> rc_holder (goto ro t p st s) = rc_holder s"
  by (simp add: goto_def)

text \<open>A step outside the network part leaves the locks and the other calls alone.\<close>

lemma start_hop_cases:
  obtains
    (limit) "redirect_limit \<le> hop" "start_hop E cl ctx hop rd t s = s\<lparr>ca_call := (ca_call s)
      (t := Ended (Inl (Fail (connect_other ''Redirect limit exceeded (max 10)''))))\<rparr>"
  | (error) e st where "hop < redirect_limit" "begin_hop E cl ctx hop rd (rc_client (ca_race s)) = (Inl e, st)"
      "start_hop E cl ctx hop rd t s =
        s\<lparr>ca_race := (ca_race s)\<lparr>rc_client := st\<rparr>, ca_call := (ca_call s)(t := Ended (Inl e))\<rparr>"
  | (go) u ro parts st where "hop < redirect_limit"
      "begin_hop E cl ctx hop rd (rc_client (ca_race s)) = (Inr (u, ro, parts), st)"
      "start_hop E cl ctx hop rd t s =
        s\<lparr>ca_race := goto ro t AtLoop st (ca_race s), ca_call := (ca_call s)(t := Exchanging hop rd u ro parts)\<rparr>"
proof (cases "redirect_limit \<le> hop")
  case True
  then show ?thesis by (intro limit) (simp_all add: start_hop_def)
next
  case False
  obtain r st where b: "begin_hop E cl ctx hop rd (rc_client (ca_race s)) = (r, st)" by fastforce
  show ?thesis
  proof (cases r)
    case (Inl e)
    with False b show ?thesis by (intro error) (simp_all add: start_hop_def)
  next
    case (Inr x)
    obtain u ro parts where "x = (u, ro, parts)" by (cases x)
    with Inr False b show ?thesis by (intro go) (simp_all add: start_hop_def)
  qed
qed

lemma next_call_outside: "\<not> in_network (next_call hop x)" "route_in (next_call hop x) = no_route"
  by (cases "(hop, x)" rule: next_call.cases; simp)+

lemma finish_hop_cases:
  assumes "finish_hop E hop rd u r t s = Some s'"
  obtains
    (failed) e where "r = Inl e" "s' = s\<lparr>ca_call := (ca_call s)(t := Ended (Inl (Fail e)))\<rparr>"
  | (answered) resp x st where "r = Inr resp" "hop_outcome E rd u resp (rc_client (ca_race s)) = Some (x, st)"
      "s' = s\<lparr>ca_race := (ca_race s)\<lparr>rc_client := st\<rparr>, ca_call := (ca_call s)(t := next_call hop x),
        ca_log := ca_log s @ [(u, resp)]\<rparr>"
proof (cases r)
  case (Inl e)
  with assms show ?thesis by (intro failed) (auto simp: finish_hop_def)
next
  case (Inr resp)
  obtain x st where x: "hop_outcome E rd u resp (rc_client (ca_race s)) = Some (x, st)"
    using hop_outcome_defined[of E rd u resp "rc_client (ca_race s)"] by blast
  show ?thesis
    by (rule answered[OF Inr x]) (use assms Inr x in \<open>auto simp: finish_hop_def\<close>)
qed

lemma start_hop_frame:
  assumes "finished (rc_point (ca_race s) t)" "s' = start_hop E cl ctx hop rd t s"
  shows "rc_holder (ca_race s') = rc_holder (ca_race s)"
    "u \<noteq> t \<Longrightarrow> rc_point (ca_race s') u = rc_point (ca_race s) u \<and> ca_call s' u = ca_call s u"
    "if in_network (ca_call s' t) then rc_point (ca_race s') t = AtLoop else finished (rc_point (ca_race s') t)"
    "route_ok (route_in (ca_call s' t))"
proof -
  have "rc_holder (ca_race s') = rc_holder (ca_race s) \<and>
    (u \<noteq> t \<longrightarrow> rc_point (ca_race s') u = rc_point (ca_race s) u \<and> ca_call s' u = ca_call s u) \<and>
    (if in_network (ca_call s' t) then rc_point (ca_race s') t = AtLoop else finished (rc_point (ca_race s') t)) \<and>
    route_ok (route_in (ca_call s' t))" for u
  proof (cases rule: start_hop_cases[of hop E cl ctx rd t s])
    case (go u ro parts st)
    then have "route_ok ro" using begin_hop_route[of E cl ctx hop rd] route_of_ok by metis
    with go assms show ?thesis by (simp add: goto_nothing finished_holds)
  qed (use assms in \<open>simp_all add: no_route_ok\<close>)
  then show "rc_holder (ca_race s') = rc_holder (ca_race s)"
    "u \<noteq> t \<Longrightarrow> rc_point (ca_race s') u = rc_point (ca_race s) u \<and> ca_call s' u = ca_call s u"
    "if in_network (ca_call s' t) then rc_point (ca_race s') t = AtLoop else finished (rc_point (ca_race s') t)"
    "route_ok (route_in (ca_call s' t))" by blast+
qed

lemma finish_hop_frame:
  assumes "finish_hop E hop rd u r t s = Some s'"
  shows "rc_holder (ca_race s') = rc_holder (ca_race s)" "rc_point (ca_race s') = rc_point (ca_race s)"
    "v \<noteq> t \<Longrightarrow> ca_call s' v = ca_call s v" "\<not> in_network (ca_call s' t)" "route_in (ca_call s' t) = no_route"
  using assms by (auto elim!: finish_hop_cases simp: next_call_outside)

lemma calls_ok_step:
  assumes ok: "calls_ok s" and step: "call_step E cl ctx t s = Some s'"
  shows "calls_ok s'"
proof -
  have locks: "locks_ok (routes_in s) (ca_race s)"
    and rest: "\<not> in_network (ca_call s u) \<Longrightarrow> finished (rc_point (ca_race s) u)"
    and routes: "route_ok (route_in (ca_call s u))" for u
    using ok by (auto simp: calls_ok_def)
  show ?thesis
    using step
  proof (cases rule: call_step_cases)
    case (start hop rd)
    have fin: "finished (rc_point (ca_race s) t)" using rest[of t] start(1) by simp
    note frame = start_hop_frame[OF fin start(2)]
    have "locks_ok (routes_in s') (ca_race s')"
      by (rule locks_ok_elsewhere[where t = t, OF locks frame(1)])
        (use frame fin in \<open>auto simp: finished_holds split: if_splits\<close>)
    moreover have "finished (rc_point (ca_race s') u)" if "\<not> in_network (ca_call s' u)" for u
      using frame(2)[of u] frame(3) rest[of u] that by (cases "u = t") auto
    moreover have "route_ok (route_in (ca_call s' u))" for u
      using frame(2)[of u] frame(4) routes[of u] by (cases "u = t") auto
    ultimately show ?thesis by (simp add: calls_ok_def)
  next
    case (network hop rd u ro parts r)
    then have ro: "routes_in s t = ro" by simp
    have "task_step E cl (routes_in s t) (parts, rd_body rd) t (ca_race s) = Some r" using network ro by simp
    from locks_ok_moves[OF locks task_step_moves[OF this]]
    have "locks_ok (routes_in s') (ca_race s')" using network by simp
    moreover have "finished (rc_point (ca_race s') v)" if "\<not> in_network (ca_call s' v)" for v
      using task_step_moves[OF network(2)] rest[of v] network that by (cases "v = t") (auto simp: moves_def)
    ultimately show ?thesis using routes network(3) by (simp add: calls_ok_def)
  next
    case (finish hop rd u ro parts r)
    note frame = finish_hop_frame[OF finish(3)]
    have "locks_ok (routes_in s') (ca_race s')"
      by (rule locks_ok_elsewhere[where t = t, OF locks frame(1)])
        (use frame finish in \<open>auto\<close>)
    moreover have "finished (rc_point (ca_race s') v)" if "\<not> in_network (ca_call s' v)" for v
      using frame(2) frame(3)[of v] rest[of v] finish(2) that by (cases "v = t") auto
    moreover have "route_ok (route_in (ca_call s' v))" for v
      using frame(3)[of v] frame(5) routes[of v] no_route_ok by (cases "v = t") auto
    ultimately show ?thesis by (simp add: calls_ok_def)
  qed
qed

interpretation calls: machine_invariant calls_start "calls_step E cl ctx" calls_ok
proof unfold_locales
  fix s
  assume start: "calls_start s"
  have "holds ro (rc_point (ca_race s) t) = []" "rc_point (ca_race s) t \<noteq> Falling" for t ro
    using start by (auto simp: calls_start_def finished_holds) (metis finished.simps(7))
  then have "locks_ok (routes_in s) (ca_race s)" using start by (auto simp: locks_ok_def calls_start_def)
  moreover have "route_ok (route_in (ca_call s t))" for t
    using start no_route_ok by (auto simp: calls_start_def) (metis route_in.simps(2,3))
  ultimately show "calls_ok s" using start by (simp add: calls_ok_def calls_start_def)
next
  fix s s'
  assume "calls_ok s" "calls_step E cl ctx s s'"
  then show "calls_ok s'" using calls_ok_step by (auto elim!: calls_stepE)
qed

end
