(* ===== verification/Calls_Progress.thy ===== *)
theory Calls_Progress imports Client_Calls begin

text \<open>
  The interleaved calls of \<open>Client_Calls\<close> go on and come to an end: as long as one has no outcome some
  call can move, and a measure on the states falls with every step of every call, whatever the
  probes, dials and peers answer.
\<close>

section \<open>No deadlock\<close>

lemma some_call_goes:
  assumes "calls_ok s" "proxy_returns (env_tcp E) (cl_proxy cl)" "\<not> ended (ca_call s t)"
  shows "\<exists>s'. calls_step E cl ctx s s'"
proof -
  have go: ?thesis if "call_step E cl (ctx v) v s \<noteq> None" for v
    using that by (auto intro: call_moves)
  show ?thesis
  proof (cases "ca_call s t")
    case (Between hop rd)
    then show ?thesis by (intro go[of t]) (simp add: call_step_def)
  next
    case (Exchanging hop rd u ro parts)
    show ?thesis
    proof (cases "finished (rc_point (ca_race s) t)")
      case True
      then obtain r where "rc_point (ca_race s) t = Answered r" by (cases "rc_point (ca_race s) t") auto
      with Exchanging show ?thesis
        using finish_hop_defined[of E hop rd u r t s] by (intro go[of t]) (auto simp: call_step_def)
    next
      case False
      define job where "job = (\<lambda>v. case ca_call s v of Exchanging hop rd u ro parts \<Rightarrow> (parts, rd_body rd) | _ \<Rightarrow> undefined)"
      obtain v where v: "task_step E cl (routes_in s v) (job v) v (ca_race s) \<noteq> None"
        using some_task_goes[of "routes_in s" "ca_race s" E cl t job] assms(1,2) False
        by (auto simp: calls_ok_def)
      then have busy: "\<not> finished (rc_point (ca_race s) v)" using task_step_unfinished by blast
      then have "in_network (ca_call s v)" using assms(1) by (auto simp: calls_ok_def)
      with v busy show ?thesis
        by (intro go[of v]; cases "ca_call s v"; cases "rc_point (ca_race s) v") (auto simp: call_step_def job_def)
    qed
  next
    case (Ended r)
    with assms(3) show ?thesis by simp
  qed
qed

text \<open>A call that waits for a mutex cannot move while another call holds it.\<close>

lemma call_waits:
  assumes "calls_ok s" "waits_for (routes_in s t) (rc_point (ca_race s) t) = Some k" "rc_holder (ca_race s) k \<noteq> None"
  shows "call_step E cl ctx t s = None"
proof -
  have busy: "\<not> finished (rc_point (ca_race s) t)" using assms(2) by (cases "rc_point (ca_race s) t") auto
  then have "in_network (ca_call s t)" using assms(1) by (auto simp: calls_ok_def)
  then obtain hop rd u ro parts where call: "ca_call s t = Exchanging hop rd u ro parts"
    by (cases "ca_call s t") auto
  with waiting_blocked[of ro "ca_race s" t k E cl] assms(2,3) busy show ?thesis
    by (cases "rc_point (ca_race s) t") (simp_all add: call_step_def)
qed

section \<open>The measure\<close>

text \<open>
  The awaits of a task that can only come once each, counted from the end; the points of the
  acquisition loop, which it may pass several times, share the largest number.
\<close>

fun path_left :: "'h point \<Rightarrow> nat" where
  "path_left Dialling = 10"
| "path_left Falling = 9"
| "path_left Redialling = 8"
| "path_left (Acquired c) = 7"
| "path_left (Sending c f) = 6"
| "path_left Resending = 5"
| "path_left (ResendProbing c) = 4"
| "path_left ResendDialling = 3"
| "path_left (ResendSending c) = 2"
| "path_left (ResendAwaiting f) = 1"
| "path_left (Answered r) = 0"
| "path_left _ = 11"

text \<open>
  The steps a task can make in the loop before it leaves it or another task fills its slot: with
  the slot full it probes, evicts and comes to an empty slot; a slot is only filled by a task that
  gets out of the loop.
\<close>

fun turns_left :: "'h point \<Rightarrow> bool \<Rightarrow> nat" where
  "turns_left SawEmpty full = (if full then 6 else 0)"
| "turns_left AtLoop full = (if full then 5 else 1)"
| "turns_left (Probing c) full = (if full then 4 else 3)"
| "turns_left Evicting full = (if full then 3 else 2)"
| "turns_left _ full = 0"

lemma turns_left_bounds:
  "turns_left p full \<le> 6" "turns_left p False \<le> turns_left p full"
  by (cases p; simp)+

definition full_slot :: "route \<Rightarrow> ('k, 'w) client_state \<Rightarrow> bool" where
  "full_slot ro st \<longleftrightarrow> slot (ro_key ro) st \<noteq> None"

text \<open>A hop more than outweighs the network part of the hop before it.\<close>

fun call_left :: "('u, 'h) call \<Rightarrow> 'h point \<Rightarrow> nat" where
  "call_left (Between hop rd) p = (if redirect_limit \<le> hop then 1 else 14 * (redirect_limit - hop) + 14)"
| "call_left (Exchanging hop rd u ro parts) p = 14 * (redirect_limit - hop) + 2 + path_left p"
| "call_left (Ended r) p = 0"

definition left_in where
  "left_in s t = call_left (ca_call s t) (rc_point (ca_race s) t)"

definition turns_in where
  "turns_in s t = turns_left (rc_point (ca_race s) t) (full_slot (routes_in s t) (rc_client (ca_race s)))"

definition calls_measure where
  "calls_measure T s = (6 * card T + 1) * (\<Sum>t\<in>T. left_in s t) + (\<Sum>t\<in>T. turns_in s t)"

section \<open>Every step decreases it\<close>

text \<open>A step brings its task nearer to the end, or goes round in the loop and fills no slot.\<close>

definition gets_on where
  "gets_on ro t s s' \<longleftrightarrow> (\<exists>p. rc_point s' = (rc_point s)(t := p) \<and>
     (path_left p < path_left (rc_point s t) \<or>
      path_left p = path_left (rc_point s t) \<and>
      turns_left p (full_slot ro (rc_client s')) < turns_left (rc_point s t) (full_slot ro (rc_client s)) \<and>
      (\<forall>k. slot k (rc_client s') = None \<or> slot k (rc_client s') = slot k (rc_client s))))"

lemma gets_on_goto:
  "path_left p < path_left (rc_point s t) \<or>
      path_left p = path_left (rc_point s t) \<and>
      turns_left p (full_slot ro st) < turns_left (rc_point s t) (full_slot ro (rc_client s)) \<and>
      (\<forall>k. slot k st = None \<or> slot k st = slot k (rc_client s)) \<Longrightarrow> gets_on ro t s (goto ro t p st s)"
  unfolding gets_on_def by auto

lemma task_step_gets_on: "task_step E cl ro job t s = Some s' \<Longrightarrow> gets_on ro t s s'"
  by (cases "rc_point s t")
    (auto simp: task_step_def step_defs full_slot_def Let_def intro!: gets_on_goto
      split: option.splits sum.splits if_splits prod.splits pooled_connection.splits)

lemma sum_changed:
  fixes f g :: "nat \<Rightarrow> nat"
  assumes "finite T" "t \<in> T" "\<And>u. u \<in> T \<Longrightarrow> u \<noteq> t \<Longrightarrow> g u \<le> f u" "g t < f t"
  shows "sum g T < sum f T"
  using assms by (intro sum_strict_mono_ex1) (auto dest: less_imp_le simp: le_eq_less_or_eq)

lemma sum_le_const: "(\<And>t. f t \<le> c) \<Longrightarrow> sum f T \<le> c * card T" for f :: "nat \<Rightarrow> nat"
  using sum_bounded_above[of T f c] by (simp add: mult.commute)

text \<open>Weights of at most six per task count for less than one unit of the other sum.\<close>

lemma weighted_decrease:
  fixes f f' w w' :: "nat \<Rightarrow> nat"
  assumes T: "finite T" "t \<in> T" and same: "\<And>u. u \<noteq> t \<Longrightarrow> f' u = f u" and w: "\<And>u. w' u \<le> 6"
    and dec: "f' t < f t \<or> f' t = f t \<and> w' t < w t \<and> (\<forall>u. u \<noteq> t \<longrightarrow> w' u \<le> w u)"
  shows "(6 * card T + 1) * sum f' T + sum w' T < (6 * card T + 1) * sum f T + sum w T"
  using dec
proof
  assume less: "f' t < f t"
  have "sum f' T < sum f T" by (rule sum_changed[OF T]) (use less same in auto)
  then have "(6 * card T + 1) * (sum f' T + 1) \<le> (6 * card T + 1) * sum f T" by (intro mult_le_mono2) simp
  moreover have "sum w' T \<le> 6 * card T" using w by (rule sum_le_const)
  ultimately show ?thesis by (simp add: algebra_simps)
next
  assume asm: "f' t = f t \<and> w' t < w t \<and> (\<forall>u. u \<noteq> t \<longrightarrow> w' u \<le> w u)"
  have "sum f' T = sum f T" by (rule sum.cong) (use asm same in metis)+
  moreover have "sum w' T < sum w T" by (rule sum_changed[OF T]) (use asm in auto)
  ultimately show ?thesis by simp
qed

lemma turns_in_frame:
  assumes "rc_point (ca_race s') u = rc_point (ca_race s) u" "ca_call s' u = ca_call s u"
    "\<forall>k. slot k (rc_client (ca_race s')) = None \<or> slot k (rc_client (ca_race s')) = slot k (rc_client (ca_race s))"
  shows "turns_in s' u \<le> turns_in s u"
proof -
  have "full_slot (routes_in s u) (rc_client (ca_race s')) \<Longrightarrow> full_slot (routes_in s u) (rc_client (ca_race s))"
    using assms(3) unfolding full_slot_def by metis
  then show ?thesis
    using assms(1,2) turns_left_bounds(2)[of "rc_point (ca_race s) u"]
    by (cases "full_slot (routes_in s u) (rc_client (ca_race s'))"; cases "full_slot (routes_in s u) (rc_client (ca_race s))")
      (auto simp: turns_in_def)
qed

lemma call_step_left:
  assumes "calls_ok s" "call_step E cl ctx t s = Some s'"
  shows "(\<forall>u. u \<noteq> t \<longrightarrow> left_in s' u = left_in s u) \<and>
    (left_in s' t < left_in s t \<or> left_in s' t = left_in s t \<and> turns_in s' t < turns_in s t \<and>
      (\<forall>u. u \<noteq> t \<longrightarrow> turns_in s' u \<le> turns_in s u))"
  using assms(2)
proof (cases rule: call_step_cases)
  case (start hop rd)
  have fin: "finished (rc_point (ca_race s) t)" using assms(1) start(1) by (auto simp: calls_ok_def)
  have "left_in s' t < left_in s t"
    by (cases rule: start_hop_cases[of hop E cl ctx rd t s]) (use start in \<open>auto simp: left_in_def\<close>)
  then show ?thesis using start_hop_frame(2)[OF fin start(2)] by (simp add: left_in_def)
next
  case (network hop rd u ro parts r)
  obtain p where p: "rc_point r = (rc_point (ca_race s))(t := p)"
    and dec: "path_left p < path_left (rc_point (ca_race s) t) \<or>
      path_left p = path_left (rc_point (ca_race s) t) \<and>
      turns_left p (full_slot ro (rc_client r)) < turns_left (rc_point (ca_race s) t) (full_slot ro (rc_client (ca_race s))) \<and>
      (\<forall>k. slot k (rc_client r) = None \<or> slot k (rc_client r) = slot k (rc_client (ca_race s)))"
    using task_step_gets_on[OF network(2)] unfolding gets_on_def by blast
  have "left_in s' v = left_in s v" if "v \<noteq> t" for v using that network p by (simp add: left_in_def)
  moreover have "turns_in s' v \<le> turns_in s v" if "v \<noteq> t"
    "\<forall>k. slot k (rc_client r) = None \<or> slot k (rc_client r) = slot k (rc_client (ca_race s))" for v
    by (rule turns_in_frame) (use that network p in simp_all)
  ultimately show ?thesis using dec network p by (auto simp: left_in_def turns_in_def)
next
  case (finish hop rd u ro parts r)
  have "left_in s' t < left_in s t"
    using finish(3)
  proof (cases rule: finish_hop_cases)
    case (answered resp x st)
    then show ?thesis using finish by (cases "(hop, x)" rule: next_call.cases) (auto simp: left_in_def)
  qed (use finish in \<open>auto simp: left_in_def\<close>)
  then show ?thesis using finish_hop_frame(2,3)[OF finish(3)] by (simp add: left_in_def)
qed

lemma calls_measure_decreases:
  assumes "calls_ok s" "call_step E cl ctx t s = Some s'" "finite T" "t \<in> T"
  shows "calls_measure T s' < calls_measure T s"
  unfolding calls_measure_def
  using call_step_left[OF assms(1,2)] turns_left_bounds(1)
  by (intro weighted_decrease[OF assms(3,4)]) (auto simp: turns_in_def)

text \<open>Along a run: each step costs at least one, and nobody but the calls of \<open>T\<close> ever moves.\<close>

lemma call_step_moves: "call_step E cl ctx t s = Some s' \<Longrightarrow> \<not> ended (ca_call s t)"
  by (cases "ca_call s t") (auto simp: call_step_def)

lemma call_step_others:
  assumes "calls_ok s" "call_step E cl ctx t s = Some s'" "u \<noteq> t"
  shows "ca_call s' u = ca_call s u"
  using assms(2)
proof (cases rule: call_step_cases)
  case (start hop rd)
  have "finished (rc_point (ca_race s) t)" using assms(1) start(1) by (auto simp: calls_ok_def)
  from start_hop_frame(2)[OF this start(2) assms(3)] show ?thesis by simp
qed (use assms(3) finish_hop_frame(3) in auto)

lemma calls_run_bounded:
  assumes "(calls_step E cl ctx ^^ n) s0 s" "calls_start s0" "finite T" "\<forall>t. t \<notin> T \<longrightarrow> ended (ca_call s0 t)"
  shows "n + calls_measure T s \<le> calls_measure T s0 \<and> (\<forall>t. t \<notin> T \<longrightarrow> ended (ca_call s t))"
  using assms(1)
proof (induction n arbitrary: s)
  case 0
  then show ?case using assms(4) by simp
next
  case (Suc n)
  then obtain s1 where s1: "(calls_step E cl ctx ^^ n) s0 s1" "calls_step E cl ctx s1 s" by auto
  have ok: "calls_ok s1" using calls.run_inv[OF assms(2) relpowp_imp_rtranclp[OF s1(1)]] .
  from s1(2) obtain t where t: "call_step E cl (ctx t) t s1 = Some s" by (rule calls_stepE)
  have "t \<in> T" using call_step_moves[OF t] Suc.IH[OF s1(1)] by blast
  have "calls_measure T s < calls_measure T s1"
    using ok t assms(3) \<open>t \<in> T\<close> by (rule calls_measure_decreases)
  moreover have "ended (ca_call s u)" if "u \<notin> T" for u
    using call_step_others[OF ok t, of u] \<open>t \<in> T\<close> Suc.IH[OF s1(1)] that by (cases "u = t") auto
  ultimately show ?case using Suc.IH[OF s1(1)] by simp
qed

lemma calls_measure_start:
  assumes "calls_start s"
  shows "calls_measure T s \<le> 924 * card T * card T + 154 * card T"
proof -
  have "left_in s t \<le> 154" for t
    using assms by (auto simp: calls_start_def left_in_def redirect_limit_def dest!: spec[of _ t])
  then have "(\<Sum>t\<in>T. left_in s t) \<le> 154 * card T" by (rule sum_le_const)
  then have "(6 * card T + 1) * (\<Sum>t\<in>T. left_in s t) \<le> (6 * card T + 1) * (154 * card T)"
    by (rule mult_le_mono2)
  moreover have "turns_in s t = 0" for t
    using assms by (cases "rc_point (ca_race s) t") (auto simp: calls_start_def turns_in_def dest!: spec[of _ t])
  ultimately show ?thesis by (simp add: calls_measure_def algebra_simps)
qed

end
