(* ===== verification/Calls_Alone.thy ===== *)
theory Calls_Alone imports Client_Calls begin

text \<open>
  A call that runs alone: \<open>execute_with_redirects\<close> of \<open>Client\<close> is the run of \<open>Client_Calls\<close> in which
  only one call moves.
\<close>

section \<open>A hop in its parts\<close>

lemma lift_fail_try: "lift_fail (try_opt m k) = try_opt (lift_fail m) (\<lambda>x st. lift_fail (k x st))"
  by (auto simp: lift_fail_def map_err_st_def try_opt_def split: option.split sum.split prod.split)

lemma lift_fail_Some: "lift_fail (Some rs) = Some (map_err_st Fail rs)"
  by (simp add: lift_fail_def)

lemma try_opt_Some: "try_opt (Some (try_st m k)) g = try_opt (Some m) (\<lambda>x st. try_opt (Some (k x st)) g)"
  by (auto simp: try_opt_def try_st_def split: sum.split prod.split)

lemma run_hop_parts:
  "run_hop E cl ctx hop rd st =
    try_opt (Some (begin_hop E cl ctx hop rd st)) (\<lambda>x st.
    try_opt (lift_fail (try_opt (acquire_loop E cl (fst (snd x)) st) (\<lambda>conn st.
      send_with_fallback E cl (fst (snd x)) conn (snd (snd x)) (rd_body rd) st))) (\<lambda>resp st.
    hop_outcome E rd (fst x) resp st))"
  by (simp add: run_hop_def begin_hop_def try_opt_Some lift_fail_try lift_fail_Some acquire_def try_opt_assoc Let_def)

section \<open>The run of one call\<close>

lemma network_steps:
  assumes "(solo_step E cl ro (parts, rd_body rd) t)\<^sup>*\<^sup>* r r'" "ca_call s t = Exchanging hop rd u ro parts"
  shows "(calls_step E cl ctx)\<^sup>*\<^sup>* (s\<lparr>ca_race := r\<rparr>) (s\<lparr>ca_race := r'\<rparr>)"
  using assms(1)
proof (induction rule: rtranclp_induct)
  case (step r1 r2)
  then have "task_step E cl ro (parts, rd_body rd) t r1 = Some r2" by (simp add: solo_step_def)
  moreover from this have "\<not> finished (rc_point r1 t)" by (rule task_step_unfinished)
  ultimately have "call_step E cl (ctx t) t (s\<lparr>ca_race := r1\<rparr>) = Some (s\<lparr>ca_race := r2\<rparr>)"
    using assms(2) by (cases "rc_point r1 t") (auto simp: call_step_def)
  then have "calls_step E cl ctx (s\<lparr>ca_race := r1\<rparr>) (s\<lparr>ca_race := r2\<rparr>)" by (rule call_moves)
  with step.IH show ?case by (rule rtranclp.rtrancl_into_rtrancl)
qed simp

text \<open>All mutexes are free and the call \<open>t\<close> is outside the network part; it has come to \<open>c\<close> from \<open>s\<close>.\<close>

definition rests_at where
  "rests_at t c st s s' \<longleftrightarrow> rc_client (ca_race s') = st \<and> ca_call s' = (ca_call s)(t := c) \<and>
     (\<forall>k. rc_holder (ca_race s') k = None) \<and> finished (rc_point (ca_race s') t)"

lemma rests_at_start:
  "(\<forall>k. rc_holder (ca_race s) k = None) \<Longrightarrow> finished (rc_point (ca_race s) t) \<Longrightarrow> ca_call s t = c \<Longrightarrow>
   rests_at t c (rc_client (ca_race s)) s s"
  by (auto simp: rests_at_def)

lemma rests_at_again: "rests_at t c st s s' \<Longrightarrow> rests_at t c' st' s' s'' \<Longrightarrow> rests_at t c' st' s s''"
  by (simp add: rests_at_def)

lemma network_part_alone:
  assumes "try_opt (acquire_loop E cl ro st) (\<lambda>conn st. send_with_fallback E cl ro conn parts body st) = Some (r, st')"
    and "\<forall>k. rc_holder s k = None" "rc_point s t = AtLoop" "rc_client s = st" "route_ok ro"
  shows "\<exists>s'. (solo_step E cl ro (parts, body) t)\<^sup>*\<^sup>* s s' \<and> at_point ro t (Answered r) st' s s'"
proof -
  let ?ro = "\<lambda>_ :: nat. ro" and ?job = "\<lambda>_ :: nat. (parts, body)"
  have keys: "ro_h3 ro \<longrightarrow> ro_h2_key ro \<noteq> ro_key ro" using assms(5) by (auto simp: route_ok_def)
  have start: "runs_to E cl ?ro ?job t s AtLoop st"
    using runs_start[OF assms(2,3), of ?ro E cl ?job] assms(4) by simp
  have "runs_to E cl ?ro ?job t s (Answered r) st'"
    using assms(1)
  proof (cases rule: try_opt_Some_cases)
    case (stop e)
    with runs_acquire_loop[OF start stop(1)] keys show ?thesis by simp
  next
    case (go conn st1)
    with runs_acquire_loop[OF start go(1)] keys show ?thesis by (auto intro: runs_send)
  qed
  then show ?thesis by (auto simp: runs_to_def)
qed

lemma hop_alone:
  assumes free: "\<forall>k. rc_holder (ca_race s) k = None" and fin: "finished (rc_point (ca_race s) t)"
    and between: "ca_call s t = Between hop rd" and hop: "hop < redirect_limit"
    and run: "run_hop E cl (ctx t) hop rd (rc_client (ca_race s)) = Some (x, st')"
  shows "\<exists>s'. (calls_step E cl ctx)\<^sup>*\<^sup>* s s' \<and> rests_at t (next_call hop x) st' s s'"
proof -
  let ?s1 = "start_hop E cl (ctx t) hop rd t s"
  have step1: "calls_step E cl ctx s ?s1"
    by (rule call_moves[where t = t]) (simp add: call_step_def between)
  show ?thesis
  proof (cases rule: start_hop_cases[of hop E cl "ctx t" rd t s])
    case limit
    with hop show ?thesis by simp
  next
    case (error e st)
    with run have "x = Inl e" "st' = st" by (simp_all add: run_hop_parts)
    with error free fin have "rests_at t (next_call hop x) st' s ?s1" by (simp add: rests_at_def)
    with step1 show ?thesis by blast
  next
    case (go u ro parts st)
    let ?net = "try_opt (acquire_loop E cl ro st) (\<lambda>conn st. send_with_fallback E cl ro conn parts (rd_body rd) st)"
    have rest: "try_opt (lift_fail ?net) (\<lambda>resp st. hop_outcome E rd u resp st) = Some (x, st')"
      using run go(2) by (simp add: run_hop_parts)
    then obtain r st1 where net: "?net = Some (r, st1)"
      by (cases ?net) (auto simp: lift_fail_def)
    have route: "route_ok ro" using begin_hop_route[OF go(2)] route_of_ok by metis
    obtain r' where r': "(solo_step E cl ro (parts, rd_body rd) t)\<^sup>*\<^sup>* (ca_race ?s1) r'"
      "at_point ro t (Answered r) st1 (ca_race ?s1) r'"
      using network_part_alone[OF net, of "ca_race ?s1" t] free fin go(3) route
      by (auto simp: goto_nothing finished_holds)
    have "ca_call ?s1 t = Exchanging hop rd u ro parts" using go(3) by simp
    from network_steps[OF r'(1) this] have "(calls_step E cl ctx)\<^sup>*\<^sup>* ?s1 (?s1\<lparr>ca_race := r'\<rparr>)" by simp
    with step1 have steps2: "(calls_step E cl ctx)\<^sup>*\<^sup>* s (?s1\<lparr>ca_race := r'\<rparr>)"
      by (rule converse_rtranclp_into_rtranclp)
    obtain s3 where s3: "finish_hop E hop rd u r t (?s1\<lparr>ca_race := r'\<rparr>) = Some s3"
      using finish_hop_defined[of E hop rd u r t "?s1\<lparr>ca_race := r'\<rparr>"] by blast
    have "calls_step E cl ctx (?s1\<lparr>ca_race := r'\<rparr>) s3"
      by (rule call_moves[where t = t]) (use go(3) r'(2) s3 in \<open>simp add: call_step_def at_point_def\<close>)
    with steps2 have steps3: "(calls_step E cl ctx)\<^sup>*\<^sup>* s s3" by (rule rtranclp.rtrancl_into_rtrancl)
    have "rests_at t (next_call hop x) st' s s3"
      using s3
    proof (cases rule: finish_hop_cases)
      case (failed e)
      with rest net r'(2) go(3) show ?thesis
        by (auto simp: rests_at_def at_point_def lift_fail_def)
    next
      case (answered resp y st2)
      with rest net r'(2) go(3) show ?thesis
        by (auto simp: rests_at_def at_point_def lift_fail_def)
    qed
    with steps3 show ?thesis by blast
  qed
qed

lemma hops_alone:
  assumes "run_hops E cl (ctx t) n rd (rc_client (ca_race s)) = Some (r, st')" "n \<le> redirect_limit"
    and "\<forall>k. rc_holder (ca_race s) k = None" "finished (rc_point (ca_race s) t)"
    and "ca_call s t = Between (redirect_limit - n) rd"
  shows "\<exists>s'. (calls_step E cl ctx)\<^sup>*\<^sup>* s s' \<and> rests_at t (Ended r) st' s s'"
  using assms
proof (induction n arbitrary: rd s)
  case 0
  let ?s' = "start_hop E cl (ctx t) redirect_limit rd t s"
  have "calls_step E cl ctx s ?s'"
    by (rule call_moves[where t = t]) (use 0 in \<open>simp add: call_step_def\<close>)
  moreover have "rests_at t (Ended r) st' s ?s'" using 0 by (auto simp: start_hop_def rests_at_def)
  ultimately show ?case by blast
next
  case (Suc n)
  let ?i = "redirect_limit - Suc n"
  have i: "?i < redirect_limit" "Suc ?i = redirect_limit - n" using Suc.prems(2) by auto
  from Suc.prems(1) obtain x st1 where hop: "run_hop E cl (ctx t) ?i rd (rc_client (ca_race s)) = Some (x, st1)"
    by (cases "run_hop E cl (ctx t) ?i rd (rc_client (ca_race s))") auto
  from hop_alone[where ctx = ctx, OF Suc.prems(3,4,5) i(1) hop] obtain s1 where
    s1: "(calls_step E cl ctx)\<^sup>*\<^sup>* s s1" "rests_at t (next_call ?i x) st1 s s1" by blast
  consider e where "x = Inl e" | resp where "x = Inr (Done resp)" | rd' where "x = Inr (Follow rd')"
    by (cases x; cases "projr x") auto
  then show ?case
  proof cases
    case 3
    have "run_hops E cl (ctx t) n rd' (rc_client (ca_race s1)) = Some (r, st')"
      using Suc.prems(1) hop 3 s1(2) by (simp add: rests_at_def)
    from Suc.IH[OF this] obtain s2 where
      "(calls_step E cl ctx)\<^sup>*\<^sup>* s1 s2" "rests_at t (Ended r) st' s1 s2"
      using s1(2) 3 i(2) Suc.prems(2) by (auto simp: rests_at_def)
    with s1 show ?thesis by (meson rests_at_again rtranclp_trans)
  qed (use Suc.prems(1) hop s1 in auto)
qed

end
