(* ===== verification/Calls_Pool.thy ===== *)
theory Calls_Pool imports Client_Calls begin

text \<open>
  The pool under interleaved calls (\<open>src/client/pool.rs\<close>): what its slots hold stays of the kind and
  the profile of their keys, and an HTTP/3 session stays, in whatever order the calls take their steps.
\<close>

section \<open>One step of a task\<close>

text \<open>What a task knows at a point about the slot of its route.\<close>

fun point_fits :: "chrome_profile \<Rightarrow> route \<Rightarrow> 'h point \<Rightarrow> pooled_connection option \<Rightarrow> bool" where
  "point_fits p ro (Probing c) x \<longleftrightarrow> \<not> ro_h3 ro"
| "point_fits p ro Evicting x \<longleftrightarrow> \<not> ro_h3 ro"
| "point_fits p ro Dialling x \<longleftrightarrow> x = None"
| "point_fits p ro (ResendProbing c) x \<longleftrightarrow> qc_profile c = p"
| "point_fits p ro _ x \<longleftrightarrow> True"

text \<open>A slot is only filled by the task that holds its mutex.\<close>

lemma task_step_slots:
  assumes "task_step E cl ro job t s = Some s'"
  shows "slot k (rc_client s') = slot k (rc_client s) \<or> slot k (rc_client s') = None \<or>
    k \<in> set (holds ro (rc_point s t))"
  using assms
  by (cases "rc_point s t")
    (auto simp: task_step_def step_defs Let_def try_st_def dial_route_slots(1) slot_pool_entry
      dest!: send_frame
      split: if_splits option.splits sum.splits prod.splits pooled_connection.splits)

lemma h2_slot_fits: "slots_ok p st \<Longrightarrow> slot k st = Some (Http2 c) \<Longrightarrow> key_proto k = ''h2'' \<and> qc_profile c = p"
  unfolding slots_ok_def fits_def by (metis conn_proto.simps(1) conn_profile.simps(1))

lemma dialled_fits:
  "dial_route E cl ro h3 st = Some (Inr c, st') \<Longrightarrow> key_proto k = (if h3 then ''h3'' else ''h2'') \<Longrightarrow>
   fits (cl_profile cl) k c"
  using dial_route_slots(3)[of E cl ro h3 st "Inr c" st' c] by (simp add: fits_def)

lemma redial_pool_step:
  assumes "redial_step E cl ro t kok kerr s = Some s'" "key_proto (ro_h2_key ro) = ''h2''"
  shows "pool_step (cl_profile cl) (rc_client s) (rc_client s') \<and> (\<exists>c e. rc_point s' t = kok c \<or> rc_point s' t = kerr e)"
proof -
  obtain r st where d: "dial_route E cl ro False (rc_client s) = Some (r, st)"
    using assms(1) by (auto simp: redial_step_def split: option.splits)
  note ds = pool_step_dial[OF d]
  show ?thesis
  proof (cases r)
    case (Inr c)
    have "pool_step (cl_profile cl) st (set_slot (ro_h2_key ro) (Some c) st)"
      using dialled_fits[OF d[unfolded Inr], of "ro_h2_key ro"] assms(2) by (intro pool_step_set_h2) auto
    with ds have "pool_step (cl_profile cl) (rc_client s) (set_slot (ro_h2_key ro) (Some c) st)"
      by (rule pool_step_trans)
    with assms(1) d Inr show ?thesis by (auto simp: redial_step_def)
  qed (use assms(1) d ds in \<open>auto simp: redial_step_def\<close>)
qed

lemma send_failed_pool_step:
  assumes "pool_step p (rc_client s) st"
  shows "pool_step p (rc_client s) (rc_client (send_failed ro t conn e st s)) \<and>
    point_fits q ro (rc_point (send_failed ro t conn e st s) t) x"
proof (cases conn)
  case (Http3 c)
  obtain r1 st1 where entry: "pool_entry (ro_h2_key ro) (evict_origin (ro_origin_key ro) st) = (r1, st1)" by fastforce
  have "pool_step p (rc_client s) st1"
    using assms pool_step_trans[OF pool_step_simps(2) pool_step_entry[OF entry]] by (rule pool_step_trans)
  with Http3 entry show ?thesis by (cases r1) (auto simp: send_failed_def)
qed (use assms in \<open>simp add: send_failed_def\<close>)

lemma own_step:
  assumes step: "task_step E cl ro job t s = Some s'" and route: "route_ok ro"
    and ok: "slots_ok (cl_profile cl) (rc_client s)"
    and fit: "point_fits (cl_profile cl) ro (rc_point s t) (slot (ro_key ro) (rc_client s))"
  shows "pool_step (cl_profile cl) (rc_client s) (rc_client s') \<and>
    point_fits (cl_profile cl) ro (rc_point s' t) (slot (ro_key ro) (rc_client s'))"
proof -
  let ?p = "cl_profile cl"
  have keys: "key_proto (ro_key ro) = (if ro_h3 ro then ''h3'' else ''h2'')" "key_proto (ro_h2_key ro) = ''h2''"
    using route by (simp_all add: route_ok_def)
  show ?thesis
  proof (cases "rc_point s t")
    case AtLoop
    with step keys show ?thesis
      by (auto simp: task_step_def look_step_def dest: h2_slot_fits[OF ok]
          split: if_splits option.splits pooled_connection.splits)
  next
    case (Probing c)
    with step fit show ?thesis
      by (auto simp: task_step_def probe_step_def split: prod.splits sum.splits)
  next
    case Evicting
    with step fit keys show ?thesis
      by (auto simp: task_step_def evict_step_def pool_step_def slots_ok_def split: if_splits)
  next
    case SawEmpty
    with step show ?thesis by (auto simp: task_step_def claim_step_def split: if_splits)
  next
    case Dialling
    obtain r st where d: "dial_route E cl ro (ro_h3 ro) (rc_client s) = Some (r, st)"
      using Dialling step by (auto simp: task_step_def dial_step_def split: option.splits)
    note ds = pool_step_dial[OF d]
    show ?thesis
    proof (cases r)
      case (Inr c)
      have "slot (ro_key ro) st = None" using Dialling fit dial_route_slots(1)[OF d] by simp
      then have "pool_step ?p st (set_slot (ro_key ro) (Some c) st)"
        using dialled_fits d keys(1) Inr by (blast intro: pool_step_set_empty)
      with Dialling step d Inr ds show ?thesis
        by (auto simp: task_step_def dial_step_def intro: pool_step_trans[of _ _ st])
    next
      case (Inl e)
      obtain r1 st1 where entry: "pool_entry (ro_h2_key ro) (evict_origin (ro_origin_key ro) st) = (r1, st1)"
        by fastforce
      have "pool_step ?p (rc_client s) st1"
        using ds pool_step_trans[OF pool_step_simps(2) pool_step_entry[OF entry]] by (rule pool_step_trans)
      with Dialling step d Inl ds entry show ?thesis
        by (cases r1) (auto simp: task_step_def dial_step_def split: if_splits)
    qed
  next
    case Falling
    with step show ?thesis by (auto simp: task_step_def fall_step_def split: if_splits option.splits)
  next
    case Redialling
    with step keys(2) show ?thesis
      by (auto simp: task_step_def dest: redial_pool_step)
  next
    case (Acquired c)
    show ?thesis
    proof (cases "build_request E ?p (fst job)")
      case (Inl e)
      with Acquired step show ?thesis by (auto simp: task_step_def send_step_def)
    next
      case (Inr req)
      obtain r w where send: "send_begin E c req (snd job) (rc_client s) = (r, set_world w (rc_client s))"
        using send_frame(1) by (metis surj_pair)
      with Acquired step Inr send_failed_pool_step[of ?p s "set_world w (rc_client s)" ro t c] show ?thesis
        by (cases r) (auto simp: task_step_def send_step_def)
    qed
  next
    case (Sending c f)
    obtain r w where finish: "send_finish E f (rc_client s) = (r, set_world w (rc_client s))"
      using send_frame(2) by (metis surj_pair)
    with Sending step send_failed_pool_step[of ?p s "set_world w (rc_client s)" ro t c] show ?thesis
      by (cases r) (auto simp: task_step_def await_step_def)
  next
    case Resending
    with step show ?thesis
      by (auto simp: task_step_def resend_step_def dest: h2_slot_fits[OF ok]
          split: if_splits option.splits pooled_connection.splits)
  next
    case (ResendProbing c)
    obtain r w where ready: "h2_ready (env_stack E) (qc_h2 c) (cs_world (rc_client s)) = (r, w)" by fastforce
    have "qc_profile c = ?p" using ResendProbing fit by simp
    then have "pool_step ?p (set_world w (rc_client s))
        (set_slot (ro_h2_key ro) (Some (Http2 (c\<lparr>qc_h2 := h\<rparr>))) (set_world w (rc_client s)))" for h
      using keys(2) by (intro pool_step_set_h2) (simp_all add: fits_def)
    from pool_step_trans[OF pool_step_simps(1) this]
    have "pool_step ?p (rc_client s)
        (set_slot (ro_h2_key ro) (Some (Http2 (c\<lparr>qc_h2 := h\<rparr>))) (set_world w (rc_client s)))" for h .
    with ResendProbing step ready show ?thesis
      by (cases r) (auto simp: task_step_def resend_probe_step_def Let_def)
  next
    case ResendDialling
    with step keys(2) show ?thesis
      by (auto simp: task_step_def dest: redial_pool_step)
  next
    case (ResendSending c)
    with step show ?thesis
      by (auto simp: task_step_def resend_send_step_def try_st_def split: sum.splits prod.splits dest!: send_frame(1))
  next
    case (ResendAwaiting f)
    with step show ?thesis
      by (auto simp: task_step_def resend_await_step_def split: prod.splits dest!: send_frame(2))
  qed (use step in \<open>auto simp: task_step_def\<close>)
qed

section \<open>All tasks\<close>

definition pool_inv where
  "pool_inv p ro s \<longleftrightarrow> slots_ok p (rc_client s) \<and>
     (\<forall>t. point_fits p (ro t) (rc_point s t) (slot (ro_key (ro t)) (rc_client s)))"

lemma point_fits_kept:
  "point_fits p ro pt x \<Longrightarrow> (pt = Dialling \<Longrightarrow> x' = None) \<Longrightarrow> point_fits p ro pt x'"
  by (cases pt) auto

lemma pool_inv_step:
  assumes inv: "pool_inv (cl_profile cl) ro s" and locks: "locks_ok ro s" and route: "route_ok (ro t)"
    and step: "task_step E cl (ro t) job t s = Some s'"
  shows "pool_inv (cl_profile cl) ro s' \<and> pool_step (cl_profile cl) (rc_client s) (rc_client s')"
proof -
  have ok: "slots_ok (cl_profile cl) (rc_client s)"
    and fits: "point_fits (cl_profile cl) (ro u) (rc_point s u) (slot (ro_key (ro u)) (rc_client s))" for u
    using inv by (auto simp: pool_inv_def)
  from own_step[OF step route ok fits] have own: "pool_step (cl_profile cl) (rc_client s) (rc_client s')"
    "point_fits (cl_profile cl) (ro t) (rc_point s' t) (slot (ro_key (ro t)) (rc_client s'))" by auto
  have "point_fits (cl_profile cl) (ro u) (rc_point s' u) (slot (ro_key (ro u)) (rc_client s'))" for u
  proof (cases "u = t")
    case False
    have "slot (ro_key (ro u)) (rc_client s') = None" if dial: "rc_point s u = Dialling"
    proof -
      have "rc_holder s (ro_key (ro u)) = Some u" using locks_okD[OF locks, of _ u] dial by simp
      then have "ro_key (ro u) \<notin> set (holds (ro t) (rc_point s t))"
        using locks_okD[OF locks, of "ro_key (ro u)" t] False by auto
      with task_step_slots[OF step, of "ro_key (ro u)"] fits[of u] dial show ?thesis by auto
    qed
    moreover have "rc_point s' u = rc_point s u"
      using task_step_moves[OF step] False by (auto simp: moves_def)
    ultimately show ?thesis using point_fits_kept[OF fits[of u]] by simp
  qed (use own in simp)
  with own ok show ?thesis by (simp add: pool_inv_def pool_step_def)
qed

section \<open>All calls\<close>

definition calls_pool where
  "calls_pool p s \<longleftrightarrow> calls_ok s \<and> pool_inv p (routes_in s) (ca_race s)"

lemma slot_cong: "cs_pool st' = cs_pool st \<Longrightarrow> slot k st' = slot k st"
  by (simp add: slot_def)

lemma begin_hop_slots: "begin_hop E cl ctx hop rd st = (r, st') \<Longrightarrow> slot k st' = slot k st"
  by (auto simp: begin_hop_def try_st_def Let_def map_err_st_def slot_pool_entry
      split: prod.splits sum.splits option.splits dest: slot_pool_entry)

lemma hop_outcome_slots: "hop_outcome E rd u resp st = Some (x, st') \<Longrightarrow> slot k st' = slot k st"
  by (rule slot_cong) (auto simp: hop_outcome_def Let_def split: if_splits option.splits sum.splits)

lemma finished_fits: "finished pt \<Longrightarrow> point_fits p ro pt x"
  by (cases pt) auto

text \<open>A step outside the network part changes no slot.\<close>

lemma pool_inv_elsewhere:
  assumes "pool_inv p ro s" "\<And>k. slot k (rc_client s') = slot k (rc_client s)"
    and "\<And>u. u \<noteq> t \<Longrightarrow> rc_point s' u = rc_point s u \<and> ro' u = ro u"
    and "rc_point s' t = AtLoop \<or> finished (rc_point s' t)"
  shows "pool_inv p ro' s' \<and> pool_step p (rc_client s) (rc_client s')"
proof -
  have "point_fits p (ro' u) (rc_point s' u) (slot (ro_key (ro' u)) (rc_client s'))" for u
    using assms by (cases "u = t") (auto simp: pool_inv_def finished_fits)
  with assms(1,2) show ?thesis by (simp add: pool_inv_def slots_ok_def pool_step_def)
qed

lemma calls_pool_step:
  assumes inv: "calls_pool (cl_profile cl) s" and step: "call_step E cl ctx t s = Some s'"
  shows "calls_pool (cl_profile cl) s' \<and> pool_step (cl_profile cl) (rc_client (ca_race s)) (rc_client (ca_race s'))"
proof -
  have ok: "calls_ok s" and pool: "pool_inv (cl_profile cl) (routes_in s) (ca_race s)"
    using inv by (auto simp: calls_pool_def)
  have "pool_inv (cl_profile cl) (routes_in s') (ca_race s') \<and>
      pool_step (cl_profile cl) (rc_client (ca_race s)) (rc_client (ca_race s'))"
    using step
  proof (cases rule: call_step_cases)
    case (start hop rd)
    have fin: "finished (rc_point (ca_race s) t)" using ok start(1) by (auto simp: calls_ok_def)
    have slots: "slot k (rc_client (ca_race s')) = slot k (rc_client (ca_race s))" for k
      by (cases rule: start_hop_cases[of hop E cl ctx rd t s])
        (use start(2) in \<open>auto dest: begin_hop_slots[where k = k]\<close>)
    note frame = start_hop_frame[OF fin start(2)]
    show ?thesis
      by (rule pool_inv_elsewhere[where t = t, OF pool slots]) (use frame in \<open>auto split: if_splits\<close>)
  next
    case (network hop rd u ro parts r)
    then have "task_step E cl (routes_in s t) (parts, rd_body rd) t (ca_race s) = Some r" by simp
    from pool_inv_step[OF pool _ _ this] ok network(3) show ?thesis by (auto simp: calls_ok_def)
  next
    case (finish hop rd u ro parts r)
    note frame = finish_hop_frame[OF finish(3)]
    have slots: "slot k (rc_client (ca_race s')) = slot k (rc_client (ca_race s))" for k
      using finish(3) by (cases rule: finish_hop_cases) (auto dest: hop_outcome_slots[where k = k])
    show ?thesis
      by (rule pool_inv_elsewhere[where t = t, OF pool slots]) (use frame finish in auto)
  qed
  with calls_ok_step[OF ok step] show ?thesis by (simp add: calls_pool_def)
qed

text \<open>From a state whose slots fit their keys; a new client's are empty.\<close>

definition pool_start where
  "pool_start p s \<longleftrightarrow> calls_start s \<and> slots_ok p (rc_client (ca_race s))"

interpretation pooled: machine_invariant "pool_start (cl_profile cl)" "calls_step E cl ctx" "calls_pool (cl_profile cl)"
proof unfold_locales
  fix s
  assume start: "pool_start (cl_profile cl) s"
  then have "calls_ok s" using calls.start_inv by (auto simp: pool_start_def)
  with start show "calls_pool (cl_profile cl) s"
    by (auto simp: calls_pool_def pool_start_def pool_inv_def calls_start_def finished_fits)
next
  fix s s'
  assume inv: "calls_pool (cl_profile cl) s" and "calls_step E cl ctx s s'"
  then obtain t where "call_step E cl (ctx t) t s = Some s'" by (blast elim: calls_stepE)
  from calls_pool_step[OF inv this] show "calls_pool (cl_profile cl) s'" by simp
qed

lemma calls_pool_steps:
  assumes "(calls_step E cl ctx)\<^sup>*\<^sup>* s s'" "calls_pool (cl_profile cl) s"
  shows "calls_pool (cl_profile cl) s' \<and> pool_step (cl_profile cl) (rc_client (ca_race s)) (rc_client (ca_race s'))"
  using assms
proof (induction rule: rtranclp_induct)
  case (step s1 s2)
  from step.hyps(2) obtain t where "call_step E cl (ctx t) t s1 = Some s2" by (rule calls_stepE)
  from calls_pool_step[OF _ this] step show ?case by (auto intro: pool_step_trans)
qed simp

end
