(* ===== verification/Calls_Frame.thy ===== *)
theory Calls_Frame imports Client_Calls begin

text \<open>
  What the network part of a hop can change (\<open>src/client/pool.rs\<close>), as frames: a relation that holds
  across the few ways in which it touches the client's state holds across every step of a task, and
  one that holds across every call of foreign code holds across dialling and sending.
\<close>

section \<open>The client's state\<close>

text \<open>A relation between client states that each change made by connecting and sending respects.\<close>

locale network_frame =
  fixes E :: "('b, 'tc, 'qc, 'hc, 'q, 'u, 'r, 'h, 'k, 'w) client_env" and cl :: client
    and R :: "('k, 'w) client_state \<Rightarrow> ('k, 'w) client_state \<Rightarrow> bool"
  assumes R_refl: "R st st"
    and R_trans: "R st st1 \<Longrightarrow> R st1 st2 \<Longrightarrow> R st st2"
    and R_slot: "R st (set_slot key c st)"
    and R_evict: "R st (evict_origin k st)"
    and R_entry: "R st (snd (pool_entry key st))"
    and R_dial: "dial_route E cl (ro :: route) h3 st = Some (r, st') \<Longrightarrow> R st st'"
    and R_ready: "h2_ready (env_stack E) h (cs_world st) = (probe, w) \<Longrightarrow> R st (set_world w st)"
    and R_begin: "send_begin E conn req body st = (sent, st') \<Longrightarrow> R st st'"
    and R_finish: "send_finish E f st = (answer, st') \<Longrightarrow> R st st'"
begin

lemma R_pool_entry: "pool_entry key st = (r, st') \<Longrightarrow> R st st'"
  using R_entry[of st key] by simp

lemma R_evicted_entry:
  "pool_entry key (evict_origin k st) = (r, st') \<Longrightarrow> R st st'"
  using R_pool_entry R_evict R_trans by blast

lemmas R_recovered = R_trans[OF R_dial R_evicted_entry] R_trans[OF R_begin R_evicted_entry]
  R_trans[OF R_finish R_evicted_entry]

lemma R_task_step:
  assumes "task_step E cl ro job t s = Some s'"
  shows "R (rc_client s) (rc_client s')"
proof -
  note frame = R_refl R_slot R_evict R_dial R_ready R_begin R_finish R_trans[OF R_dial R_slot] R_trans[OF R_ready R_slot] R_recovered
  show ?thesis
    using assms
    by (cases "rc_point s t")
      (auto simp: task_step_def step_defs Let_def try_st_def intro: frame
        split: if_splits option.splits sum.splits prod.splits pooled_connection.splits)
qed

lemma R_begin_hop: "begin_hop E cl ctx hop rd st = (r, st') \<Longrightarrow> R st st'"
  by (auto simp: begin_hop_def try_st_def Let_def map_err_st_def intro: R_refl R_entry
      split: prod.splits sum.splits option.splits)

end

text \<open>What a hop does to the state at its end.\<close>

lemma hop_outcome_state:
  "hop_outcome E rd u resp st = Some (r, st') \<Longrightarrow>
   st' = store_alt_svc E resp u (store_hints E resp u (store_cookies E resp u st))"
  by (auto simp: hop_outcome_def Let_def split: if_splits option.splits sum.splits)

section \<open>The world\<close>

text \<open>A relation between worlds that every foreign operation outside the channels respects.\<close>

locale foreign_frame =
  fixes E :: "('b, 'tc, 'qc, 'hc, 'q, 'u, 'r, 'h, 'k, 'w) client_env" and R :: "'w \<Rightarrow> 'w \<Rightarrow> bool"
  assumes w_tcp: "R w (snd (tcp_connect (env_tcp E) a w))" "R w (snd (tcp_connect_addr (env_tcp E) addr w))"
      "R w (snd (tcp_write_all (env_tcp E) s bs w))" "R w (snd (tcp_read (env_tcp E) s n w))"
      "R w (snd (tcp_read_exact (env_tcp E) s n w))"
    and w_stack: "R w (snd (tls_handshake (env_stack E) c host s w))" "R w (snd (h2_handshake (env_stack E) calls n w))"
      "R w (snd (h2_ready (env_stack E) n w))" "R w (snd (h2_send_request (env_stack E) n req eos w))"
      "R w (snd (h2_send_data (env_stack E) n bs eos w))" "R w (snd (h2_response (env_stack E) n w))"
    and w_env: "R w (snd (env_dns E a w))" "R w (snd (env_udp_bind E addr w))" "R w (snd (env_udp_connect E n addr w))"
      "R w (snd (env_spawn E n conn addr w))"

text \<open>
  A request over HTTP/3 is one operation up to its await and one after it, because its one-shot
  channel is new only at once.
\<close>

locale world_frame = foreign_frame E R
  for E :: "('b, 'tc, 'qc, 'hc, 'q, 'u, 'r, 'h, 'k, 'w) client_env" and R :: "'w \<Rightarrow> 'w \<Rightarrow> bool" +
  assumes w_refl: "R w w"
    and w_trans: "R w w1 \<Longrightarrow> R w1 w2 \<Longrightarrow> R w w2"
    and w_session: "R w (snd (session_begin (env_uri E) (env_headers E) (env_channel E) (session :: quic_session) req body w))"
      "R w (snd (session_finish (env_channel E) n w))"
begin

text \<open>From a fixed world on: through one operation, and through a sequence.\<close>

lemma on: "R w w1 \<Longrightarrow> R w0 w \<Longrightarrow> R w0 w1"
  by (rule w_trans)

lemmas ops = w_tcp[THEN on] w_stack[THEN on] w_env[THEN on] w_session[THEN on]

lemma seq:
  "R w0 (snd m) \<Longrightarrow> (\<And>x w. R w0 w \<Longrightarrow> R w0 (snd (k x w))) \<Longrightarrow> R w0 (snd (try_st m k))"
  by (cases m; cases "fst m") (auto simp: try_st_def)

lemma snd_map_err [simp]: "snd (map_err_st g m) = snd m"
  by (simp add: map_err_st_def)

lemma snd_io_try [simp]: "snd (io_try m) = snd m"
  by (simp add: io_try_def)

lemma w_connect_loop:
  assumes "connect_loop (env_tcp E) s buf w = Some rw" "R w0 w"
  shows "R w0 (snd rw)"
proof -
  let ?P = "\<lambda>T s buf w rw. T = env_tcp E \<longrightarrow> R w0 w \<longrightarrow> R w0 (snd rw)"
  have "?P (env_tcp E) s buf w rw"
  proof (rule connect_loop.raw_induct[OF _ assms(1), where P = ?P], intro impI)
    fix f T s buf w rw
    assume IH: "\<And>T s buf w rw. f T s buf w = Some rw \<Longrightarrow> T = env_tcp E \<longrightarrow> R w0 w \<longrightarrow> R w0 (snd rw)"
      and body: "(case tcp_read T s (4096 - length buf) w of
         (Inl e, w') \<Rightarrow> Some (Inl (Connect e), w')
       | (Inr bs, w') \<Rightarrow>
           (if bs = [] then Some (Inl connect_aborted, w')
            else let buf' = buf @ bs;
                     response = of_bytes (utf8_lossy buf')
                 in if str_contains response (crlf @ crlf)
                    then if starts_with response ''HTTP/1.1 200'' \<or> starts_with response ''HTTP/1.0 200''
                         then Some (Inr s, w')
                         else Some (Inl (connect_other (''HTTP proxy returned error status: '' @
                                unwrap_or (first_line response) ''Unknown'')), w')
                    else f T s buf' w')) = Some rw"
      and T: "T = env_tcp E" and w: "R w0 w"
    obtain x w' where read: "tcp_read T s (4096 - length buf) w = (x, w')" by fastforce
    have "R w0 w'" using ops(4)[OF w, where s = s and n = "4096 - length buf"] T read by simp
    with body read T show "R w0 (snd rw)"
      by (auto simp: Let_def split: sum.splits if_splits dest!: IH)
  qed
  with assms(2) show ?thesis by simp
qed

lemma w_dial_proxy:
  assumes "dial_proxy (env_tcp E) p host port w = Some rw" "R w0 w"
  shows "R w0 (snd rw)"
proof (cases p)
  case (HttpProxy addr)
  obtain x w1 where one: "tcp_connect (env_tcp E) addr w = (x, w1)" by fastforce
  have w1: "R w0 w1" using ops(1)[OF assms(2), where a = addr] one by simp
  show ?thesis
  proof (cases x)
    case (Inr s)
    obtain y w2 where two: "tcp_write_all (env_tcp E) s (as_bytes (connect_request host port)) w1 = (y, w2)" by fastforce
    have "R w0 w2" using ops(3)[OF w1, where s = s and bs = "as_bytes (connect_request host port)"] two by simp
    with assms(1) HttpProxy one Inr two show ?thesis
      by (cases y) (auto simp: dial_proxy_def dial_http_proxy_def dest: w_connect_loop)
  qed (use assms(1) HttpProxy one w1 in \<open>auto simp: dial_proxy_def dial_http_proxy_def\<close>)
next
  case (Socks5Proxy addr)
  have drain: "R w0 w \<Longrightarrow> R w0 (snd (socks_drain_addr (env_tcp E) s b w))" for s b w
    unfolding socks_drain_addr_def by (auto intro!: seq ops)
  have "R w0 (snd (dial_socks5_proxy (env_tcp E) addr host port w))"
    unfolding dial_socks5_proxy_def using assms(2) by (auto intro!: seq ops drain)
  with assms(1) Socks5Proxy show ?thesis by (auto simp: dial_proxy_def)
qed

lemma w_resolve: assumes "R w0 w" shows "R w0 (snd (resolve E a w))"
  using ops(12)[OF assms, where a = a] by (auto simp: resolve_def split: prod.split sum.split list.split)

lemma w_dial:
  assumes "dial E p proxy authority port h3 w = Some rw" "R w0 w"
  shows "R w0 (snd rw)"
proof (cases h3)
  case True
  have spawn: "R w0 (snd (case env_spawn E n conn a w of (tx, w) \<Rightarrow> (Inr (g tx), w)))" if "R w0 w" for n conn a g w
    using ops(15)[OF that, where n = n and conn = conn and addr = a] by (auto split: prod.split)
  have "R w0 (snd (dial_h3 E p authority port w))"
    unfolding dial_h3_def Let_def[of "if _ then _ else _"]
    using assms(2) by (auto intro!: seq ops w_resolve spawn)
  with True assms(1) show ?thesis by (simp add: dial_def)
next
  case False
  obtain r1 w1 where res: "resolve E (authority @ '':'' @ show_word port) w = (r1, w1)" by fastforce
  have w1: "R w0 w1" using w_resolve[OF assms(2)] res by (metis snd_conv)
  have conn: "R w0 (snd rw')" if c: "connect_quik (env_ssl E) (env_stack E) (env_tcp E) authority port addr p proxy w1 = Some rw'" for addr rw'
  proof -
    obtain tr where tr: "(case proxy of Some q \<Rightarrow> dial_proxy (env_tcp E) q authority port w1
        | None \<Rightarrow> Some (io_try (tcp_connect_addr (env_tcp E) addr w1))) = Some tr"
      using c by (auto simp: connect_quik_def split: option.splits)
    have "R w0 (snd tr)"
      using tr w1 ops(2)[OF w1, where addr = addr] w_dial_proxy by (cases proxy) auto
    with c tr show ?thesis by (auto simp: connect_quik_def intro!: seq ops)
  qed
  show ?thesis
  proof (cases r1)
    case (Inr addr)
    obtain tr where "connect_quik (env_ssl E) (env_stack E) (env_tcp E) authority port addr p proxy w1 = Some tr"
      "snd rw = snd tr"
      using False assms(1) res Inr by (auto simp: dial_def try_opt_def split: option.splits prod.splits sum.splits)
    with conn show ?thesis by simp
  qed (use False assms(1) res w1 in \<open>auto simp: dial_def\<close>)
qed

lemma w_begin: "R w0 w \<Longrightarrow> R w0 (snd (pooled_begin E conn req body w))"
  by (cases conn; cases body) (auto simp: pooled_begin_def map_ok_st_def conn_begin_def intro!: seq ops)

lemma w_finish: "R w0 w \<Longrightarrow> R w0 (snd (pooled_finish E f w))"
  by (cases f) (auto simp: pooled_finish_def conn_finish_def intro!: seq ops)

end

text \<open>A frame of worlds is one of client states.\<close>

sublocale world_frame \<subseteq> client: network_frame E cl "\<lambda>st st'. R (cs_world st) (cs_world st')" for cl
proof unfold_locales
  fix ro h3 r and st st' :: "('k, 'w) client_state"
  assume "dial_route E cl ro h3 st = Some (r, st')"
  then obtain rw where "dial E (cl_profile cl) (cl_proxy cl) (ro_authority ro) (ro_port ro) h3 (cs_world st) = Some rw"
    "st' = set_world (snd rw) st" by (auto simp: dial_route_def on_world_def)
  with w_dial w_refl show "R (cs_world st) (cs_world st')" by simp
next
  fix h probe w and st :: "('k, 'w) client_state"
  assume "h2_ready (env_stack E) h (cs_world st) = (probe, w)"
  with w_stack(3)[of "cs_world st" h] show "R (cs_world st) (cs_world (set_world w st))" by simp
next
  fix conn req body sent and st st' :: "('k, 'w) client_state"
  assume "send_begin E conn req body st = (sent, st')"
  with w_begin[OF w_refl, of "cs_world st" conn req body] show "R (cs_world st) (cs_world st')"
    by (auto simp: send_begin_def split: prod.splits)
next
  fix f answer and st st' :: "('k, 'w) client_state"
  assume "send_finish E f st = (answer, st')"
  with w_finish[OF w_refl, of "cs_world st" f] show "R (cs_world st) (cs_world st')"
    by (auto simp: send_finish_def split: prod.splits)
qed (use w_refl in \<open>auto intro: w_trans simp: pool_entry_def split: option.split\<close>)

end
