(* ===== verification/Calls_History.thy ===== *)
theory Calls_History imports Calls_Frame begin

text \<open>
  The memory of a client (\<open>src/client/pool.rs\<close>): its cookie store, its client hints and its Alt-Svc
  entries as functions of the exchanges it has had, the answers of the hops with their URLs, in the
  order in which the interleaved calls took them in.
\<close>

section \<open>What connecting and sending leave alone\<close>

text \<open>The stores are not touched; an Alt-Svc entry may only disappear.\<close>

definition memory_kept :: "('k, 'w) client_state \<Rightarrow> ('k, 'w) client_state \<Rightarrow> bool" where
  "memory_kept st st' \<longleftrightarrow> cs_cookies st' = cs_cookies st \<and> cs_hints st' = cs_hints st \<and>
     (\<forall>k v. alt_svc_get (cs_alt_svc st') k = Some v \<longrightarrow> alt_svc_get (cs_alt_svc st) k = Some v)"

lemma memory_world [simp]: "memory_kept st (set_world w st)"
  by (simp add: memory_kept_def)

interpretation net: network_frame E cl memory_kept for E cl
  by unfold_locales
    (auto simp: dial_route_def on_world_def send_begin_def send_finish_def split: prod.splits,
     auto simp: memory_kept_def alt_svc.get_evict split: if_splits)

section \<open>What an exchange leaves behind\<close>

definition cookie_lines where
  "cookie_lines E resp = List.map_filter (hv_to_str (env_headers E))
     (hm_get_all (env_headers E) (rs_headers resp) ''set-cookie'')"

definition asks_hint where
  "asks_hint E resp \<longleftrightarrow> (case header_text (env_headers E) (rs_headers resp) ''accept-ch'' of
     Some t \<Rightarrow> str_contains (to_lowercase t) ''sec-ch-ua-platform-version'' | None \<Rightarrow> False)"

definition service_entry where
  "service_entry E x =
    (case header_text (env_headers E) (rs_headers (snd x)) ''alt-svc'' of
       Some t \<Rightarrow>
         if str_contains t ''h3''
         then Some (unwrap_or (url_host_str (env_url E) (fst x)) [] @ '':'' @
                show_word (unwrap_or (url_port (env_url E) (fst x)) 443), t)
         else None
     | None \<Rightarrow> None)"

definition cookies_after where
  "cookies_after E xs k = fold (\<lambda>x. fold (\<lambda>s. env_store E s (fst x)) (cookie_lines E (snd x))) xs k"

definition hints_after where
  "hints_after E xs hs =
     hs \<union> set (map (\<lambda>x. url_origin_ascii (env_url E) (fst x)) (filter (\<lambda>x. asks_hint E (snd x)) xs))"

lemma store_cookie_values_fold:
  "store_cookie_values E u vs k = fold (\<lambda>s. env_store E s u) (List.map_filter (hv_to_str (env_headers E)) vs) k"
  by (induction vs arbitrary: k) (simp_all add: List.map_filter_simps split: option.split)

lemma hop_outcome_memory:
  assumes "hop_outcome E rd u resp st = Some (r, st')"
    and "\<not> lk_poisoned (cs_cookies st)" "\<not> lk_poisoned (cs_hints st)"
  shows "lk_value (cs_cookies st') = cookies_after E [(u, resp)] (lk_value (cs_cookies st))"
    and "lk_value (cs_hints st') = hints_after E [(u, resp)] (lk_value (cs_hints st))"
    and "alt_svc_get (cs_alt_svc st') k = Some v \<Longrightarrow>
      alt_svc_get (cs_alt_svc st) k = Some v \<or> service_entry E (u, resp) = Some (k, v)"
proof -
  have same: "cs_cookies (store_hints E resp u s) = cs_cookies s" "cs_alt_svc (store_hints E resp u s) = cs_alt_svc s"
    "cs_cookies (store_alt_svc E resp u s) = cs_cookies s" "cs_hints (store_alt_svc E resp u s) = cs_hints s"
    "cs_hints (store_cookies E resp u s) = cs_hints s" "cs_alt_svc (store_cookies E resp u s) = cs_alt_svc s" for s
    by (simp_all add: store_hints_def store_alt_svc_def store_cookies_def Let_def split: option.split)
  note st' = hop_outcome_state[OF assms(1)]
  show "lk_value (cs_cookies st') = cookies_after E [(u, resp)] (lk_value (cs_cookies st))"
    using assms(2) by (simp add: st' same store_cookies_def lk_modify_def cookies_after_def cookie_lines_def
        store_cookie_values_fold)
  show "lk_value (cs_hints st') = hints_after E [(u, resp)] (lk_value (cs_hints st))"
    using assms(3) by (auto simp: st' same store_hints_def lk_modify_def hints_after_def asks_hint_def split: option.splits)
  assume "alt_svc_get (cs_alt_svc st') k = Some v"
  then show "alt_svc_get (cs_alt_svc st) k = Some v \<or> service_entry E (u, resp) = Some (k, v)"
    by (auto simp: st' same store_alt_svc_def Let_def alt_svc.get_put service_entry_def split: option.splits if_splits)
qed

section \<open>Along the calls\<close>

definition remembers where
  "remembers E st xs st' \<longleftrightarrow>
     lk_value (cs_cookies st') = cookies_after E xs (lk_value (cs_cookies st)) \<and>
     lk_value (cs_hints st') = hints_after E xs (lk_value (cs_hints st)) \<and>
     (\<forall>k v. alt_svc_get (cs_alt_svc st') k = Some v \<longrightarrow>
        alt_svc_get (cs_alt_svc st) k = Some v \<or> (\<exists>x \<in> set xs. service_entry E x = Some (k, v)))"

lemma remembers_kept: "memory_kept st st' \<Longrightarrow> remembers E st [] st'"
  by (auto simp: remembers_def memory_kept_def cookies_after_def hints_after_def)

lemma remembers_append:
  assumes "remembers E st xs st1" "remembers E st1 ys st2"
  shows "remembers E st (xs @ ys) st2"
proof -
  have "cookies_after E (xs @ ys) k = cookies_after E ys (cookies_after E xs k)"
    "hints_after E (xs @ ys) hs = hints_after E ys (hints_after E xs hs)" for k hs
    by (simp_all add: cookies_after_def hints_after_def Un_assoc)
  moreover have "alt_svc_get (cs_alt_svc st) k = Some v \<or> (\<exists>x \<in> set (xs @ ys). service_entry E x = Some (k, v))"
    if "alt_svc_get (cs_alt_svc st2) k = Some v" for k v
  proof -
    have "alt_svc_get (cs_alt_svc st1) k = Some v \<or> (\<exists>x \<in> set ys. service_entry E x = Some (k, v))"
      using assms(2) that by (simp add: remembers_def)
    then show ?thesis using assms(1) unfolding remembers_def by fastforce
  qed
  ultimately show ?thesis using assms by (simp add: remembers_def)
qed

text \<open>A call in the network part has read both stores: their locks are not poisoned.\<close>

definition usable where
  "usable st \<longleftrightarrow> \<not> lk_poisoned (cs_cookies st) \<and> \<not> lk_poisoned (cs_hints st)"

lemma usable_kept: "memory_kept st st' \<Longrightarrow> usable st' = usable st"
  by (simp add: usable_def memory_kept_def)

lemma begin_hop_usable: "begin_hop E cl ctx hop rd st = (Inr x, st') \<Longrightarrow> usable st"
  by (auto simp: begin_hop_def Let_def try_st_Inr_iff lk_get_def usable_def split: option.splits if_splits)

lemma usable_stores:
  "usable (store_cookies E resp u st) = usable st" "usable (store_hints E resp u st) = usable st"
  "usable (store_alt_svc E resp u st) = usable st"
  by (simp_all add: usable_def store_cookies_def store_hints_def store_alt_svc_def Let_def split: option.split)

lemma hop_outcome_usable: "hop_outcome E rd u resp st = Some (r, st') \<Longrightarrow> usable st' = usable st"
  by (drule hop_outcome_state) (simp add: usable_stores)

definition recalls where
  "recalls E st s \<longleftrightarrow> remembers E st (ca_log s) (rc_client (ca_race s)) \<and>
     (\<forall>t. in_network (ca_call s t) \<longrightarrow> usable (rc_client (ca_race s)))"

lemma recalls_kept:
  assumes "recalls E st s" "memory_kept (rc_client (ca_race s)) (rc_client (ca_race s'))" "ca_log s' = ca_log s"
    and "\<And>u. in_network (ca_call s' u) \<Longrightarrow> in_network (ca_call s u) \<or> usable (rc_client (ca_race s))"
  shows "recalls E st s'"
  using assms remembers_append[OF _ remembers_kept[OF assms(2)], of E st "ca_log s"] usable_kept[OF assms(2)]
  by (auto simp: recalls_def)

lemma recalls_step:
  fixes E :: "('b, 'tc, 'qc, 'hc, 'q, 'u, 'r, 'h, 'k, 'w) client_env" and cl :: client
  assumes inv: "recalls E st s" and step: "call_step E cl ctx t s = Some s'"
  shows "recalls E st s'"
  using step
proof (cases rule: call_step_cases)
  case (start hop rd)
  show ?thesis
  proof (cases rule: start_hop_cases[of hop E cl ctx rd t s])
    case limit
    with inv start show ?thesis by (intro recalls_kept[OF inv]) (auto simp: net.R_refl split: if_splits)
  next
    case (error e st)
    with start net.R_begin_hop[OF error(2)] show ?thesis
      by (intro recalls_kept[OF inv]) (auto split: if_splits)
  next
    case (go u ro parts st)
    with start net.R_begin_hop[OF go(2)] begin_hop_usable[OF go(2)] show ?thesis
      by (intro recalls_kept[OF inv]) auto
  qed
next
  case (network hop rd u ro parts r)
  with net.R_task_step[OF network(2)] show ?thesis by (intro recalls_kept[OF inv]) auto
next
  case (finish hop rd u ro parts r)
  then have usable: "usable (rc_client (ca_race s))" using inv by (auto simp: recalls_def dest!: spec[of _ t])
  from finish(3) show ?thesis
  proof (cases rule: finish_hop_cases)
    case (failed e)
    then show ?thesis by (intro recalls_kept[OF inv]) (auto simp: net.R_refl split: if_splits)
  next
    case (answered resp x st1)
    have "remembers E (rc_client (ca_race s)) [(u, resp)] st1"
      using hop_outcome_memory[OF answered(2)] usable by (simp add: remembers_def usable_def)
    with inv have "remembers E st (ca_log s @ [(u, resp)]) st1"
      by (auto simp: recalls_def intro: remembers_append)
    with answered usable hop_outcome_usable[OF answered(2)] show ?thesis by (simp add: recalls_def)
  qed
qed

lemma recalls_steps:
  fixes E :: "('b, 'tc, 'qc, 'hc, 'q, 'u, 'r, 'h, 'k, 'w) client_env" and cl :: client
  shows "(calls_step E cl ctx)\<^sup>*\<^sup>* s s' \<Longrightarrow> recalls E st s \<Longrightarrow> recalls E st s'"
  by (induction rule: rtranclp_induct) (auto intro: recalls_step elim: calls_stepE)

lemma recalls_start: "calls_start s \<Longrightarrow> recalls E (rc_client (ca_race s)) s"
  using remembers_kept[of "rc_client (ca_race s)" "rc_client (ca_race s)"]
  by (auto simp: recalls_def calls_start_def memory_kept_def) (metis in_network.simps(2,3))

end
