(* ===== verification/Calls_Identity.thy ===== *)
theory Calls_Identity imports Client_Calls begin

text \<open>
  The identity of a client (\<open>src/client/pool.rs\<close>, \<open>connector.rs\<close>, \<open>request.rs\<close>, \<open>quic.rs\<close>): whatever
  it sends over the life of a request is determined by its one profile. The statement is a
  noninterference one: an environment that refuses every handshake, preface and request not of the
  profile cannot be told from the original, by a single call or by calls that run interleaved.
\<close>

section \<open>The requests of an identity\<close>

text \<open>The headers that tell a browser, its platform and its codecs, each with its text.\<close>

definition identity_headers :: "chrome_profile \<Rightarrow> (string \<times> string) list" where
  "identity_headers p =
    [(''user-agent'', hdr_user_agent (cp_headers p)),
     (''sec-ch-ua'', hdr_sec_ch_ua (cp_headers p)),
     (''sec-ch-ua-mobile'', ''?0''),
     (''sec-ch-ua-platform'', hdr_sec_ch_ua_platform (cp_headers p)),
     (''accept-encoding'', accept_encoding (hdr_zstd_encoding (cp_headers p))),
     (''accept-language'', hdr_accept_language (cp_headers p))]"

text \<open>Of a header map over HTTP/2, and of a list of header lines over HTTP/3: each stands there once.\<close>

definition map_in_identity :: "'h header_ops \<Rightarrow> chrome_profile \<Rightarrow> 'h \<Rightarrow> bool" where
  "map_in_identity H p h \<longleftrightarrow> list_all (\<lambda>(n, t). hm_get_all H h n =
     (if visible_text t then [plain_value t] else [])) (identity_headers p)"

definition lines_in_identity :: "chrome_profile \<Rightarrow> (string \<times> string) list \<Rightarrow> bool" where
  "lines_in_identity p hs \<longleftrightarrow> list_all (\<lambda>(n, t). map snd (filter (\<lambda>kv. fst kv = n) hs) =
     (if visible_text t then [t] else [])) (identity_headers p)"

lemma chrome_header_identity:
  "chrome_header hp site i ctx ach ref ''user-agent'' = if_visible (hdr_user_agent hp)"
  "chrome_header hp site i ctx ach ref ''sec-ch-ua'' = if_visible (hdr_sec_ch_ua hp)"
  "chrome_header hp site i ctx ach ref ''sec-ch-ua-mobile'' = Some ''?0''"
  "chrome_header hp site i ctx ach ref ''sec-ch-ua-platform'' = if_visible (hdr_sec_ch_ua_platform hp)"
  "chrome_header hp site i ctx ach ref ''accept-language'' = if_visible (hdr_accept_language hp)"
  by (simp_all add: chrome_header_def header_table_def case_prod_beta split del: if_split)

lemma request_headers_in_identity:
  assumes "header_map (env_headers E)"
  shows "map_in_identity (env_headers E) p (request_headers E p parts)"
  by (simp add: map_in_identity_def identity_headers_def request_header_values[OF assms refl]
      chrome_header_identity chrome_header_values if_visible_def visible_static mark_sensitive_def)

lemma identity_header_names: "(n, t) \<in> set (identity_headers p) \<Longrightarrow> hd n \<noteq> CHR '':''"
  by (auto simp: identity_headers_def)

lemma session_headers_in_identity:
  assumes "header_map H" "map_in_identity H p (rq_headers req)"
  shows "lines_in_identity p (session_headers R H req)"
  unfolding lines_in_identity_def list_all_iff
proof (intro ballI, clarify)
  fix n t
  assume nt: "(n, t) \<in> set (identity_headers p)"
  have colon: "n \<noteq> CHR '':'' # s" for s using identity_header_names[OF nt] by auto
  have "map snd (filter (\<lambda>kv. fst kv = n) (session_headers R H req)) =
      map hv_bytes (map snd (filter (\<lambda>kv. fst kv = n) (hm_iter H (rq_headers req))))"
    by (simp add: session_headers_def filter_map o_def case_prod_beta colon[symmetric])
  also have "\<dots> = map hv_bytes (hm_get_all H (rq_headers req) n)"
    by (simp only: header_map.iter_get_all[OF assms(1)])
  finally show "map snd (filter (\<lambda>kv. fst kv = n) (session_headers R H req)) = (if visible_text t then [t] else [])"
    using assms(2) nt by (auto simp: map_in_identity_def list_all_iff plain_value_def)
qed

section \<open>An environment that checks\<close>

text \<open>
  \<open>E\<close>, refusing a TLS handshake on any context but the one the profile \<open>p\<close> sets up, an HTTP/2
  preface that is not the profile's, a QUIC connection with another configuration, and a request,
  on either protocol, whose headers are not of the identity.
\<close>

definition strict_stack where
  "strict_stack E p =
    (env_stack E)
     \<lparr>tls_handshake := (\<lambda>c host s w.
        if tls_setup (env_ssl E) (env_stack E) p = Inr c then tls_handshake (env_stack E) c host s w
        else (Inl ''TLS context of another identity'', w)),
      h2_handshake := (\<lambda>calls tls w.
        if calls = configure_builder (cp_h2 p) then h2_handshake (env_stack E) calls tls w
        else (Inl ''HTTP/2 preface of another identity'', w)),
      h2_send_request := (\<lambda>h req eos w.
        if map_in_identity (env_headers E) p (rq_headers req) then h2_send_request (env_stack E) h req eos w
        else (Inl ''request of another identity'', w))\<rparr>"

definition strict_channel where
  "strict_channel E p =
    (env_channel E)
     \<lparr>ch_send := (\<lambda>tx cmd w.
        if lines_in_identity p (cmd_headers cmd) then ch_send (env_channel E) tx cmd w
        else (Inl ''request of another identity'', w))\<rparr>"

definition strict_env where
  "strict_env E p =
    E\<lparr>env_stack := strict_stack E p, env_channel := strict_channel E p,
      env_quiche_connect := (\<lambda>name local peer c.
        if quic_client_config (env_quic E) p = Inr c then env_quiche_connect E name local peer c
        else Inl ''QUIC configuration of another identity'')\<rparr>"

lemma strict_env_simps [simp]:
  "env_ssl (strict_env E p) = env_ssl E" "env_tcp (strict_env E p) = env_tcp E"
  "env_quic (strict_env E p) = env_quic E" "env_url (strict_env E p) = env_url E"
  "env_uri (strict_env E p) = env_uri E" "env_headers (strict_env E p) = env_headers E"
  "env_dns (strict_env E p) = env_dns E" "env_udp_bind (strict_env E p) = env_udp_bind E"
  "env_udp_connect (strict_env E p) = env_udp_connect E" "env_spawn (strict_env E p) = env_spawn E"
  "env_matches (strict_env E p) = env_matches E" "env_store (strict_env E p) = env_store E"
  "env_stack (strict_env E p) = strict_stack E p" "env_channel (strict_env E p) = strict_channel E p"
  by (simp_all add: strict_env_def)

section \<open>No operation can tell it from the original\<close>

lemma strict_stack_simps [simp]:
  "tls_configure (strict_stack E p) = tls_configure (env_stack E)"
  "tls_status_ocsp (strict_stack E p) = tls_status_ocsp (env_stack E)"
  "enable_ech_grease (strict_stack E p) = enable_ech_grease (env_stack E)"
  "add_application_settings (strict_stack E p) = add_application_settings (env_stack E)"
  "h2_ready (strict_stack E p) = h2_ready (env_stack E)"
  "h2_send_data (strict_stack E p) = h2_send_data (env_stack E)"
  "h2_response (strict_stack E p) = h2_response (env_stack E)"
  "tls_setup (env_ssl E) (env_stack E) p = Inr c \<Longrightarrow>
    tls_handshake (strict_stack E p) c host s w = tls_handshake (env_stack E) c host s w"
  "h2_handshake (strict_stack E p) (configure_builder (cp_h2 p)) tls w =
    h2_handshake (env_stack E) (configure_builder (cp_h2 p)) tls w"
  "map_in_identity (env_headers E) p (rq_headers req) \<Longrightarrow>
    h2_send_request (strict_stack E p) h req eos w = h2_send_request (env_stack E) h req eos w"
  by (simp_all add: strict_stack_def)

lemma tls_setup_strict: "tls_setup B (strict_stack E p) q = tls_setup B (env_stack E) q"
  by (simp add: tls_setup_def Let_def cong: deep_cong)

lemma connect_quik_strict:
  "connect_quik (env_ssl E) (strict_stack E p) T host port addr p proxy w =
   connect_quik (env_ssl E) (env_stack E) T host port addr p proxy w"
  by (cases "tls_setup (env_ssl E) (env_stack E) p")
    (simp_all add: connect_quik_def tls_setup_strict cong: deep_cong)

lemma dial_strict: "dial (strict_env E p) p proxy a n h3 w = dial E p proxy a n h3 w"
proof -
  have resolve: "resolve (strict_env E p) t w = resolve E t w" for t w by (simp add: resolve_def)
  have "dial_h3 (strict_env E p) p a n w = dial_h3 E p a n w"
    by (cases "quic_client_config (env_quic E) p")
      (simp_all add: dial_h3_def resolve, simp_all add: strict_env_def)
  then show ?thesis by (simp add: dial_def resolve connect_quik_strict)
qed

lemma dial_route_strict:
  "dial_route (strict_env E (cl_profile cl)) cl ro h3 st = dial_route E cl ro h3 st"
  by (simp add: dial_route_def on_world_def dial_strict)

lemma establish_strict: "establish (strict_env E (cl_profile cl)) cl ro st = establish E cl ro st"
  by (simp add: establish_def dial_route_strict cong: deep_cong)

lemma acquire_loop_strict:
  "acquire_loop (strict_env E (cl_profile cl)) cl ro st = acquire_loop E cl ro st"
proof (induction E cl ro st rule: acquire_loop.induct)
  case (1 E cl ro st)
  then show ?case
    by (subst (1 2) acquire_loop.simps)
      (auto simp: establish_strict split: option.split pooled_connection.split sum.split prod.split)
qed

lemma acquire_strict: "acquire (strict_env E (cl_profile cl)) cl ro st = acquire E cl ro st"
  by (simp add: acquire_def acquire_loop_strict)

lemma fallback_connection_strict:
  "fallback_connection (strict_env E (cl_profile cl)) cl ro = fallback_connection E cl ro"
  by (rule ext) (simp add: fallback_connection_def dial_route_strict Let_def cong: deep_cong)

lemma build_request_strict: "build_request (strict_env E p) q parts = build_request E q parts"
  by (simp add: build_request_def request_headers_def cong: deep_cong)

lemma build_request_in_identity:
  "header_map (env_headers E) \<Longrightarrow> build_request E p parts = Inr req \<Longrightarrow>
   map_in_identity (env_headers E) p (rq_headers req)"
  by (auto simp: build_request_def and_then_Inr_iff request_headers_in_identity split: option.splits)

lemma send_begin_strict:
  assumes "header_map (env_headers E)" "map_in_identity (env_headers E) p (rq_headers req)"
  shows "send_begin (strict_env E p) conn req body = send_begin E conn req body"
proof -
  have "lines_in_identity p (session_headers (env_uri E) (env_headers E) req)"
    using assms by (rule session_headers_in_identity)
  then have "session_begin (env_uri E) (env_headers E) (strict_channel E p) s req body w =
      session_begin (env_uri E) (env_headers E) (env_channel E) s req body w" for s w
    by (simp add: session_begin_def strict_channel_def Let_def)
  moreover have "conn_begin (env_uri E) (strict_stack E p) c req body w =
      conn_begin (env_uri E) (env_stack E) c req body w" for c w
    using assms(2) by (simp add: conn_begin_def Let_def cong: deep_cong)
  ultimately show ?thesis by (simp add: send_begin_def pooled_begin_def fun_eq_iff cong: deep_cong)
qed

lemma send_finish_strict: "send_finish (strict_env E p) = send_finish E"
  by (simp add: send_finish_def pooled_finish_def conn_finish_def session_finish_def strict_channel_def
      fun_eq_iff cong: in_flight.case_cong)

lemma send_pooled_strict:
  assumes "header_map (env_headers E)" "map_in_identity (env_headers E) p (rq_headers req)"
  shows "send_pooled (strict_env E p) conn req body = send_pooled E conn req body"
  by (rule ext) (simp add: send_parts send_begin_strict[OF assms] send_finish_strict)

lemma send_with_fallback_strict:
  assumes "header_map (env_headers E)"
  shows "send_with_fallback (strict_env E (cl_profile cl)) cl ro conn parts body =
    send_with_fallback E cl ro conn parts body"
proof (cases "build_request E (cl_profile cl) parts")
  case (Inr req)
  note strict = send_pooled_strict[OF assms build_request_in_identity[OF assms Inr]]
  show ?thesis
    by (rule ext) (simp add: send_with_fallback_def build_request_strict Inr strict fallback_connection_strict
        cong: deep_cong)
qed (auto simp: send_with_fallback_def build_request_strict)

lemma store_cookie_values_strict:
  "store_cookie_values (strict_env E p) u vs = store_cookie_values E u vs"
  by (rule ext, rule store_cookie_values.induct[of "\<lambda>E u vs k. store_cookie_values (strict_env E p) u vs k =
      store_cookie_values E u vs k"])
    (simp_all cong: deep_cong)

lemma stores_strict:
  "store_cookies (strict_env E p) resp u st = store_cookies E resp u st"
  "store_hints (strict_env E p) resp u st' = store_hints E resp u st'"
  "store_alt_svc (strict_env E p) resp u st'' = store_alt_svc E resp u st''"
  by (simp_all add: store_cookies_def store_hints_def store_alt_svc_def store_cookie_values_strict Let_def
      cong: deep_cong)

lemma hop_outcome_strict:
  "hop_outcome (strict_env E p) rd parsed_url resp st = hop_outcome E rd parsed_url resp st"
  by (simp add: hop_outcome_def stores_strict Let_def cong: deep_cong)

lemma run_hop_strict:
  assumes "header_map (env_headers E)"
  shows "run_hop (strict_env E (cl_profile cl)) cl ctx hop rd st = run_hop E cl ctx hop rd st"
  by (simp add: run_hop_def acquire_strict send_with_fallback_strict[OF assms] hop_parts_def hop_outcome_strict Let_def
      cong: deep_cong)

lemma run_hops_strict:
  "header_map (env_headers E) \<Longrightarrow>
   run_hops (strict_env E (cl_profile cl)) cl ctx n rd st = run_hops E cl ctx n rd st"
  by (induction n arbitrary: rd st) (simp_all add: run_hop_strict cong: hop_result.case_cong)

text \<open>The steps of interleaved calls.\<close>

lemma task_step_strict:
  assumes "header_map (env_headers E)"
  shows "task_step (strict_env E (cl_profile cl)) cl ro job t s = task_step E cl ro job t s"
proof -
  let ?E = "strict_env E (cl_profile cl)"
  have sends: "send_begin ?E conn req body = send_begin E conn req body"
    if "build_request E (cl_profile cl) parts = Inr req" for conn parts req body
    using send_begin_strict[OF assms build_request_in_identity[OF assms that]] .
  have "send_step ?E cl ro t conn job s = send_step E cl ro t conn job s" for conn
    by (cases "build_request E (cl_profile cl) (fst job)") (simp_all add: send_step_def build_request_strict sends)
  moreover have "resend_send_step ?E cl ro t conn job s = resend_send_step E cl ro t conn job s" for conn
    by (cases "build_request E (cl_profile cl) (fst job)")
      (simp_all add: resend_send_step_def build_request_strict sends)
  moreover have "await_step ?E ro t conn f s = await_step E ro t conn f s"
    "resend_await_step ?E ro t f s = resend_await_step E ro t f s" for conn f
    by (simp_all add: await_step_def resend_await_step_def send_finish_strict)
  moreover have "redial_step ?E cl ro t kok kerr s = redial_step E cl ro t kok kerr s" for kok kerr
    by (simp add: redial_step_def dial_route_strict)
  moreover have "dial_step ?E cl ro t s = dial_step E cl ro t s" by (simp add: dial_step_def dial_route_strict)
  moreover have "probe_step ?E ro t conn s = probe_step E ro t conn s" for conn by (simp add: probe_step_def)
  moreover have "resend_probe_step ?E ro t conn s = resend_probe_step E ro t conn s" for conn
    by (simp add: resend_probe_step_def)
  ultimately show ?thesis by (cases "rc_point s t") (simp_all add: task_step_def)
qed

lemma start_hop_strict: "start_hop (strict_env E p) cl ctx hop rd t s = start_hop E cl ctx hop rd t s"
  by (simp add: start_hop_def begin_hop_def hop_parts_def Let_def cong: deep_cong)

lemma call_step_strict:
  assumes "header_map (env_headers E)"
  shows "call_step (strict_env E (cl_profile cl)) cl ctx t s = call_step E cl ctx t s"
  by (simp add: call_step_def start_hop_strict finish_hop_def hop_outcome_strict task_step_strict[OF assms]
      cong: deep_cong call.case_cong point.case_cong)

lemma calls_step_strict:
  assumes "header_map (env_headers E)"
  shows "calls_step (strict_env E (cl_profile cl)) cl ctx = calls_step E cl ctx"
  by (intro ext iffI) (auto elim!: calls_stepE intro: call_moves simp: call_step_strict[OF assms])

section \<open>Property\<close>

text \<open>
  C6 (safety). One identity through everything: over a whole chain of redirects, with every dial,
  pooled connection and fallback on the way, the client only makes TLS handshakes on the context
  of its profile, only opens HTTP/2 with the profile's preface and QUIC with the profile's
  configuration, and only sends requests, over HTTP/2 and HTTP/3 alike, in which the
  headers of the identity stand exactly once with the profile's texts. An environment that
  refuses anything else gives every call the same result and the same state, and calls that run
  interleaved the same steps.
\<close>

theorem client_keeps_identity:
  assumes "header_map (env_headers E)"
  shows "execute_with_redirects (strict_env E (cl_profile cl)) cl m url body ctx st =
      execute_with_redirects E cl m url body ctx st \<and>
    calls_step (strict_env E (cl_profile cl)) cl ctxs = calls_step E cl ctxs"
  by (rule conjI) (simp add: execute_with_redirects_def run_hops_strict[OF assms], rule calls_step_strict[OF assms])

theorem client_keeps_identity_witness:
  "\<exists>resp st. client_get (strict_env toy_env sample_profile) toy_client ''https://a.example/'' (toy_state [(200, [])]) =
     Some (Inr resp, st) \<and> rs_status resp = 200"
proof -
  let ?R = "client_get toy_env toy_client ''https://a.example/'' (toy_state [(200, [])])"
  have "map_option (\<lambda>(r, st). case r of Inr resp \<Rightarrow> rs_status resp = 200 | Inl e \<Rightarrow> False) ?R = Some True"
    by code_simp
  then obtain r st where r: "?R = Some (r, st)" "case r of Inr resp \<Rightarrow> rs_status resp = 200 | Inl e \<Rightarrow> False" by auto
  then obtain resp where resp: "?R = Some (Inr resp, st)" "rs_status resp = 200" by (cases r) auto
  have headers: "header_map (env_headers toy_env)"
    using assoc.header_map_axioms by (simp add: toy_env_def)
  have "cl_profile toy_client = sample_profile" by (simp add: toy_client_def)
  with client_keeps_identity[OF headers, THEN conjunct1, of toy_client] resp show ?thesis by (simp add: client_get_def)
qed

text \<open>The check is a real one: under the identity of another persona the same request is refused.\<close>

definition other_profile :: chrome_profile where
  "other_profile = fst (the (chrome_134_macos_arm replay_rng [0, 0, 0]))"

lemma strict_env_refuses:
  "map_option (\<lambda>(r, st). r) (client_get (strict_env toy_env other_profile) toy_client ''https://a.example/''
     (toy_state [(200, [])])) = Some (Inl (Fail (Http2Error ''request of another identity'')))"
  by code_simp

end
