(* ===== verification/Calls_Claims.thy ===== *)
theory Calls_Claims imports Client_Redirect Pool_Claims Calls_Progress Calls_Alone Calls_Pool Calls_History Calls_Identity begin

text \<open>The properties of calls that share a client, with their witnesses.\<close>

section \<open>Samples\<close>

text \<open>The run in which the calls of a list move one after the other, each as a navigation.\<close>

fun call_schedule where
  "call_schedule E cl [] s = Some s"
| "call_schedule E cl (t # ts) s = Option.bind (call_step E cl Navigate t s) (call_schedule E cl ts)"

abbreviation navigations :: "nat \<Rightarrow> request_context" where
  "navigations \<equiv> (\<lambda>t. Navigate)"

lemma call_schedule_steps:
  "call_schedule E cl ts s = Some s' \<Longrightarrow> (calls_step E cl navigations)\<^sup>*\<^sup>* s s'"
  by (induction ts arbitrary: s)
    (auto simp: bind_eq_Some_conv intro: call_moves converse_rtranclp_into_rtranclp)

text \<open>\<open>n\<close> calls of the sample client, all for one URL.\<close>

definition toy_calls :: "nat \<Rightarrow> ((string \<times> string) list, toy_world) client_state \<Rightarrow>
    ((string \<times> string) list, toy_world, web_url, assoc_map) calls" where
  "toy_calls n st =
    \<lparr>ca_race = start_at (Answered (Inl pool_poisoned)) st,
     ca_call = (\<lambda>t. if t < n then Between 0 (first_request ''GET'' ''https://a.example/'' None)
       else Ended (Inl (Fail pool_poisoned))),
     ca_log = []\<rparr>"

abbreviation toy_run where
  "toy_run ts n st \<equiv> call_schedule toy_env toy_client ts (toy_calls n st)"

lemma toy_calls_start: "calls_start (toy_calls n st)"
  by (auto simp: calls_start_def toy_calls_def)

lemma toy_proxy: "proxy_returns (env_tcp toy_env) (cl_proxy toy_client)"
  by (simp add: proxy_returns_def toy_client_def)

lemma toy_states_ok: "slots_ok p (toy_state script)" "slots_ok sample_profile dead_session_state"
  by (auto simp: slots_ok_def slot_def toy_state_def new_state_def new_lock_def dead_session_state_def set_slot_def
      fits_def toy_session_def toy_key_def)

text \<open>Two calls have come to the empty slot, and one of them has claimed it.\<close>

lemma toy_claimed:
  obtains s where "toy_run [0, 1, 0, 1, 0] 2 (toy_state [(200, [])]) = Some s"
    "toy_key ''h2'' \<in> set (holds (routes_in s 0) (rc_point (ca_race s) 0))"
    "waits_for (routes_in s 1) (rc_point (ca_race s) 1) = Some (toy_key ''h2'')" "\<not> ended (ca_call s 1)"
proof -
  have "map_option (\<lambda>s. (holds (routes_in s 0) (rc_point (ca_race s) 0), waits_for (routes_in s 1) (rc_point (ca_race s) 1),
      ended (ca_call s 1))) (toy_run [0, 1, 0, 1, 0] 2 (toy_state [(200, [])])) =
    Some ([toy_key ''h2''], Some (toy_key ''h2''), False)" by code_simp
  then show ?thesis using that by auto
qed

section \<open>Properties\<close>



text \<open>
  C9 (liveness). Calls on a client never deadlock: as long as one has no outcome, some call can take
  its next step, although a call that falls back holds the HTTP/3 slot while it waits for the
  HTTP/2 slot: slots are always taken in this order.
\<close>

theorem pool_never_deadlocks:
  assumes "calls_start s0" "(calls_step E cl ctx)\<^sup>*\<^sup>* s0 s"
    and "proxy_returns (env_tcp E) (cl_proxy cl)" "\<not> ended (ca_call s t)"
  shows "\<exists>s'. calls_step E cl ctx s s'"
  using some_call_goes[OF calls.run_inv[OF assms(1,2)] assms(3,4)] .

theorem pool_never_deadlocks_witness:
  "\<exists>s s'. toy_run [0, 1, 0, 1, 0] 2 (toy_state [(200, [])]) = Some s \<and> calls_step toy_env toy_client navigations s s'"
proof (rule toy_claimed)
  fix s
  assume s: "toy_run [0, 1, 0, 1, 0] 2 (toy_state [(200, [])]) = Some s" "\<not> ended (ca_call s 1)"
  from pool_never_deadlocks[OF toy_calls_start call_schedule_steps[OF s(1)] toy_proxy s(2)] s(1) show ?thesis by blast
qed



text \<open>
  C7 (refinement). The sequential client is the interleaved one with a single call running: from a
  state with all mutexes free, the steps of one call (its dials, probes, fallbacks and redirects)
  lead to exactly the outcome and the client state that \<open>execute_with_redirects\<close> computes, with every
  mutex released at the end, whatever other calls have done before or wait to do.
\<close>

theorem sequential_client_runs_alone:
  assumes "\<forall>k. rc_holder (ca_race s) k = None" "finished (rc_point (ca_race s) t)"
    and "ca_call s t = Between 0 (first_request m url b)"
    and "execute_with_redirects E cl m url b (ctx t) (rc_client (ca_race s)) = Some (r, st)"
  shows "\<exists>s'. (calls_step E cl ctx)\<^sup>*\<^sup>* s s' \<and> rc_client (ca_race s') = st \<and>
    ca_call s' = (ca_call s)(t := Ended r) \<and> (\<forall>k. rc_holder (ca_race s') k = None)"
proof -
  have "run_hops E cl (ctx t) redirect_limit (first_request m url b) (rc_client (ca_race s)) = Some (r, st)"
    using assms(4) by (simp add: execute_with_redirects_def)
  from hops_alone[where ctx = ctx, OF this le_refl assms(1,2)] assms(3)
  show ?thesis by (auto simp: rests_at_def)
qed

theorem sequential_client_runs_alone_witness:
  "\<exists>s' resp. (calls_step toy_env toy_client navigations)\<^sup>*\<^sup>* (toy_calls 1 (toy_state loop_script)) s' \<and>
     ca_call s' 0 = Ended (Inr resp) \<and> rs_url resp = ''https://a.example/again''"
proof -
  let ?s = "toy_calls 1 (toy_state loop_script)"
  let ?run = "execute_with_redirects toy_env toy_client ''GET'' ''https://a.example/'' None Navigate (toy_state loop_script)"
  have "map_option (\<lambda>(r, st). case r of Inr resp \<Rightarrow> rs_url resp = ''https://a.example/again'' | Inl e \<Rightarrow> False) ?run =
      Some True" by code_simp
  then obtain r st where r: "?run = Some (r, st)"
    "case r of Inr resp \<Rightarrow> rs_url resp = ''https://a.example/again'' | Inl e \<Rightarrow> False" by auto
  then obtain resp where run: "?run = Some (Inr resp, st)" "rs_url resp = ''https://a.example/again''" by (cases r) auto
  have "\<exists>s'. (calls_step toy_env toy_client navigations)\<^sup>*\<^sup>* ?s s' \<and> rc_client (ca_race s') = st \<and>
      ca_call s' = (ca_call ?s)(0 := Ended (Inr resp)) \<and> (\<forall>k. rc_holder (ca_race s') k = None)"
    by (rule sequential_client_runs_alone[where m = "''GET''" and url = "''https://a.example/''" and b = None])
      (use run(1) in \<open>simp_all add: toy_calls_def\<close>)
  then obtain s' where "(calls_step toy_env toy_client navigations)\<^sup>*\<^sup>* ?s s'"
    "ca_call s' = (ca_call ?s)(0 := Ended (Inr resp))" by blast
  with run(2) show ?thesis by (intro exI[of _ s'] exI[of _ resp]) simp
qed

text \<open>
  C23 (type). In every state that calls on a client can reach, in whatever order they take their
  steps, the connection in a slot is of the protocol of the slot's key and was negotiated with the
  client's own profile: an HTTP/2 key never yields an HTTP/3 session, so a fallback goes over TCP,
  and no request goes out under another identity.
\<close>

theorem pool_slots_match_keys:
  assumes "calls_start s0" "slots_ok (cl_profile cl) (rc_client (ca_race s0))" "(calls_step E cl ctx)\<^sup>*\<^sup>* s0 s"
    and "q \<in> {''h2'', ''h3''}" "slot (pool_key p a n q) (rc_client (ca_race s)) = Some c"
  shows "conn_proto c = q \<and> conn_profile c = cl_profile cl"
proof -
  have "pool_start (cl_profile cl) s0" using assms(1,2) by (simp add: pool_start_def)
  then have "calls_pool (cl_profile cl) s" using assms(3) by (rule pooled.run_inv)
  then have "fits (cl_profile cl) (pool_key p a n q) c"
    using assms(5) by (auto simp: calls_pool_def pool_inv_def slots_ok_def)
  with assms(4) show ?thesis by (auto simp: fits_def)
qed

text \<open>
  A call whose request fails on the dead HTTP/3 session of the pool and is repeated on the live
  HTTP/2 connection, while a second call waits to start.
\<close>

definition both_slots where
  "both_slots = set_slot (toy_key ''h2'') (Some (Http2 toy_h2)) dead_session_state"

lemma both_slots_ok: "slots_ok sample_profile both_slots"
  by (auto simp: both_slots_def slots_ok_def dead_session_state_def slot_def toy_state_def new_state_def new_lock_def
      set_slot_def fits_def toy_session_def toy_key_def toy_h2_def)

definition toy_fallback where
  "toy_fallback = toy_run (replicate 8 0) 2 both_slots"

lemma toy_fallback_end:
  obtains s c where "toy_fallback = Some s" "slot (toy_key ''h2'') (rc_client (ca_race s)) = Some c"
    "slot (toy_key ''h3'') (rc_client (ca_race s)) = Some (Http3 toy_session)" "ended (ca_call s 0)"
proof -
  have "map_option (\<lambda>s. (slot (toy_key ''h2'') (rc_client (ca_race s)) = None,
      slot (toy_key ''h3'') (rc_client (ca_race s)), ended (ca_call s 0))) toy_fallback =
    Some (False, Some (Http3 toy_session), True)" by code_simp
  then show ?thesis using that by auto
qed

theorem pool_slots_match_keys_witness:
  "\<exists>s c. toy_fallback = Some s \<and> ended (ca_call s 0) \<and> slot (toy_key ''h2'') (rc_client (ca_race s)) = Some c \<and>
     conn_proto c = ''h2'' \<and> conn_profile c = sample_profile"
proof (rule toy_fallback_end)
  fix s c
  assume s: "toy_fallback = Some s" "slot (toy_key ''h2'') (rc_client (ca_race s)) = Some c" "ended (ca_call s 0)"
  have ok: "slots_ok (cl_profile toy_client) (rc_client (ca_race (toy_calls 2 both_slots)))"
    by (simp add: toy_calls_def toy_client_def both_slots_ok)
  have run: "(calls_step toy_env toy_client navigations)\<^sup>*\<^sup>* (toy_calls 2 both_slots) s"
    using s(1) by (auto simp: toy_fallback_def intro: call_schedule_steps)
  from pool_slots_match_keys[OF toy_calls_start ok run, of "''h2''" None "''a.example''" 443 c] s
  show ?thesis by (auto simp: toy_fallback_def toy_key_def toy_client_def)
qed

text \<open>
  C32 (safety). An HTTP/3 session in the pool is never replaced and never removed: whatever the
  calls on the client do, and also when its driver has stopped and every request on it fails, the
  slot keeps it.
\<close>

theorem h3_slot_never_cleared:
  assumes "calls_start s0" "slots_ok (cl_profile cl) (rc_client (ca_race s0))" "(calls_step E cl ctx)\<^sup>*\<^sup>* s0 s"
    and "slot (pool_key p a n ''h3'') (rc_client (ca_race s)) = Some (Http3 q)" "(calls_step E cl ctx)\<^sup>*\<^sup>* s s'"
  shows "slot (pool_key p a n ''h3'') (rc_client (ca_race s')) = Some (Http3 q)"
proof -
  have "pool_start (cl_profile cl) s0" using assms(1,2) by (simp add: pool_start_def)
  then have "calls_pool (cl_profile cl) s" using assms(3) by (rule pooled.run_inv)
  with calls_pool_steps[OF assms(5)] assms(4) show ?thesis by (simp add: pool_step_def)
qed

theorem h3_slot_never_cleared_witness:
  "\<exists>s'. toy_run (replicate 8 0) 1 dead_session_state = Some s' \<and> ended (ca_call s' 0) \<and>
     length (snd (cs_world (rc_client (ca_race s')))) = 1 \<and>
     slot (toy_key ''h3'') (rc_client (ca_race s')) = Some (Http3 toy_session)"
proof -
  let ?s = "toy_calls 1 dead_session_state"
  have "map_option (\<lambda>s. (ended (ca_call s 0), length (snd (cs_world (rc_client (ca_race s))))))
      (toy_run (replicate 8 0) 1 dead_session_state) = Some (True, 1)" by code_simp
  then obtain s' where s': "toy_run (replicate 8 0) 1 dead_session_state = Some s'" "ended (ca_call s' 0)"
    "length (snd (cs_world (rc_client (ca_race s')))) = 1" by auto
  have ok: "slots_ok (cl_profile toy_client) (rc_client (ca_race ?s))"
    by (simp add: toy_calls_def toy_client_def toy_states_ok)
  have full: "slot (pool_key None ''a.example'' 443 ''h3'') (rc_client (ca_race ?s)) = Some (Http3 toy_session)"
    by (simp add: toy_calls_def dead_session_state_def toy_key_def)
  from h3_slot_never_cleared[OF toy_calls_start ok rtranclp.rtrancl_refl full call_schedule_steps[OF s'(1)]] s'
  show ?thesis by (simp add: toy_key_def)
qed


text \<open>A redirect and its target both set a cookie.\<close>

definition cookie_script :: "(u16 \<times> assoc_map) list" where
  "cookie_script = [(302, [(''location'', plain_value ''/in''), (''set-cookie'', plain_value ''a=1'')]),
     (200, [(''set-cookie'', plain_value ''b=2'')])]"


end
