(* ===== verification/Calls_Driven.thy ===== *)
theory Calls_Driven imports Quic_World Calls_Frame begin

text \<open>
  The client on top of its QUIC drivers (\<open>src/client/pool.rs\<close>, \<open>src/client/quic.rs\<close>): interleaved
  calls whose HTTP/3 requests go through the channels of the sessions to the drivers that the
  client's dials have spawned, and what comes back to the calls.
\<close>

section \<open>A client whose sessions are driven\<close>

text \<open>
  \<open>sys t\<close> is the system of the session with the sender \<open>t\<close>. Sending and awaiting lead to the driver
  as in \<open>session_channel\<close>; everything else leaves the sessions to their own steps, except that
  spawning may open a new one.
\<close>

locale driven_client =
  session_channel "env_channel E" Q "env_headers E" sys + foreign_frame E "evolves Q (env_headers E) (env_quic E) sys"
  for E :: "('b, 'tc, 'qc, 'hc, 'q, 'u, 'r, 'h, 'k, 'w) client_env" and Q :: "('q, 'x, 'hc) quiche_ops"
    and sys :: "nat \<Rightarrow> 'w \<Rightarrow> ('q, 'x, 'hc, 'h) quic_system"

sublocale driven_client \<subseteq> world: world_frame E "evolves Q (env_headers E) (env_quic E) sys"
proof unfold_locales
  fix session :: quic_session and req body and w :: 'w
  obtain r w' where "session_begin (env_uri E) (env_headers E) (env_channel E) session req body w = (r, w')" by fastforce
  with session_begin_command(1)[OF this]
  show "evolves Q (env_headers E) (env_quic E) sys w
      (snd (session_begin (env_uri E) (env_headers E) (env_channel E) session req body w))"
    by (simp add: evolves_steps)
next
  fix n and w :: 'w
  obtain r w' where "session_finish (env_channel E) n w = (r, w')" by fastforce
  with session_finish_answer(1)[OF this]
  show "evolves Q (env_headers E) (env_quic E) sys w (snd (session_finish (env_channel E) n w))"
    by (simp add: evolves_steps)
qed (rule evolves_refl, rule evolves_trans)

section \<open>Requests and answers\<close>

text \<open>The command of a request: \<open>QuicSession::send\<close> on what \<open>build_request\<close> makes of its parts.\<close>

definition command_of where
  "command_of E (cl :: client) (parts :: 'u request_parts) body c \<longleftrightarrow>
     (\<exists>req. build_request E (cl_profile cl) parts = Inr req \<and>
       cmd_headers c = session_headers (env_uri E) (env_headers E) req \<and> cmd_body c = body \<and>
       cmd_url c = uri_text (env_uri E) (rq_uri req))"

text \<open>The command has gone into a session's channel; the session's driver has answered it.\<close>

definition sent_over_h3 where
  "sent_over_h3 E cl sys w parts body tx \<longleftrightarrow>
     (\<exists>t. \<exists>c \<in> set (sy_sent (sys t w)). command_of E cl parts body c \<and> cmd_tx c = tx)"

definition answered_over_h3 where
  "answered_over_h3 E cl sys w parts body resp \<longleftrightarrow>
     (\<exists>t. \<exists>c \<in> set (sy_sent (sys t w)). command_of E cl parts body c \<and>
       (cmd_tx c, Some (Inr resp)) \<in> answers_of (sys t w))"

fun from_h3 :: "response_body \<Rightarrow> bool" where
  "from_h3 (BodyHttp3 b) = True"
| "from_h3 (BodyHttp2 s) = False"

fun point_ok where
  "point_ok E cl sys w parts body (Sending conn (H3Answer tx)) = sent_over_h3 E cl sys w parts body tx"
| "point_ok E cl sys w parts body (ResendAwaiting (H3Answer tx)) = sent_over_h3 E cl sys w parts body tx"
| "point_ok E cl sys w parts body (Answered (Inr resp)) =
     (from_h3 (rs_body resp) \<longrightarrow> answered_over_h3 E cl sys w parts body resp)"
| "point_ok E cl sys w parts body _ = True"

text \<open>What the caller of such a command finds, in a session that is in a state it can reach.\<close>

definition exchanged where
  "exchanged E cl Q sys w parts body x \<longleftrightarrow>
     (\<exists>v c. command_of E cl parts body c \<and> live Q (env_headers E) (env_quic E) (sys v w) \<and>
       c \<in> set (sy_sent (sys v w)) \<and> caller_result (sys v w) (cmd_tx c) = Some (Inr x) \<and> rs_url x = cmd_url c)"

text \<open>The one-shot channel a task waits at.\<close>

fun awaits :: "'h point \<Rightarrow> nat option" where
  "awaits (Sending conn (H3Answer tx)) = Some tx"
| "awaits (ResendAwaiting (H3Answer tx)) = Some tx"
| "awaits _ = None"

lemma awaits_iff [simp]:
  "awaits (Sending conn f) = Some tx \<longleftrightarrow> f = H3Answer tx"
  "awaits (ResendAwaiting f) = Some tx \<longleftrightarrow> f = H3Answer tx"
  by (cases f; simp)+

context driven_client
begin

abbreviation evo where
  "evo \<equiv> evolves Q (env_headers E) (env_quic E) sys"

lemma sent_mono:
  assumes "evo w w'" "sent_over_h3 E cl sys w parts body tx"
  shows "sent_over_h3 E cl sys w' parts body tx"
  using assms(2) evolves_sent(1)[OF assms(1)] by (fastforce simp: sent_over_h3_def)

lemma answered_mono:
  assumes "evo w w'" "answered_over_h3 E cl sys w parts body resp"
  shows "answered_over_h3 E cl sys w' parts body resp"
  using assms(2) evolves_sent[OF assms(1)] by (fastforce simp: answered_over_h3_def)

lemma point_mono:
  assumes "evo w w'" "point_ok E cl sys w parts body p"
  shows "point_ok E cl sys w' parts body p"
  using assms(2)
  by (cases "(E, cl, sys, w, parts, body, p)" rule: point_ok.cases) (auto intro: sent_mono answered_mono assms(1))

lemma begin_sent:
  assumes "build_request E (cl_profile cl) parts = Inr req" "send_begin E conn req body st = (Inr (H3Answer tx), st')"
  shows "sent_over_h3 E cl sys (cs_world st') parts body tx"
proof -
  obtain session where "session_begin (env_uri E) (env_headers E) (env_channel E) session req body (cs_world st) =
      (Inr tx, cs_world st')"
    using assms(2)
    by (cases conn) (auto simp: send_begin_def pooled_begin_def map_ok_st_def try_st_Inr_iff split: prod.splits)
  from session_begin_command(2)[OF this refl] assms(1) show ?thesis
    unfolding sent_over_h3_def command_of_def
    by (intro exI[of _ "qs_tx session"] bexI) auto
qed

lemma begin_new:
  "send_begin E conn req body st = (Inr (H3Answer tx), st') \<Longrightarrow> c \<in> set (sy_sent (sys t (cs_world st))) \<Longrightarrow> cmd_tx c \<noteq> tx"
  by (cases conn)
    (auto simp: send_begin_def pooled_begin_def map_ok_st_def try_st_Inr_iff split: prod.splits
      dest!: session_begin_new[where t = t])

lemma finish_answered:
  assumes "send_finish E f st = (Inr resp, st')" "from_h3 (rs_body resp)"
    and "\<And>tx. f = H3Answer tx \<Longrightarrow> sent_over_h3 E cl sys (cs_world st) parts body tx"
  shows "answered_over_h3 E cl sys (cs_world st') parts body resp"
proof (cases f)
  case (H2Response response_future url)
  with assms(1,2) show ?thesis
    by (auto simp: send_finish_def pooled_finish_def conn_finish_def try_st_Inr_iff response_new_def split: prod.splits)
next
  case (H3Answer tx)
  then have fin: "session_finish (env_channel E) tx (cs_world st) = (Inr resp, cs_world st')"
    using assms(1) by (auto simp: send_finish_def pooled_finish_def split: prod.splits)
  from assms(3)[OF H3Answer] obtain t c where c: "c \<in> set (sy_sent (sys t (cs_world st)))" "command_of E cl parts body c"
    "cmd_tx c = tx" by (auto simp: sent_over_h3_def)
  then have "outcome (sys t (cs_world st')) tx = Some (Some (Inr resp))"
    using session_finish_answer(2)[OF fin refl, of t] by force
  then have "(tx, Some (Inr resp)) \<in> answers_of (sys t (cs_world st'))" by (rule outcome_in_answers)
  moreover have "c \<in> set (sy_sent (sys t (cs_world st')))"
    using c(1) system_steps_sent[OF session_finish_answer(1)[OF fin]] by blast
  ultimately show ?thesis using c(2,3) unfolding answered_over_h3_def by blast
qed

lemma task_point:
  assumes "task_step E cl ro (parts, body) t s = Some s'"
    and "point_ok E cl sys (cs_world (rc_client s)) parts body (rc_point s t)"
  shows "point_ok E cl sys (cs_world (rc_client s')) parts body (rc_point s' t)"
proof -
  have point: "point_ok E cl sys w parts body (Answered r)"
    if "\<And>resp. r = Inr resp \<Longrightarrow> from_h3 (rs_body resp) \<Longrightarrow> answered_over_h3 E cl sys w parts body resp" for w r
    using that by (cases r) auto
  have sending: "point_ok E cl sys w parts body (Sending conn f) \<and> point_ok E cl sys w parts body (ResendAwaiting f)"
    if "\<And>tx. f = H3Answer tx \<Longrightarrow> sent_over_h3 E cl sys w parts body tx" for w conn f
    using that by (cases f) auto
  have finished: "point_ok E cl sys (cs_world st') parts body (Answered r)"
    if "send_finish E f st = (r, st')" "\<And>tx. f = H3Answer tx \<Longrightarrow> sent_over_h3 E cl sys (cs_world st) parts body tx" for f st r st'
  proof (rule point)
    fix resp
    assume "r = Inr resp" "from_h3 (rs_body resp)"
    with that(1) have "send_finish E f st = (Inr resp, st')" "from_h3 (rs_body resp)" by simp_all
    then show "answered_over_h3 E cl sys (cs_world st') parts body resp" by (rule finish_answered) (rule that(2))
  qed
  show ?thesis
  proof (cases "rc_point s t")
    case (Sending conn f)
    obtain r st' where fin: "send_finish E f (rc_client s) = (r, st')" by fastforce
    have "point_ok E cl sys (cs_world st') parts body (Answered r)"
      using assms(2) Sending by (intro finished[OF fin]) simp
    with assms(1) Sending fin show ?thesis
      by (auto simp: task_step_def await_step_def send_failed_def split: sum.splits prod.splits pooled_connection.splits)
  next
    case (ResendAwaiting f)
    obtain r st' where fin: "send_finish E f (rc_client s) = (r, st')" by fastforce
    have "point_ok E cl sys (cs_world st') parts body (Answered r)"
      using assms(2) ResendAwaiting by (intro finished[OF fin]) simp
    with assms(1) ResendAwaiting fin show ?thesis by (auto simp: task_step_def resend_await_step_def)
  qed (use assms in \<open>auto simp: task_step_def step_defs Let_def try_st_Inr_iff
        intro!: point sending[THEN conjunct1] sending[THEN conjunct2] intro: begin_sent
        split: if_splits option.splits sum.splits prod.splits pooled_connection.splits\<close>)
qed

text \<open>A task that has come to wait at a one-shot channel has made it in this step.\<close>

lemma task_awaits:
  assumes "task_step E cl ro (parts, body) t s = Some s'" "awaits (rc_point s' t) = Some tx"
  shows "tx \<notin> set (sy_issued (sys v (cs_world (rc_client s))))"
  using assms
  by (cases "rc_point s t")
    (auto simp: task_step_def step_defs Let_def try_st_Inr_iff dest: begin_new
      split: if_splits option.splits sum.splits prod.splits pooled_connection.splits)

end

section \<open>Along the calls\<close>

abbreviation world_of where
  "world_of s \<equiv> cs_world (rc_client (ca_race s))"

text \<open>A call that is in a network part asks for its URL; the log holds what came back for a URL.\<close>

definition call_ok where
  "call_ok E cl sys s t \<longleftrightarrow>
     (\<forall>hop rd u ro parts. ca_call s t = Exchanging hop rd u ro parts \<longrightarrow>
        url_parse (env_url E) (rd_url rd) = Inr u \<and> rp_url parts = u \<and>
        point_ok E cl sys (world_of s) parts (rd_body rd) (rc_point (ca_race s) t))"

definition log_ok where
  "log_ok E cl sys w xs \<longleftrightarrow>
     (\<forall>(u :: 'u) resp. (u, resp) \<in> set xs \<longrightarrow> from_h3 (rs_body resp) \<longrightarrow>
        (\<exists>(parts :: 'u request_parts) body. rp_url parts = u \<and> answered_over_h3 E cl sys w parts body resp))"

text \<open>What a call returns is an answer of the log, under the text of the URL it was the answer for.\<close>

definition returned where
  "returned E xs resp \<longleftrightarrow>
     (\<exists>u x. (u, x) \<in> set xs \<and> url_parse (env_url E) (rs_url resp) = Inr u \<and> resp = set_url (rs_url resp) x)"

definition ends_ok where
  "ends_ok E s0 s \<longleftrightarrow>
     (\<forall>t resp. ca_call s t = Ended (Inr resp) \<longrightarrow> ca_call s0 t = Ended (Inr resp) \<or> returned E (ca_log s) resp)"

text \<open>A one-shot channel at which a call waits is that of a sent command, and no other call waits there.\<close>

definition waits_ok where
  "waits_ok sys s \<longleftrightarrow>
     (\<forall>t tx. awaits (rc_point (ca_race s) t) = Some tx \<longrightarrow>
        (\<exists>v. tx \<in> set (sy_issued (sys v (world_of s)))) \<and>
        (\<forall>u. awaits (rc_point (ca_race s) u) = Some tx \<longrightarrow> u = t))"

definition driven_ok where
  "driven_ok E cl Q sys s0 s \<longleftrightarrow>
     evolves Q (env_headers E) (env_quic E) sys (world_of s0) (world_of s) \<and>
     (\<forall>t. call_ok E cl sys s t) \<and> log_ok E cl sys (world_of s) (ca_log s) \<and>
     ends_ok E s0 s \<and> waits_ok sys s"

lemma log_ok_simps [simp]:
  "log_ok E cl sys w []"
  "log_ok E cl sys w (xs @ ys) \<longleftrightarrow> log_ok E cl sys w xs \<and> log_ok E cl sys w ys"
  by (auto simp: log_ok_def)

lemma call_ok_outside: "\<not> in_network (ca_call s t) \<Longrightarrow> call_ok E cl sys s t"
  by (auto simp: call_ok_def)

lemma begin_hop_url: "begin_hop E cl ctx hop rd st = (Inr (u, ro, parts), st') \<Longrightarrow>
   url_parse (env_url E) (rd_url rd) = Inr u \<and> rp_url parts = u"
  by (auto simp: begin_hop_def try_st_Inr_iff Let_def hop_parts_def)

lemma hop_outcome_Done:
  "hop_outcome E rd u resp st = Some (Inr (Done r), st') \<Longrightarrow> r = set_url (rd_url rd) resp"
  by (auto simp: hop_outcome_def Let_def split: if_splits option.splits sum.splits)

lemma next_call_Ended:
  "next_call hop x = Ended (Inr r) \<Longrightarrow> x = Inr (Done r)"
  by (cases "(hop, x)" rule: next_call.cases) auto

context driven_client
begin

lemma call_ok_mono: "evo (world_of s) (world_of s') \<Longrightarrow> ca_call s' t = ca_call s t \<Longrightarrow>
    rc_point (ca_race s') t = rc_point (ca_race s) t \<Longrightarrow> call_ok E cl sys s t \<Longrightarrow> call_ok E cl sys s' t"
  by (auto simp: call_ok_def intro: point_mono)

lemma log_ok_mono: "evo w w' \<Longrightarrow> log_ok E cl sys w xs \<Longrightarrow> log_ok E cl sys w' xs"
  unfolding log_ok_def using answered_mono by blast

lemma issued_mono:
  "evo w w' \<Longrightarrow> tx \<in> set (sy_issued (sys v w)) \<Longrightarrow> tx \<in> set (sy_issued (sys v w'))"
  using evolves_sent(1) by fastforce

lemma awaited_issued:
  assumes "call_ok E cl sys s t" "in_network (ca_call s t)" "awaits (rc_point (ca_race s) t) = Some tx"
  shows "\<exists>v. tx \<in> set (sy_issued (sys v (world_of s)))"
proof -
  obtain hop rd u ro parts where "ca_call s t = Exchanging hop rd u ro parts" using assms(2) by (cases "ca_call s t") auto
  with assms(1) have "point_ok E cl sys (world_of s) parts (rd_body rd) (rc_point (ca_race s) t)" by (simp add: call_ok_def)
  with assms(3) have "sent_over_h3 E cl sys (world_of s) parts (rd_body rd) tx"
    by (cases "rc_point (ca_race s) t" rule: awaits.cases) auto
  then show ?thesis by (auto simp: sent_over_h3_def)
qed

lemma waits_ok_moves:
  assumes ok: "waits_ok sys s" and evo: "evo (world_of s) (world_of s')"
    and others: "\<And>u. u \<noteq> t \<Longrightarrow> rc_point (ca_race s') u = rc_point (ca_race s) u"
    and own: "\<And>tx. awaits (rc_point (ca_race s') t) = Some tx \<Longrightarrow> awaits (rc_point (ca_race s) t) = Some tx \<or>
      (\<exists>v. tx \<in> set (sy_issued (sys v (world_of s')))) \<and> (\<forall>v. tx \<notin> set (sy_issued (sys v (world_of s))))"
  shows "waits_ok sys s'"
proof -
  let ?aw = "\<lambda>s u. awaits (rc_point (ca_race s) u)"
  let ?is = "\<lambda>s tx. \<exists>v. tx \<in> set (sy_issued (sys v (world_of s)))"
  have before: "?is s tx" "?aw s w = Some tx \<Longrightarrow> w = u" if "?aw s u = Some tx" for u w tx
    using ok that unfolding waits_ok_def by blast+
  have after: "?aw s u = Some tx \<or> u = t \<and> ?is s' tx \<and> \<not> ?is s tx" if "?aw s' u = Some tx" for u tx
    using own[of tx] others[of u] that by (cases "u = t") auto
  have "?is s' tx" if "?aw s' u = Some tx" for u tx
    using after[OF that] before(1)[of u tx] issued_mono[OF evo] by blast
  moreover have "w = u" if "?aw s' u = Some tx" "?aw s' w = Some tx" for u w tx
    using after[OF that(1)] after[OF that(2)] before by metis
  ultimately show ?thesis unfolding waits_ok_def by blast
qed

text \<open>A step of the call \<open>t\<close> is checked on this call, on its end and on what it adds to the log.\<close>

lemma driven_ok_moves:
  assumes "driven_ok E cl Q sys s0 s" "evo (world_of s) (world_of s')"
    and "\<And>u. u \<noteq> t \<Longrightarrow> ca_call s' u = ca_call s u \<and> rc_point (ca_race s') u = rc_point (ca_race s) u"
    and "call_ok E cl sys s' t"
    and "ca_log s' = ca_log s @ new" "log_ok E cl sys (world_of s') new"
    and "\<And>resp. ca_call s' t = Ended (Inr resp) \<Longrightarrow> returned E new resp"
    and "\<And>tx. awaits (rc_point (ca_race s') t) = Some tx \<Longrightarrow> awaits (rc_point (ca_race s) t) = Some tx \<or>
      in_network (ca_call s' t) \<and> (\<forall>v. tx \<notin> set (sy_issued (sys v (world_of s))))"
  shows "driven_ok E cl Q sys s0 s'"
proof -
  have "call_ok E cl sys s' u" for u
    using assms(1,3,4) call_ok_mono[OF assms(2)] by (cases "u = t") (auto simp: driven_ok_def)
  moreover have "log_ok E cl sys (world_of s') (ca_log s')"
    using assms(1,5,6) log_ok_mono[OF assms(2)] by (simp add: driven_ok_def)
  moreover have "ends_ok E s0 s'"
    unfolding ends_ok_def
  proof (intro allI impI)
    fix u resp
    assume end': "ca_call s' u = Ended (Inr resp)"
    show "ca_call s0 u = Ended (Inr resp) \<or> returned E (ca_log s') resp"
    proof (cases "u = t")
      case True
      with end' assms(5,7) show ?thesis by (auto simp: returned_def)
    next
      case False
      with end' assms(1,5) assms(3)[of u] show ?thesis by (fastforce simp: driven_ok_def ends_ok_def returned_def)
    qed
  qed
  moreover have "evo (world_of s0) (world_of s')"
    using assms(1,2) evolves_trans by (auto simp: driven_ok_def)
  moreover have "waits_ok sys s'"
  proof (rule waits_ok_moves[OF _ assms(2), where t = t])
    show "waits_ok sys s" using assms(1) by (simp add: driven_ok_def)
  qed (use assms(3) assms(8) awaited_issued[OF assms(4)] in blast)+
  ultimately show ?thesis by (simp add: driven_ok_def)
qed

lemma driven_ok_step:
  fixes cl :: client and s :: "('k, 'w, 'u, 'h) calls"
  assumes ok: "driven_ok E cl Q sys s0 s" and step: "call_step E cl ctx t s = Some s'"
  shows "driven_ok E cl Q sys s0 s'"
  using step
proof (cases rule: call_step_cases)
  case (start hop rd)
  show ?thesis
  proof (cases rule: start_hop_cases[of hop E cl ctx rd t s])
    case limit
    with start show ?thesis
      by (intro driven_ok_moves[OF ok, where t = t and new = "[]"]) (auto simp: evolves_refl call_ok_def)
  next
    case (error e st)
    with start world.client.R_begin_hop[OF error(2)] show ?thesis
      by (intro driven_ok_moves[OF ok, where t = t and new = "[]"]) (auto simp: call_ok_def)
  next
    case (go u ro parts st)
    with start world.client.R_begin_hop[OF go(2)] begin_hop_url[OF go(2)] show ?thesis
      by (intro driven_ok_moves[OF ok, where t = t and new = "[]"]) (auto simp: call_ok_def)
  qed
next
  case (network hop rd u ro parts r)
  have "call_ok E cl sys s t" using ok by (simp add: driven_ok_def)
  with network(1) have "url_parse (env_url E) (rd_url rd) = Inr u \<and> rp_url parts = u"
    "point_ok E cl sys (world_of s) parts (rd_body rd) (rc_point (ca_race s) t)" by (auto simp: call_ok_def)
  moreover from task_point[OF network(2) this(2)]
  have "point_ok E cl sys (world_of s') parts (rd_body rd) (rc_point (ca_race s') t)" using network(3) by simp
  ultimately have "call_ok E cl sys s' t" using network(1,3) by (auto simp: call_ok_def)
  moreover have "tx \<notin> set (sy_issued (sys v (world_of s)))" if "awaits (rc_point (ca_race s') t) = Some tx" for tx v
    using task_awaits[OF network(2)] that network(3) by simp
  ultimately show ?thesis
    using network world.client.R_task_step[OF network(2)] task_step_moves[OF network(2)]
    by (intro driven_ok_moves[OF ok, where t = t and new = "[]"]) (auto simp: moves_def)
next
  case (finish hop rd u ro parts r)
  have own: "url_parse (env_url E) (rd_url rd) = Inr u" "rp_url parts = u" "point_ok E cl sys (world_of s) parts (rd_body rd) (Answered r)"
    using ok finish(1,2) by (force simp: driven_ok_def call_ok_def)+
  from finish(3) show ?thesis
  proof (cases rule: finish_hop_cases)
    case (failed e)
    then show ?thesis
      by (intro driven_ok_moves[OF ok, where t = t and new = "[]"]) (auto simp: evolves_refl call_ok_def)
  next
    case (answered resp x st1)
    have "cs_world st1 = world_of s"
      unfolding hop_outcome_state[OF answered(2)]
      by (simp add: store_cookies_def store_hints_def store_alt_svc_def Let_def split: option.split)
    with answered own show ?thesis
      by (intro driven_ok_moves[OF ok, where t = t and new = "[(u, resp)]"])
        (auto simp: evolves_refl log_ok_def returned_def set_url_def next_call_outside intro!: call_ok_outside
          dest!: next_call_Ended hop_outcome_Done)
  qed
qed

lemma driven_ok_run:
  fixes cl :: client and s0 :: "('k, 'w, 'u, 'h) calls"
  assumes "calls_start s0" "(calls_step E cl ctx)\<^sup>*\<^sup>* s0 s"
  shows "driven_ok E cl Q sys s0 s"
  using assms(2)
proof (induction rule: rtranclp_induct)
  case base
  have "call_ok E cl sys s0 t" for t
    using assms(1) by (intro call_ok_outside) (metis calls_start_def in_network.simps(2,3))
  moreover have "awaits (rc_point (ca_race s0) t) = None" for t
    using assms(1) by (cases "rc_point (ca_race s0) t") (auto simp: calls_start_def dest: spec[of _ t])
  ultimately show ?case using assms(1)
    by (simp add: driven_ok_def evolves_refl ends_ok_def calls_start_def waits_ok_def)
next
  case (step s s')
  then show ?case using driven_ok_step by (blast elim: calls_stepE)
qed

text \<open>In a live session an answered command is one whose caller has that answer.\<close>

lemma exchanged_answer:
  assumes "\<forall>v. live Q (env_headers E) (env_quic E) (sys v w)" "answered_over_h3 E cl sys w parts body x"
  shows "exchanged E cl Q sys w parts body x"
  using assms live_answer unfolding answered_over_h3_def exchanged_def by metis

lemma returned_over_h3:
  fixes cl :: client and s :: "('k, 'w, 'u, 'h) calls"
  assumes "log_ok E cl sys (world_of s) (ca_log s)" "\<forall>v. live Q (env_headers E) (env_quic E) (sys v (world_of s))"
    and "returned E (ca_log s) resp" "from_h3 (rs_body resp)"
  shows "\<exists>parts body x. exchanged E cl Q sys (world_of s) parts body x \<and> (rp_url parts, x) \<in> set (ca_log s) \<and>
    url_parse (env_url E) (rs_url resp) = Inr (rp_url parts) \<and> resp = set_url (rs_url resp) x"
proof -
  obtain u x where x: "(u, x) \<in> set (ca_log s)" "url_parse (env_url E) (rs_url resp) = Inr u" "resp = set_url (rs_url resp) x"
    using assms(3) by (auto simp: returned_def)
  have "rs_body resp = rs_body x" by (subst x(3)) (simp add: set_url_def)
  then have h3: "from_h3 (rs_body x)" using assms(4) by simp
  then obtain parts body where parts: "rp_url parts = u" "answered_over_h3 E cl sys (world_of s) parts body x"
    using assms(1) x(1) unfolding log_ok_def by blast
  with exchanged_answer[OF assms(2) parts(2)] x show ?thesis by blast
qed

end

end
