(* ===== verification/Calls_Whole.thy ===== *)
theory Calls_Whole imports Calls_Driven Calls_Claims begin

text \<open>
  The whole client: an environment in which \<open>tokio::spawn\<close> starts the driver of \<open>Quic_Driver\<close> and the
  channels lead to it (\<open>src/client/quic.rs\<close>, \<open>src/client/pool.rs\<close>), on top of any other environment
  for everything else.
\<close>

section \<open>The environment with its drivers\<close>

text \<open>The world is that of the other environment, and the sessions in the order of their spawning.\<close>

type_synonym ('q, 'x, 'd, 'h, 'w) whole = "'w \<times> ('q, 'x, 'd, 'h) driven list"

definition beside :: "('w \<Rightarrow> 'a \<times> 'w) \<Rightarrow> 'w \<times> 's \<Rightarrow> 'a \<times> 'w \<times> 's" where
  "beside f ws = (let (r, w) = f (fst ws) in (r, w, snd ws))"

lemma beside_snd [simp]: "snd (snd (beside f ws)) = snd ws"
  by (simp add: beside_def split: prod.split)

definition whole_tcp where
  "whole_tcp T = \<lparr>
     tcp_connect = (\<lambda>a. beside (tcp_connect T a)),
     tcp_connect_addr = (\<lambda>a. beside (tcp_connect_addr T a)),
     tcp_write_all = (\<lambda>s bs. beside (tcp_write_all T s bs)),
     tcp_read = (\<lambda>s n. beside (tcp_read T s n)),
     tcp_read_exact = (\<lambda>s n. beside (tcp_read_exact T s n)) \<rparr>"

definition whole_stack where
  "whole_stack S = \<lparr>
     tls_configure = tls_configure S,
     tls_status_ocsp = tls_status_ocsp S,
     enable_ech_grease = enable_ech_grease S,
     add_application_settings = add_application_settings S,
     tls_handshake = (\<lambda>c h s. beside (tls_handshake S c h s)),
     h2_handshake = (\<lambda>cs t. beside (h2_handshake S cs t)),
     h2_ready = (\<lambda>h. beside (h2_ready S h)),
     h2_send_request = (\<lambda>h r e. beside (h2_send_request S h r e)),
     h2_send_data = (\<lambda>s d e. beside (h2_send_data S s d e)),
     h2_response = (\<lambda>f. beside (h2_response S f)) \<rparr>"

text \<open>The sessions that have the one-shot channel \<open>tx\<close>; a channel belongs to one.\<close>

definition owners where
  "owners tx ws = filter (\<lambda>t. tx \<in> set (sy_issued (fst (ws ! t)))) [0..<length ws]"

definition drivers_channel where
  "drivers_channel Q H = \<lparr>
     ch_oneshot = (\<lambda>(w, ws). (Suc (fold max (concat (map (\<lambda>d. sy_issued (fst d)) ws)) 0), w, ws)),
     ch_send = (\<lambda>t c (w, ws).
       if t < length ws
       then let (r, d) = ch_send (driven_channel Q H) t c (ws ! t) in (r, w, ws[t := d])
       else (Inl ''channel closed'', w, ws)),
     ch_await = (\<lambda>tx (w, ws).
       case owners tx ws of
         [t] \<Rightarrow> let (r, d) = ch_await (driven_channel Q H) tx (ws ! t) in (r, w, ws[t := d])
       | _ \<Rightarrow> (Inl ''channel closed'', w, ws)) \<rparr>"

text \<open>A new session, unless the driver's function returns at once; \<open>n\<close> is its number.\<close>

definition opened where
  "opened C script conn n =
    (case run_quic_driver C conn of
       Some dr \<Rightarrow> [(\<lparr>sy_driver = (dr, []), sy_queue = [], sy_dropped = [], sy_sent = []\<rparr>, script n)]
     | None \<Rightarrow> [])"

definition whole_env where
  "whole_env E Q script = \<lparr>
     env_ssl = env_ssl E,
     env_stack = whole_stack (env_stack E),
     env_tcp = whole_tcp (env_tcp E),
     env_quic = env_quic E,
     env_url = env_url E,
     env_uri = env_uri E,
     env_headers = env_headers E,
     env_channel = drivers_channel Q (env_headers E),
     env_dns = (\<lambda>a. beside (env_dns E a)),
     env_udp_bind = (\<lambda>a. beside (env_udp_bind E a)),
     env_udp_connect = (\<lambda>s a. beside (env_udp_connect E s a)),
     env_quiche_connect = env_quiche_connect E,
     env_spawn = (\<lambda>s conn addr (w, ws).
       (length ws, snd (env_spawn E s conn addr w), ws @ opened (env_quic E) script conn (length ws))),
     env_matches = env_matches E,
     env_store = env_store E \<rparr>"

text \<open>The system of a session; \<open>idle\<close> stands for those not opened yet.\<close>

definition session_in where
  "session_in idle t w = (if t < length (snd w) then fst (snd w ! t) else idle\<lparr>sy_sent := []\<rparr>)"

section \<open>It is a driven client\<close>

lemma owners_one: "owners tx ws = [t] \<Longrightarrow> u < length ws \<Longrightarrow> tx \<in> set (sy_issued (fst (ws ! u))) \<Longrightarrow> u = t"
  unfolding owners_def by (metis (mono_tags, lifting) atLeastLessThan_upt lessThan_atLeast0 lessThan_iff
      list.set_intros(1) mem_Collect_eq set_filter set_ConsD empty_iff list.set(1))

lemma owners_lt: "owners tx ws = [t] \<Longrightarrow> t < length ws"
proof -
  assume "owners tx ws = [t]"
  then have "t \<in> set (owners tx ws)" by simp
  then show ?thesis by (simp add: owners_def)
qed

lemma drivers_session_channel:
  fixes Q :: "('q, 'x, 'd) quiche_ops" and H :: "'h header_ops" and idle :: "('q, 'x, 'd, 'h) quic_system"
  shows "session_channel (drivers_channel Q H :: ('h, ('q, 'x, 'd, 'h, 'w) whole) channel_ops) Q H (session_in idle)"
proof unfold_locales
  fix w w' :: "('q, 'x, 'd, 'h, 'w) whole" and tx t
  assume one: "ch_oneshot (drivers_channel Q H) w = (tx, w')"
  obtain e ws where w: "w = (e, ws)" by fastforce
  have "tx \<notin> set (sy_issued (session_in idle t w))"
  proof
    assume "tx \<in> set (sy_issued (session_in idle t w))"
    then have "tx \<in> set (concat (map (\<lambda>d. sy_issued (fst d)) ws))"
      by (auto simp: session_in_def w split: if_splits)
    from fold_max_bound(1)[OF this, of 0] one show False by (simp add: drivers_channel_def w)
  qed
  with one show "session_in idle t w' = session_in idle t w \<and> tx \<notin> set (sy_issued (session_in idle t w))"
    by (simp add: drivers_channel_def w)
next
  fix w w' :: "('q, 'x, 'd, 'h, 'w) whole" and t c sent u
  assume send: "ch_send (drivers_channel Q H) t c w = (sent, w')"
    and new: "cmd_tx c \<notin> set (sy_issued (session_in idle t w))"
  obtain e ws where w: "w = (e, ws)" by fastforce
  show "(system_step Q H)\<^sup>*\<^sup>* (session_in idle u w) (session_in idle u w') \<and>
      (sent = Inr () \<longrightarrow> c \<in> set (sy_sent (session_in idle t w')))"
  proof (cases "t < length ws")
    case True
    obtain r d where d: "ch_send (driven_channel Q H) t c (ws ! t) = (r, d)" by (rule prod.exhaust)
    have "cmd_tx c \<notin> set (sy_issued (fst (ws ! t)))" using new True by (simp add: session_in_def w)
    with driven.send_steps[OF d this] True d send show ?thesis
      by (auto simp: drivers_channel_def session_in_def w nth_list_update)
  qed (use send in \<open>auto simp: drivers_channel_def session_in_def w\<close>)
next
  fix w w' :: "('q, 'x, 'd, 'h, 'w) whole" and tx answer u t
  assume await: "ch_await (drivers_channel Q H) tx w = (answer, w')"
  obtain e ws where w: "w = (e, ws)" by fastforce
  show "(system_step Q H)\<^sup>*\<^sup>* (session_in idle u w) (session_in idle u w') \<and>
      (\<forall>x. answer = Inr x \<longrightarrow> tx \<in> set (sy_issued (session_in idle t w)) \<longrightarrow>
        outcome (session_in idle t w') tx = Some (Some x))"
  proof (cases "\<exists>v. owners tx ws = [v]")
    case True
    then obtain v where v: "owners tx ws = [v]" ..
    obtain r d where d: "ch_await (driven_channel Q H) tx (ws ! v) = (r, d)" by (rule prod.exhaust)
    have w': "answer = r" "w' = (e, ws[v := d])" using await d v by (simp_all add: drivers_channel_def w)
    have "v = t" if "tx \<in> set (sy_issued (session_in idle t w))"
      using that owners_one[OF v, of t] by (simp add: session_in_def w split: if_splits)
    with driven.await_steps[OF d] owners_lt[OF v] w' show ?thesis
      by (auto simp: session_in_def w nth_list_update)
  next
    case False
    with await show ?thesis by (auto simp: drivers_channel_def w split: list.splits)
  qed
qed

lemma evolves_beside [simp]: "evolves Q H C (session_in idle) ws (snd (beside f ws))"
  by (rule evolves_steps) (simp add: session_in_def)

lemma evolves_spawn:
  "evolves Q H C (session_in idle) ws (w', snd ws @ opened C script conn (length (snd ws)))"
  unfolding evolves_def
proof
  fix t
  let ?s = "session_in idle t (w', snd ws @ opened C script conn (length (snd ws)))"
  show "(system_step Q H)\<^sup>*\<^sup>* (session_in idle t ws) ?s \<or> sy_sent (session_in idle t ws) = [] \<and> live Q H C ?s"
  proof (cases "t = length (snd ws) \<and> \<not> isl (configure_chrome_h3 C)")
    case True
    then obtain cfg where "configure_chrome_h3 C = Inr cfg" by (cases "configure_chrome_h3 C") auto
    with True have "system_start C ?s"
      by (auto simp: session_in_def opened_def nth_append system_start_def driver_start_def run_quic_driver_def)
    with True show ?thesis by (auto simp: live_def session_in_def)
  next
    case False
    then have "session_in idle t ws = ?s"
      by (cases "t < length (snd ws)")
        (auto simp: session_in_def opened_def nth_append run_quic_driver_def split: sum.split)
    then show ?thesis by simp
  qed
qed

interpretation whole: driven_client "whole_env E Q script" Q "session_in idle"
  for E :: "('b, 'tc, 'qc, 'hc, 'q, 'u, 'r, 'h, 'k, 'w) client_env" and Q :: "('q, 'x, 'hc) quiche_ops" and script idle
proof (rule driven_client.intro)
  show "session_channel (env_channel (whole_env E Q script)) Q (env_headers (whole_env E Q script)) (session_in idle)"
    by (simp add: whole_env_def drivers_session_channel)
  show "foreign_frame (whole_env E Q script)
      (evolves Q (env_headers (whole_env E Q script)) (env_quic (whole_env E Q script)) (session_in idle))"
    by (unfold_locales; simp add: whole_env_def whole_tcp_def whole_stack_def evolves_spawn split_beta)
qed

section \<open>Property\<close>

text \<open>
  C4 (safety). An HTTP/3 answer belongs to the call that asked for it: however calls interleave on
  the pool and whatever the peers, the drivers and the redirects do, the answer that a hop of a call has got over
  HTTP/3 is what a session's driver has put into the one-shot channel of a command, a command with
  the profile's headers, this hop's URL and cookies, and this call's body, and it carries the URL of the command;
  what the call then returns is such an answer, under the URL it was requested from; and no two
  calls ever wait at the same one-shot channel.
\<close>

theorem http3_answers_end_to_end:
  fixes E :: "('b, 'tc, 'qc, 'hc, 'q, 'u, 'r, 'h, 'k, 'w) client_env" and cl :: client
    and s0 s :: "('k, 'w, 'u, 'h) calls"
  assumes "driven_client E Q sys" "\<forall>v. live Q (env_headers E) (env_quic E) (sys v (world_of s0))"
    and "calls_start s0" "(calls_step E cl ctx)\<^sup>*\<^sup>* s0 s"
  shows "(\<forall>hop rd u ro parts resp. ca_call s t = Exchanging hop rd u ro parts \<longrightarrow>
      rc_point (ca_race s) t = Answered (Inr resp) \<longrightarrow> from_h3 (rs_body resp) \<longrightarrow>
      rp_url parts = u \<and> exchanged E cl Q sys (world_of s) parts (rd_body rd) resp) \<and>
    (\<forall>resp. ca_call s t = Ended (Inr resp) \<longrightarrow> ca_call s0 t \<noteq> ca_call s t \<longrightarrow> from_h3 (rs_body resp) \<longrightarrow>
      (\<exists>parts body x. exchanged E cl Q sys (world_of s) parts body x \<and> (rp_url parts, x) \<in> set (ca_log s) \<and>
        url_parse (env_url E) (rs_url resp) = Inr (rp_url parts) \<and> resp = set_url (rs_url resp) x)) \<and>
    (\<forall>v tx. awaits (rc_point (ca_race s) t) = Some tx \<longrightarrow> awaits (rc_point (ca_race s) v) = Some tx \<longrightarrow> v = t)"
proof -
  have ok: "driven_ok E cl Q sys s0 s" using driven_client.driven_ok_run[OF assms(1,3,4)] .
  then have evo: "evolves Q (env_headers E) (env_quic E) sys (world_of s0) (world_of s)" by (simp add: driven_ok_def)
  note live = allI[OF evolves_live[OF evo assms(2)]]
  show ?thesis
    using ok driven_client.exchanged_answer[OF assms(1) live] driven_client.returned_over_h3[OF assms(1) _ live]
    by (fastforce simp: driven_ok_def ends_ok_def waits_ok_def call_ok_def)
qed

text \<open>
  Two calls whose origin advertised HTTP/3. The first dials and opens the session, both send, and
  the peer answers both streams at once.
\<close>

definition quic_toy ::
  "(ssl_call list, ssl_call list, quic_call list, h3_call list, mem_quic, web_url, string, assoc_map,
    (string \<times> string) list, toy_world) client_env" where
  "quic_toy = \<lparr>
     env_ssl = env_ssl toy_env, env_stack = env_stack toy_env, env_tcp = env_tcp toy_env,
     env_quic = env_quic toy_env, env_url = env_url toy_env, env_uri = env_uri toy_env,
     env_headers = env_headers toy_env, env_channel = env_channel toy_env, env_dns = env_dns toy_env,
     env_udp_bind = env_udp_bind toy_env, env_udp_connect = env_udp_connect toy_env,
     env_quiche_connect = (\<lambda>n l a c. Inr ([], (1, []), 0)),
     env_spawn = (\<lambda>s c a w. (0, w)),
     env_matches = env_matches toy_env, env_store = env_store toy_env \<rparr>"

definition whole_toy where
  "whole_toy = whole_env quic_toy answering (\<lambda>n. [Some (Packet (Inr [0])), None, None, Some (Packet (Inr [1]))])"

definition advertised where
  "advertised = (new_state (new_lock [(''sid'', ''1'')]) (([], []), []))
     \<lparr>cs_alt_svc := alt_svc_insert ''a.example:443'' ''h3'' alt_svc_new\<rparr>"

definition two_pages where
  "two_pages =
    \<lparr>ca_race = start_at (Answered (Inl pool_poisoned)) advertised,
     ca_call = (\<lambda>t. if t = 0 then Between 0 (first_request ''GET'' ''https://a.example/one'' None)
       else if t = 1 then Between 0 (first_request ''GET'' ''https://a.example/two'' None)
       else Ended (Inl (Fail pool_poisoned))),
     ca_log = []\<rparr>"

definition two_pages_run where
  "two_pages_run = call_schedule whole_toy toy_client (replicate 5 0 @ replicate 5 1 @ [0, 0]) two_pages"

definition page_is where
  "page_is t url bs s = (case ca_call s t of
     Ended (Inr resp) \<Rightarrow> rs_url resp = url \<and> rs_body resp = BodyHttp3 bs | _ \<Rightarrow> False)"

lemma two_pages_end:
  "map_option (\<lambda>s. (page_is 0 ''https://a.example/one'' [] s, page_is 1 ''https://a.example/two'' [9] s))
     two_pages_run = Some (True, True)"
  by code_simp

lemma page_isE:
  assumes "page_is t url bs s"
  obtains resp where "ca_call s t = Ended (Inr resp)" "rs_url resp = url" "rs_body resp = BodyHttp3 bs"
  using assms by (auto simp: page_is_def split: call.splits sum.splits)

lemma fresh_live:
  "live answering assoc_headers recording_quic (session_in answering_start v (w, []))"
  using answering_system by (auto simp: live_def session_in_def answering_start_def)

lemma toy_url_text: "map_sum id (url_as_str web_urls) (url_parse web_urls ''https://a.example/two'') = Inr ''https://a.example/two''"
  by code_simp

theorem http3_answers_end_to_end_witness:
  "\<exists>s resp parts body x. two_pages_run = Some s \<and> ca_call s 1 = Ended (Inr resp) \<and> rs_body resp = BodyHttp3 [9] \<and>
     exchanged whole_toy toy_client answering (session_in answering_start) (world_of s) parts body x \<and>
     url_as_str web_urls (rp_url parts) = ''https://a.example/two'' \<and> resp = set_url ''https://a.example/two'' x"
proof -
  obtain s where s: "two_pages_run = Some s" "page_is 1 ''https://a.example/two'' [9] s"
    using two_pages_end by auto
  from s(2) obtain resp where resp: "ca_call s 1 = Ended (Inr resp)" "rs_url resp = ''https://a.example/two''"
    "rs_body resp = BodyHttp3 [9]" by (rule page_isE)
  have run: "(calls_step whole_toy toy_client navigations)\<^sup>*\<^sup>* two_pages s"
    using s(1) by (auto simp: two_pages_run_def intro: call_schedule_steps)
  have start: "calls_start two_pages"
    by (auto simp: calls_start_def two_pages_def start_at_def)
  have driven: "driven_client whole_toy answering (session_in answering_start)"
    using whole.driven_client_axioms by (simp add: whole_toy_def)
  have live: "\<forall>v. live answering (env_headers whole_toy) (env_quic whole_toy) (session_in answering_start v (world_of two_pages))"
    by (simp add: fresh_live whole_toy_def whole_env_def quic_toy_def toy_env_def two_pages_def start_at_def
        advertised_def new_state_def)
  have new: "ca_call two_pages 1 \<noteq> ca_call s 1" using resp(1) by (simp add: two_pages_def)
  have "from_h3 (rs_body resp)" using resp(3) by simp
  with http3_answers_end_to_end[OF driven live start run, of 1, THEN conjunct2, THEN conjunct1] resp(1) new
  obtain parts body x where x: "exchanged whole_toy toy_client answering (session_in answering_start) (world_of s) parts body x"
    "url_parse (env_url whole_toy) (rs_url resp) = Inr (rp_url parts)" "resp = set_url (rs_url resp) x" by blast
  have "url_as_str web_urls (rp_url parts) = ''https://a.example/two''"
    using x(2) resp(2) toy_url_text by (simp add: whole_toy_def whole_env_def quic_toy_def toy_env_def)
  with s(1) resp x(1,3) show ?thesis by metis
qed

end
