(* ===== verification/Conformance.thy ===== *)
theory Conformance imports Client_Build begin

text \<open>
  The repository's own tests on the model: the unit tests of \<open>src/client/request.rs\<close>, for every
  header map and every brand list the random source can draw, and those of the tests under \<open>tests/\<close>
  that watch requests and responses, on the sample environment with the mock server's answers as
  its script. The test of the raw ClientHello bytes and the one against a public server watch what
  foreign code sends.
\<close>

section \<open>Unit tests\<close>

text \<open>\<open>headers.get(name).unwrap().to_str().unwrap()\<close> is \<open>header_text\<close> where it is \<open>Some\<close>.\<close>

definition test_inject_chrome_headers_context_mapping :: "'h header_ops \<Rightarrow> chrome_profile \<Rightarrow> bool" where
  "test_inject_chrome_headers_context_mapping H profile \<longleftrightarrow>
    (let headers = inject_chrome_headers H (hm_new H) profile ''same-origin'' True Navigate False None
     in header_text H headers ''sec-fetch-dest'' = Some ''document'' \<and>
        header_text H headers ''sec-fetch-mode'' = Some ''navigate'' \<and>
        header_text H headers ''sec-fetch-user'' = Some ''?1'' \<and>
        hm_get H headers ''sec-ch-ua-platform-version'' = None) \<and>
    (let headers = inject_chrome_headers H (hm_new H) profile ''cross-site'' False Xhr True None
     in header_text H headers ''sec-fetch-dest'' = Some ''empty'' \<and>
        header_text H headers ''sec-fetch-mode'' = Some ''cors'' \<and>
        hm_get H headers ''sec-fetch-user'' = None \<and>
        header_text H headers ''sec-ch-ua-platform-version'' = Some (quoted ''15.0.0'')) \<and>
    (let headers = inject_chrome_headers H (hm_new H) profile ''same-site'' False NoCorsImage False None
     in header_text H headers ''sec-fetch-dest'' = Some ''image'' \<and>
        header_text H headers ''sec-fetch-mode'' = Some ''no-cors'' \<and>
        (case header_text H headers ''accept'' of Some t \<Rightarrow> str_contains t ''image/avif'' | None \<Rightarrow> False)) \<and>
    (let headers = inject_chrome_headers H (hm_new H) profile ''same-origin'' False ServiceWorker False None
     in header_text H headers ''sec-fetch-dest'' = Some ''serviceworker'' \<and>
        header_text H headers ''sec-fetch-mode'' = Some ''same-origin'')"

definition test_inject_sensitive_headers_marked_properly :: "'h header_ops \<Rightarrow> chrome_profile \<Rightarrow> bool" where
  "test_inject_sensitive_headers_marked_properly H profile \<longleftrightarrow>
    (let headers = hm_new H;
         headers = hm_insert H ''cookie'' (hv_from_static H ''session=123'') headers;
         headers = hm_insert H ''authorization'' (hv_from_static H ''Bearer token'') headers;
         headers = hm_insert H ''host'' (hv_from_static H ''example.com'') headers;
         headers = inject_chrome_headers H headers profile ''none'' True Navigate False None
     in map_option hv_sensitive (hm_get H headers ''cookie'') = Some True \<and>
        map_option hv_sensitive (hm_get H headers ''authorization'') = Some True \<and>
        map_option hv_sensitive (hm_get H headers ''host'') = Some False)"

lemma header_of_table:
  assumes "header_map H"
  shows "hm_get H (inject_chrome_headers H h p site i ctx ach ref) n =
    (case chrome_header (cp_headers p) site i ctx ach ref n of
       Some t \<Rightarrow> Some (mark_sensitive n (plain_value t))
     | None \<Rightarrow> map_option (mark_sensitive n) (hm_get H h n))"
  by (simp add: header_map.get_first[OF assms] header_map.get_all_inject[OF assms] split: option.split list.split)

lemma text_of_table:
  assumes "header_map H" "chrome_header (cp_headers p) site i ctx ach ref n = Some t" "visible_text t"
  shows "header_text H (inject_chrome_headers H h p site i ctx ach ref) n = Some t"
  using assms by (simp add: header_text_def header_of_table header_map.to_str plain_value_def)

lemma absent_of_table:
  assumes "header_map H" "chrome_header (cp_headers p) site i ctx ach ref n = None"
  shows "hm_get H (inject_chrome_headers H (hm_new H) p site i ctx ach ref) n = None"
  using assms by (simp add: header_of_table header_map.get_None_iff header_map.get_all_new)

lemma visible_contexts:
  "visible_text (fst (context_metadata ctx))" "visible_text (fst (snd (context_metadata ctx)))"
  "visible_text (snd (snd (context_metadata ctx)))"
  using visible_context_metadata[of ctx] by (cases "context_metadata ctx"; simp)+

theorem unit_tests_hold:
  assumes "header_map H" "chrome_134_windows_x64 r g = Some (profile, g')"
  shows "test_inject_chrome_headers_context_mapping H profile"
    "test_inject_sensitive_headers_marked_properly H profile"
proof -
  have number: "visible_text ''15.0.0''" "visible_text (quoted ''15.0.0'')" by code_simp+
  note shown = text_of_table[OF assms(1)] and absent = absent_of_table[OF assms(1)]
  have version: "hdr_sec_ch_ua_platform_version (cp_headers profile) = quoted ''15.0.0''"
    using assms(2) by (auto simp: chrome_134_windows_x64_def bind_eq_Some_conv)
  have metadata: "header_text H (inject_chrome_headers H h profile site i ctx ach ref) ''sec-fetch-dest'' =
        Some (fst (snd (context_metadata ctx)))"
    "header_text H (inject_chrome_headers H h profile site i ctx ach ref) ''sec-fetch-mode'' =
        Some (fst (context_metadata ctx))"
    "header_text H (inject_chrome_headers H h profile site i ctx ach ref) ''accept'' =
        Some (snd (snd (context_metadata ctx)))" for h site i ctx ach ref
    by (simp_all add: shown chrome_header_values visible_contexts)
  have avif: "str_contains (snd (snd (context_metadata NoCorsImage))) ''image/avif''" by code_simp
  have third: "header_text H (inject_chrome_headers H (hm_new H) profile ''cross-site'' False Xhr True None)
      ''sec-ch-ua-platform-version'' = Some (quoted ''15.0.0'')"
    by (rule shown) (simp_all add: chrome_header_values version if_visible_def number)
  show "test_inject_chrome_headers_context_mapping H profile"
    using avif third
    by (simp add: test_inject_chrome_headers_context_mapping_def metadata absent chrome_header_values Let_def
        shown if_visible_def visible_static)
  have vis: "visible_text ''session=123''" "visible_text ''Bearer token''" "visible_text ''example.com''" by code_simp+
  have host: "chrome_header hp site i ctx ach ref ''host'' = None" for hp site i ctx ach ref
    by (simp add: chrome_header_def header_table_def case_prod_beta split del: if_split)
  show "test_inject_sensitive_headers_marked_properly H profile"
    by (simp add: test_inject_sensitive_headers_marked_properly_def Let_def header_of_table[OF assms(1)]
        header_map.get_insert[OF assms(1)] header_map.from_static[OF assms(1)] vis host plain_value_def)
qed

section \<open>Integration tests\<close>

text \<open>
  \<open>Client::builder().profile(chrome_134::profile(pf)).danger_accept_invalid_certs(true).build()\<close>
  against a server that will give the answers of the script.
\<close>

definition test_client where
  "test_client pf script =
    Option.bind (profile_134 pf replay_rng [0, 0, 0]) (\<lambda>(profile, g).
      map_option (\<lambda>(cl, st, g). (cl, st)) (build_client TargetOther replay_rng g []
        (danger_accept_invalid_certs True (with_profile profile builder_default)) (script, [])))"

text \<open>A \<open>get\<close> that returns a response, the path of a request's URI, and what the server received.\<close>

definition test_get where
  "test_get cl url st =
    Option.bind (client_get toy_env cl url st) (\<lambda>(r, st). case r of Inr resp \<Rightarrow> Some (resp, st) | Inl e \<Rightarrow> None)"

definition request_path :: "(string, assoc_map) http_request \<Rightarrow> string" where
  "request_path req = (case web_parse (rq_uri req) of Inr u \<Rightarrow> takeWhile (\<lambda>c. c \<noteq> CHR ''?'') (wu_rest u) | Inl e \<Rightarrow> [])"

definition request_header :: "(string, assoc_map) http_request \<Rightarrow> string \<Rightarrow> string option" where
  "request_header req n = header_text assoc_headers (rq_headers req) n"

definition received :: "((string \<times> string) list, toy_world) client_state \<Rightarrow> (string, assoc_map) http_request list" where
  "received st = snd (cs_world st)"

definition test_url :: "string \<Rightarrow> u16 \<Rightarrow> string \<Rightarrow> string" where
  "test_url host port path = ''https://'' @ host @ '':'' @ show_word port @ path"

definition test_redirect_referer_policy_stripping_tls :: "u16 \<Rightarrow> bool" where
  "test_redirect_referer_policy_stripping_tls port \<longleftrightarrow>
    (case test_client LinuxX64
        [(302, [(''location'', plain_value (test_url ''localhost'' port ''/target?secret=123''))]), (200, [])] of
       None \<Rightarrow> False
     | Some (client, st) \<Rightarrow>
         (case test_get client (test_url ''127.0.0.1'' port ''/source'') st of
            Some (response, st) \<Rightarrow>
              rs_status response = 200 \<and> map request_path (received st) = [''/source'', ''/target''] \<and>
              request_header (received st ! 1) ''referer'' = Some (test_url ''127.0.0.1'' port ''/'')
          | None \<Rightarrow> False))"

definition test_accept_ch_dynamic_solicitation_flow_tls :: "u16 \<Rightarrow> bool" where
  "test_accept_ch_dynamic_solicitation_flow_tls port \<longleftrightarrow>
    (case test_client WindowsX64
        [(200, [(''accept-ch'', plain_value ''sec-ch-ua-platform-version'')]), (200, [])] of
       None \<Rightarrow> False
     | Some (client, st) \<Rightarrow>
         (case test_get client (test_url ''127.0.0.1'' port ''/challenge'') st of
            Some (_, st) \<Rightarrow>
              (case test_get client (test_url ''127.0.0.1'' port ''/resource'') st of
                 Some (_, st) \<Rightarrow>
                   map request_path (received st) = [''/challenge'', ''/resource''] \<and>
                   request_header (received st ! 0) ''sec-ch-ua-platform-version'' = None \<and>
                   request_header (received st ! 1) ''sec-ch-ua-platform-version'' = Some (quoted ''15.0.0'')
               | None \<Rightarrow> False)
          | None \<Rightarrow> False))"

definition test_alt_svc_caching_and_h2_fallback_flow :: "u16 \<Rightarrow> bool" where
  "test_alt_svc_caching_and_h2_fallback_flow port \<longleftrightarrow>
    (let origin_key = ''127.0.0.1:'' @ show_word port in
     case test_client WindowsX64
        [(200, [(''alt-svc'', plain_value (''h3='' @ quoted ('':'' @ show_word port)))]), (200, [])] of
       None \<Rightarrow> False
     | Some (client, st) \<Rightarrow>
         (case test_get client (test_url ''127.0.0.1'' port ''/solicit'') st of
            Some (resp1, st) \<Rightarrow>
              rs_status resp1 = 200 \<and> alt_svc_get (cs_alt_svc st) origin_key \<noteq> None \<and>
              (case test_get client (test_url ''127.0.0.1'' port ''/fallback'') st of
                 Some (resp2, st) \<Rightarrow>
                   rs_status resp2 = 200 \<and> alt_svc_get (cs_alt_svc st) origin_key = None \<and>
                   map request_path (received st) = [''/solicit'', ''/fallback'']
               | None \<Rightarrow> False)
          | None \<Rightarrow> False))"

definition test_navigate_context_headers_over_tls_mock :: "u16 \<Rightarrow> bool" where
  "test_navigate_context_headers_over_tls_mock port \<longleftrightarrow>
    (case test_client LinuxX64 [(200, [])] of
       None \<Rightarrow> False
     | Some (client, st) \<Rightarrow>
         (case test_get client (test_url ''127.0.0.1'' port ''/test'') st of
            Some (response, st) \<Rightarrow>
              rs_status response = 200 \<and>
              (case received st of
                 [req] \<Rightarrow>
                   request_header req ''sec-fetch-dest'' = Some ''document'' \<and>
                   request_header req ''sec-fetch-mode'' = Some ''navigate'' \<and>
                   request_header req ''sec-fetch-user'' = Some ''?1'' \<and>
                   request_header req ''upgrade-insecure-requests'' = Some ''1'' \<and>
                   (case request_header req ''user-agent'' of Some t \<Rightarrow> str_contains t ''Chrome'' | None \<Rightarrow> False)
               | _ \<Rightarrow> False)
          | None \<Rightarrow> False))"

text \<open>The operating system picks the port of the mock server. Here it has picked 81.\<close>

theorem redirect_test_holds: "test_redirect_referer_policy_stripping_tls 81"
  by code_simp

theorem accept_ch_test_holds: "test_accept_ch_dynamic_solicitation_flow_tls 81"
  by code_simp

theorem alt_svc_test_holds: "test_alt_svc_caching_and_h2_fallback_flow 81"
  by code_simp

theorem navigate_test_holds: "test_navigate_context_headers_over_tls_mock 81"
  by code_simp

end
