(* ===== verification/Spec2Isabelle.thy ===== *)
theory Spec2Isabelle imports Quik_Prelude Quik_Error Quik_Profile Chrome_134 Chrome_147 Chrome_148 Http2_Handshake Profile_Family Tls_Connector Header_Interface Request Utf8 Net_Interface Proxy Response Connector Quic_Config Machine Quic_Driver Quic_Session Quic_System Quic_Answers Quic_World Client_State Client Client_Sample Client_Redirect Client_Pool Client_Fallback Client_Build Pool_Send Pool_Race Pool_Flight Pool_Claims Client_Calls Calls_Progress Calls_Alone Calls_Pool Calls_Frame Calls_History Calls_Identity Calls_Claims Calls_Driven Calls_Whole Conformance begin

text \<open>
  http-quik: an HTTP client that presents the network identity of Chrome (\<open>src/src\<close>, Rust). The
  library models the whole crate but for its re-exports, and the tests of the repository where they
  watch this code.

  \<^bold>\<open>The program.\<close> A \<open>Client\<close> (\<open>client/pool.rs\<close>) holds a profile, an optional proxy and four stores
  shared by its clones: the connection pool, the cookie store, the client-hint cache and the
  Alt-Svc cache. A request runs hop by hop. A hop chooses HTTP/2 or HTTP/3 by the Alt-Svc cache,
  takes a connection from its slot of the pool or dials one, builds the request with the Chrome
  headers, sends it, feeds the stores from the response and follows a redirect. An HTTP/2
  connection is dialled over TCP, directly or through a proxy, then BoringSSL, then the h2
  handshake; an HTTP/3 one is a channel to a task that drives quiche over UDP.

  \<^bold>\<open>Theories and code.\<close>
  \<^item> \<open>Quik_Prelude\<close>: errors as sums, state passing, byte strings, decimal printing, the shared
    collections of lemmas. \<open>Quik_Error\<close>: \<open>error.rs\<close>.
  \<^item> \<open>Quik_Profile\<close>, \<open>Chrome_134\<close>, \<open>Chrome_147\<close>, \<open>Chrome_148\<close>: \<open>profile/\<close>, one definition per
    constant and constructor; the random source is a parameter. \<open>Profile_Family\<close>: what the three
    modules have in common, as the locale \<open>chrome_family\<close> with an interpretation for each.
  \<^item> \<open>Http2_Handshake\<close>: \<open>http2/handshake.rs\<close>; \<open>Tls_Connector\<close>: \<open>tls/connector.rs\<close>. Both produce
    the list of calls on the foreign builder, in order.
  \<^item> \<open>Header_Interface\<close>, \<open>Net_Interface\<close>: the interfaces of the foreign header map, TCP stream and
    URL type, as locales (\<open>header_map\<close>, \<open>tcp_peer\<close>, \<open>url_crate\<close>) with concrete instances.
  \<^item> \<open>Request\<close>: \<open>inject_chrome_headers\<close> of \<open>client/request.rs\<close>. \<open>Utf8\<close>: the standard library's
    UTF-8 decoding that \<open>Proxy\<close>, \<open>Response\<close> and the driver use.
  \<^item> \<open>Proxy\<close>: \<open>client/proxy.rs\<close>. \<open>Connector\<close>: \<open>client/connector.rs\<close>. \<open>Response\<close>:
    \<open>client/response.rs\<close>.
  \<^item> \<open>Quic_Config\<close>: \<open>client/h3.rs\<close> and the transport parameters of \<open>client/quic.rs\<close>.
    \<open>Quic_Driver\<close>: \<open>run_quic_driver\<close> as the step relation \<open>driver_step\<close>. \<open>Quic_Session\<close>:
    \<open>QuicSession::send\<close> and the properties of the HTTP/3 path. \<open>Quic_System\<close>: callers, channel and
    driver together. \<open>Machine\<close>: the locales of transition systems and their invariants.
  \<^item> \<open>Client_State\<close>: the shared stores and their locks, with the locale \<open>origin_cache\<close> of the
    Alt-Svc cache. \<open>Client\<close>: the request engine and the builder, as state passing over
    \<open>client_state\<close>, whose \<open>cs_world\<close> is everything outside. \<open>Client_Sample\<close>: an environment in
    memory on which witnesses run.
  \<^item> \<open>Pool_Send\<close>: \<open>PooledConnection::send\<close> cut at the await of its response, out of the halves of
    \<open>QuikConnection::send\<close> and \<open>QuicSession::send\<close>; \<open>in_flight\<close> is what a sent request waits for.
    \<open>Pool_Race\<close>: the acquisition loop, the sending of the request, the wait for its response and the
    fallback as steps between awaits, for any number of tasks (\<open>race_step\<close>); \<open>point\<close> is where a task is suspended, \<open>holds\<close>
    the mutex guards it has there.
  \<^item> \<open>Client_Calls\<close>: whole calls of \<open>execute_with_redirects\<close> on one shared client, interleaved
    (\<open>calls_step\<close>). \<open>begin_hop\<close> and \<open>start_hop\<close> are the stretch of a hop before its first await,
    \<open>finish_hop\<close> and \<open>next_call\<close> what follows the response; between them a call moves by
    \<open>task_step\<close> of \<open>Pool_Race\<close>. \<open>call\<close> is where a call is, \<open>calls\<close> the client and all its calls.
  \<^item> \<open>Conformance\<close>: the unit tests of \<open>client/request.rs\<close> and four tests of \<open>tests/\<close> as propositions.

  \<^bold>\<open>What is shown.\<close>
  \<^item> \<open>Profile_Family\<close>, \<open>Tls_Connector\<close>, \<open>Connector\<close>: profiles are total and show the published
    fingerprints; the connector runs its plan; ALPS and ALPN payloads read back; a connection needs
    every stage, and a proxied one never dials directly.
  \<^item> \<open>Request\<close>, \<open>Client_Fallback\<close>: the complete header map of a request; confidential values stay out
    of the compression table; both fallbacks; every call returns.
  \<^item> \<open>Proxy\<close>, \<open>Response\<close>: the two proxy handshakes refine the reading of the server's bytes whatever
    the segmentation; when a body is collected and how it is decoded.
  \<^item> \<open>Quic_Session\<close>: the driver loses no request, refuses before the handshake, and polling refines
    the frame-by-frame semantics of a stream. \<open>Quic_System\<close>: every caller is answered or told that
    the driver is gone, in a channel that is bounded and served in order. \<open>Quic_Answers\<close>: what a caller gets back
    is the answer to its own request, for every channel with the laws of the locale
    \<open>session_channel\<close> and for the one that runs the modelled driver. \<open>Quic_World\<close>: many sessions in one
    world, what stays true of a command that has been sent while anything else happens.
  \<^item> \<open>Client_Redirect\<close>, \<open>Client_Pool\<close>, \<open>Client_Build\<close>: invariants of a redirect chain, the keys
    and slots of the pool, the Alt-Svc cache and the hints, and the builder's verification switch.
  \<^item> \<open>Pool_Flight\<close>, \<open>Pool_Claims\<close>: which task can move, one dial for many tasks, the stale eviction,
    and the run of one task as the sequential functions of \<open>Client\<close>.
  \<^item> \<open>Calls_Progress\<close>: some call can always move, and a measure falls with every step. \<open>Calls_Alone\<close>:
    the sequential client is the run of one call. \<open>Calls_Pool\<close>: what the slots hold in every
    reachable state. \<open>Calls_Frame\<close>: what the network part of a hop can change, as the locales
    \<open>network_frame\<close> (of the client's state) and \<open>world_frame\<close> (of the world). \<open>Calls_History\<close>: cookies, hints and Alt-Svc entries as functions of the answers
    taken in. \<open>Calls_Identity\<close>: noninterference with an environment that refuses any identity but
    the profile's. \<open>Calls_Claims\<close>: the properties of calls and their witnesses.
  \<^item> \<open>Calls_Driven\<close>: a client whose sessions lead to their drivers, as the locale \<open>driven_client\<close>, and
    the invariant of its calls. \<open>Calls_Whole\<close>: the environment in which \<open>tokio::spawn\<close> starts the
    driver of \<open>Quic_Driver\<close> is such a client, over any other environment; an HTTP/3 answer that a call
    returns is the driver's answer to a command that the client built for that URL.
  \<^item> \<open>Conformance\<close>: the unit tests hold for every header map and every draw, the others on the sample
    environment.

  \<^bold>\<open>Foreign code.\<close> BoringSSL, h2, quiche, tokio, the url, http, cookie and compression crates, the
  socket API and the random source are parameters: records of functions in the world, an argument
  of the definitions that use them. Properties that need their documented behaviour name it, as a
  hypothesis or through an interpretation of the locale that states it.

  \<^bold>\<open>Bounds and loops.\<close> There is no fuel. Loops bounded by their data are structural or have a
  measure (\<open>acquire_loop\<close> goes round once; \<open>run_hops\<close> counts the ten hops down). Loops a peer
  drives (CONNECT, body collection, decompression, flushing, polling) are partial functions whose
  \<open>None\<close> means that they never return; that they do is proved for peers that end.
  Interleaved calls are steps without fuel, and \<open>calls_measure\<close> bounds the length of every run:
  an eviction can send each other call round the acquisition loop once more, hence the square of
  the number of calls. Lengths and
  ports keep their widths as words (the SOCKS and ALPN length bytes wrap, as in the source).

  \<^bold>\<open>Not modelled.\<close> Log output; the length of timeouts (the timer is an event that may come at any
  time); the panic of a task other than through a poisoned lock; memory and buffer capacities
  beyond those the code checks; the tasks the h2 library runs; interleavings inside one dial (it is
  one step of the world, under the guard of its slot; a send is two, cut at the wait for its
  response), and of the short critical sections of the standard locks,
  which contain no await. \<open>lib.rs\<close> and the three \<open>mod.rs\<close> of \<open>client\<close>, \<open>http2\<close> and \<open>tls\<close>
  contain no operation. Of the tests, the ClientHello bytes of \<open>fingerprint.rs\<close> are BoringSSL's
  output and \<open>hpack_never_indexed.rs\<close> needs a public server; the mock server of \<open>tests/common\<close> is
  the script of the sample environment.
\<close>

end
